(* ===== verification/Prelude.thy ===== *)
theory Prelude
  imports Main "HOL-Library.Word" "HOL-Library.Sublist"
begin

unbundle bit_operations_syntax

section \<open>Prelude\<close>

text \<open>
  What every component shares: errors as values of a sum type with a sequencing
  operator, Python byte strings and their \<open>struct\<close> decodings, Python slices,
  insertion-ordered dictionaries, a stable sort by a key, and the character classes of
  Python's \<open>str\<close> for the code points the model covers (U+0000 to U+00FF, the values of
  HOL's \<open>char\<close>).
\<close>

named_theorems res_simps \<open>rewriting of sequenced results\<close>
named_theorems byte_simps \<open>lengths and values of byte-level decodings\<close>

type_synonym byte = "8 word"
type_synonym bytes = "byte list"

subsection \<open>Fallible computations\<close>

text \<open>\<open>Inl e\<close> is a raised exception, \<open>Inr x\<close> a returned value.\<close>

definition res_bind :: "'e + 'a \<Rightarrow> ('a \<Rightarrow> 'e + 'b) \<Rightarrow> 'e + 'b" where
  "res_bind m f = (case m of Inl e \<Rightarrow> Inl e | Inr x \<Rightarrow> f x)"

lemma res_bind_Inl [simp]: "res_bind (Inl e) f = Inl e"
  by (simp add: res_bind_def)

lemma res_bind_Inr [simp]: "res_bind (Inr x) f = f x"
  by (simp add: res_bind_def)

lemma res_bind_cong [fundef_cong]:
  "m = m' \<Longrightarrow> (\<And>x. m' = Inr x \<Longrightarrow> f x = g x) \<Longrightarrow> res_bind m f = res_bind m' g"
  by (cases m') auto

lemma res_bind_eq_Inr [res_simps]:
  "res_bind m f = Inr y \<longleftrightarrow> (\<exists>x. m = Inr x \<and> f x = Inr y)"
  by (cases m) auto

lemma res_bind_eq_Inl [res_simps]:
  "res_bind m f = Inl e \<longleftrightarrow> m = Inl e \<or> (\<exists>x. m = Inr x \<and> f x = Inl e)"
  by (cases m) auto

lemma res_bind_Inr_right [simp]: "res_bind m Inr = m"
  by (cases m) auto

lemma not_Inl_iff [res_simps]: "(\<forall>e. m \<noteq> Inl e) \<longleftrightarrow> (\<exists>x. m = Inr x)"
  by (cases m) auto

text \<open>A comprehension that stops at the first exception.\<close>

fun res_map :: "('a \<Rightarrow> 'e + 'b) \<Rightarrow> 'a list \<Rightarrow> 'e + 'b list" where
  "res_map f [] = Inr []"
| "res_map f (x # xs) = res_bind (f x) (\<lambda>y. res_bind (res_map f xs) (\<lambda>ys. Inr (y # ys)))"

lemma res_map_cong [fundef_cong]:
  "xs = ys \<Longrightarrow> (\<And>x. x \<in> set ys \<Longrightarrow> f x = g x) \<Longrightarrow> res_map f xs = res_map g ys"
proof (induction ys arbitrary: xs)
  case (Cons y ys)
  then have "res_map f ys = res_map g ys" by auto
  with Cons.prems show ?case by simp
qed simp

lemma res_map_eq_Inr: "res_map f xs = Inr ys \<longleftrightarrow> list_all2 (\<lambda>x y. f x = Inr y) xs ys"
  by (induction xs arbitrary: ys) (auto simp: res_simps list_all2_Cons1)

lemma res_map_Inr: "(\<And>x. x \<in> set xs \<Longrightarrow> f x = Inr (g x)) \<Longrightarrow> res_map f xs = Inr (map g xs)"
  by (induction xs) auto

lemma res_map_length: "res_map f xs = Inr ys \<Longrightarrow> length ys = length xs"
  by (auto simp: res_map_eq_Inr dest: list_all2_lengthD)

lemma res_map_set:
  assumes "res_map f xs = Inr ys" and "y \<in> set ys"
  obtains x where "x \<in> set xs" and "f x = Inr y"
proof -
  from assms obtain i where i: "i < length ys" "y = ys ! i"
    by (auto simp: in_set_conv_nth)
  from assms(1) i have "xs ! i \<in> set xs" "f (xs ! i) = Inr y"
    by (auto simp: res_map_eq_Inr list_all2_conv_all_nth)
  then show ?thesis by (rule that)
qed

lemma find_SomeD: "find P xs = Some x \<Longrightarrow> x \<in> set xs \<and> P x"
  by (auto simp: find_Some_iff)

lemma res_map_Inl: "res_map f xs = Inl e \<Longrightarrow> \<exists>x \<in> set xs. f x = Inl e"
  by (induction xs) (auto simp: res_simps)

text \<open>A loop that threads a state and stops at the first exception.\<close>

fun fold_res :: "('a \<Rightarrow> 's \<Rightarrow> 'e + 's) \<Rightarrow> 'a list \<Rightarrow> 's \<Rightarrow> 'e + 's" where
  "fold_res f [] s = Inr s"
| "fold_res f (x # xs) s = res_bind (f x s) (fold_res f xs)"

lemma fold_res_append: "fold_res f (xs @ ys) s = res_bind (fold_res f xs s) (fold_res f ys)"
proof (induction xs arbitrary: s)
  case (Cons x xs)
  then show ?case by (cases "f x s") simp_all
qed simp

text \<open>What every round keeps, the loop keeps.\<close>

lemma fold_res_inv:
  assumes "fold_res f xs s = Inr s'" "P s" "\<And>x t t'. x \<in> set xs \<Longrightarrow> P t \<Longrightarrow> f x t = Inr t' \<Longrightarrow> P t'"
  shows "P s'"
  using assms by (induction xs arbitrary: s) (auto simp: res_simps)

lemma fold_res_total:
  assumes "P s" "\<And>x t. x \<in> set xs \<Longrightarrow> P t \<Longrightarrow> \<exists>t'. f x t = Inr t' \<and> P t'"
  shows "\<exists>s'. fold_res f xs s = Inr s' \<and> P s'"
  using assms
proof (induction xs arbitrary: s)
  case (Cons x xs)
  then obtain t where "f x s = Inr t" "P t" by (meson list.set_intros(1))
  with Cons show ?case by auto
qed simp

text \<open>The elements in order of first occurrence.\<close>

definition first_seen :: "'a list \<Rightarrow> 'a list" where
  "first_seen xs = fold (\<lambda>x seen. if x \<in> set seen then seen else seen @ [x]) xs []"

lemma first_seen_acc:
  "fold (\<lambda>x seen. if x \<in> set seen then seen else seen @ [x]) xs acc = ys \<Longrightarrow> distinct acc
   \<Longrightarrow> distinct ys \<and> set ys = set acc \<union> set xs"
  by (induction xs arbitrary: acc) (auto split: if_splits)

lemma first_seen_distinct [simp]: "distinct (first_seen xs)"
  and set_first_seen [simp]: "set (first_seen xs) = set xs"
  using first_seen_acc [of xs "[]", OF refl] by (simp_all add: first_seen_def)

lemma first_seen_same: "xs \<noteq> [] \<Longrightarrow> set xs = {a} \<Longrightarrow> first_seen xs = [a]"
proof -
  assume "xs \<noteq> []" "set xs = {a}"
  then have "set (first_seen xs) = {a}" "distinct (first_seen xs)" by simp_all
  then show ?thesis by (cases "first_seen xs"; cases "tl (first_seen xs)") auto
qed

lemma first_seen_append_fresh:
  assumes "set ys \<inter> set xs = {}"
  shows "first_seen (xs @ ys) = first_seen xs @ first_seen ys"
proof -
  have "fold (\<lambda>x seen. if x \<in> set seen then seen else seen @ [x]) zs (acc @ acc') = acc @ fold (\<lambda>x seen. if x \<in> set seen then seen else seen @ [x]) zs acc'"
    if "set zs \<inter> set acc = {}" for zs acc acc' :: "'a list"
    using that
  proof (induction zs arbitrary: acc')
    case (Cons z zs)
    then show ?case using Cons.IH[of "acc' @ [z]"] Cons.IH[of acc'] by auto
  qed simp
  from this[of ys "first_seen xs" "[]"] show ?thesis using assms by (simp add: first_seen_def[of "xs @ ys"] first_seen_def[of ys] flip: first_seen_def[of xs])
qed

lemma disjoint_of_singleton: "A \<subseteq> {x} \<Longrightarrow> x \<notin> B \<Longrightarrow> B \<inter> A = {}"
  by auto

text \<open>A list that was joined from groups with keys of their own falls into them again.\<close>

lemma groups_by_key:
  assumes "distinct (map fst gs)" "\<forall>g \<in> set gs. snd g \<noteq> [] \<and> (\<forall>c \<in> set (snd g). key c = fst g)"
  shows "first_seen (map key (concat (map snd gs))) = map fst gs
    \<and> map (\<lambda>a. filter (\<lambda>c. key c = a) (concat (map snd gs))) (map fst gs) = map snd gs"
  using assms
proof (induction gs)
  case (Cons g gs)
  let ?rest = "concat (map snd gs)"
  have ih: "first_seen (map key ?rest) = map fst gs" "map (\<lambda>a. filter (\<lambda>c. key c = a) ?rest) (map fst gs) = map snd gs"
    using Cons by simp_all
  have keys: "key ` set ?rest = fst ` set gs" using set_first_seen[of "map key ?rest"] ih(1) by simp
  have fresh: "fst g \<notin> fst ` set gs" using Cons.prems(1) by simp
  have "first_seen (map key (snd g)) = [fst g]" by (rule first_seen_same; cases "snd g") (use Cons.prems(2) in auto)
  moreover have "key ` set (snd g) \<subseteq> {fst g}" using Cons.prems(2) by auto
  then have "set (map key ?rest) \<inter> set (map key (snd g)) = {}" unfolding set_map keys using fresh by (rule disjoint_of_singleton)
  ultimately have "first_seen (map key (snd g) @ map key ?rest) = fst g # map fst gs"
    using first_seen_append_fresh[of "map key ?rest" "map key (snd g)"] ih(1) by simp
  moreover have "key c \<noteq> fst g" if "c \<in> set ?rest" for c
    using imageI[OF that, of key] fresh unfolding keys by metis
  then have "filter (\<lambda>c. key c = fst g) ?rest = []" unfolding filter_empty_conv by blast
  moreover have "filter (\<lambda>c. key c = fst g) (snd g) = snd g" using Cons.prems(2) by simp
  moreover have "filter (\<lambda>c. key c = a) (snd g) = []" if "a \<in> fst ` set gs" for a
    using that Cons.prems by (auto simp: filter_empty_conv)
  then have "map (\<lambda>a. filter (\<lambda>c. key c = a) (snd g @ ?rest)) (map fst gs) = map snd gs" using ih(2) by (auto simp: image_iff)
  ultimately show ?case by simp
qed (simp add: first_seen_def)

subsection \<open>Slices and byte decodings\<close>

text \<open>Python's \<open>xs[a:b]\<close> for \<open>0 \<le> a\<close>, \<open>0 \<le> b\<close>: out-of-range bounds are clipped.\<close>

definition slice :: "'a list \<Rightarrow> nat \<Rightarrow> nat \<Rightarrow> 'a list" where
  "slice xs a b = take (b - a) (drop a xs)"

lemma length_slice [byte_simps]: "length (slice xs a b) = min (b - a) (length xs - a)"
  by (simp add: slice_def min.commute)

lemma slice_full [simp]: "slice xs 0 (length xs) = xs"
  by (simp add: slice_def)

lemma slice_empty [simp]: "b \<le> a \<Longrightarrow> slice xs a b = []"
  by (simp add: slice_def)

lemma slice_nth: "i < length (slice xs a b) \<Longrightarrow> slice xs a b ! i = xs ! (a + i)"
  by (cases "a \<le> length xs") (auto simp: slice_def)

lemma slice_append_slice:
  assumes "a \<le> b" and "b \<le> c"
  shows "slice xs a b @ slice xs b c = slice xs a c"
proof -
  have "take (b - a) (drop a xs) @ take (c - b) (drop (b - a) (drop a xs))
      = take ((b - a) + (c - b)) (drop a xs)"
    by (simp only: take_add)
  with assms show ?thesis by (simp add: slice_def)
qed

lemma slice_append_left: "b \<le> length xs \<Longrightarrow> slice (xs @ ys) a b = slice xs a b"
  by (auto simp: slice_def)

lemma slice_append_right:
  "length xs \<le> a \<Longrightarrow> slice (xs @ ys) a b = slice ys (a - length xs) (b - length xs)"
  by (auto simp: slice_def)

text \<open>A bytes literal: the ASCII codes of a string.\<close>

definition bytes_of :: "string \<Rightarrow> bytes" where
  "bytes_of s = map (\<lambda>c. of_nat (of_char c)) s"

lemma length_bytes_of [simp]: "length (bytes_of s) = length s"
  by (simp add: bytes_of_def)

text \<open>\<open>struct\<close>'s unsigned integers, little- and big-endian.\<close>

primrec le_uint :: "bytes \<Rightarrow> nat" where
  "le_uint [] = 0"
| "le_uint (b # bs) = unat b + 256 * le_uint bs"

definition be_uint :: "bytes \<Rightarrow> nat" where
  "be_uint bs = le_uint (rev bs)"

primrec le_bytes :: "nat \<Rightarrow> nat \<Rightarrow> bytes" where
  "le_bytes 0 v = []"
| "le_bytes (Suc n) v = of_nat (v mod 256) # le_bytes n (v div 256)"

lemma length_le_bytes [byte_simps, simp]: "length (le_bytes n v) = n"
  by (induction n arbitrary: v) auto

lemma unat_byte_mod [simp]: "unat (of_nat (v mod 256) :: byte) = v mod 256"
  by (simp add: unat_of_nat)

lemma le_uint_bound: "le_uint bs < 256 ^ length bs"
proof (induction bs)
  case (Cons b bs)
  have "unat b < 256" using unsigned_less [of b] by simp
  with Cons show ?case by simp
qed simp

lemma le_uint_le_bytes: "v < 256 ^ n \<Longrightarrow> le_uint (le_bytes n v) = v"
proof (induction n arbitrary: v)
  case (Suc n)
  then have "v div 256 < 256 ^ n" by (simp add: less_mult_imp_div_less mult.commute)
  then have "le_uint (le_bytes n (v div 256)) = v div 256" by (rule Suc.IH)
  then show ?case by simp
qed simp

lemma le_uint_append: "le_uint (xs @ ys) = le_uint xs + 256 ^ length xs * le_uint ys"
  by (induction xs) (auto simp: algebra_simps)

lemma be_uint_bound: "be_uint bs < 256 ^ length bs"
  using le_uint_bound [of "rev bs"] by (simp add: be_uint_def)

lemma xor_right_cancel: "a XOR p = b XOR p \<Longrightarrow> a = b" for a b p :: "'a::len word"
  by (metis xor.assoc xor.right_neutral xor_self_eq)

lemma slice_at:
  "a = length pre \<Longrightarrow> b = length pre + length mid \<Longrightarrow> slice (pre @ mid @ post) a b = mid"
  by (simp add: slice_def)

lemma le_uint_zeros [simp]: "le_uint (replicate n 0) = 0"
  by (induction n) auto

lemma le_uint_inj: "length xs = length ys \<Longrightarrow> le_uint xs = le_uint ys \<Longrightarrow> xs = ys"
proof (induction xs ys rule: list_induct2)
  case (Cons x xs y ys)
  have lt: "unat x < 256" "unat y < 256" using unsigned_less [of x] unsigned_less [of y] by simp_all
  have eq: "unat x + 256 * le_uint xs = unat y + 256 * le_uint ys" using Cons.prems by simp
  from arg_cong [OF eq, of "\<lambda>n. n mod 256"] lt have x: "unat x = unat y" by simp
  with eq Cons.IH show ?case by (simp add: word_unat_eq_iff)
qed simp

lemma slice_update_outside: "i < a \<or> b \<le> i \<Longrightarrow> slice (xs[i := x]) a b = slice xs a b"
  by (cases "a \<le> i") (auto simp: slice_def drop_update_swap take_update_cancel)

lemma slice_update_inside:
  "a \<le> i \<Longrightarrow> slice (xs[i := x]) a b = (slice xs a b)[i - a := x]"
  by (auto simp: slice_def drop_update_swap take_update_swap)

subsection \<open>Characters\<close>

text \<open>
  Python's \<open>str.isspace\<close>, \<open>str.isdigit\<close> and \<open>re\<close>'s word characters for the code
  points U+0000 to U+00FF. \<open>isdigit\<close> holds of the superscripts two, three and one as
  well, which \<open>int()\<close> refuses.
\<close>

abbreviation code_point :: "char \<Rightarrow> nat" where
  "code_point c \<equiv> of_char c"

definition py_isspace :: "char \<Rightarrow> bool" where
  "py_isspace c = (let n = code_point c in 9 \<le> n \<and> n \<le> 13 \<or> 28 \<le> n \<and> n \<le> 32 \<or> n = 133 \<or> n = 160)"

definition ascii_digit :: "char \<Rightarrow> bool" where
  "ascii_digit c = (let n = code_point c in 48 \<le> n \<and> n \<le> 57)"

definition py_isdigit :: "char \<Rightarrow> bool" where
  "py_isdigit c = (let n = code_point c in 48 \<le> n \<and> n \<le> 57 \<or> n = 178 \<or> n = 179 \<or> n = 185)"

definition digit_val :: "char \<Rightarrow> int" where
  "digit_val c = int (code_point c) - 48"

definition digits_val :: "string \<Rightarrow> int" where
  "digits_val ds = foldl (\<lambda>n c. 10 * n + digit_val c) 0 ds"

lemma ascii_digit_isdigit: "ascii_digit c \<Longrightarrow> py_isdigit c"
  by (simp add: ascii_digit_def py_isdigit_def Let_def)

lemma ascii_digit_not_space: "ascii_digit c \<Longrightarrow> \<not> py_isspace c"
  by (auto simp: ascii_digit_def py_isspace_def Let_def)

text \<open>The decimal numeral of a number.\<close>

fun nat_digits :: "nat \<Rightarrow> string" where
  "nat_digits n = (if n < 10 then [char_of (48 + n)] else nat_digits (n div 10) @ [char_of (48 + n mod 10)])"

declare nat_digits.simps [simp del]

lemma code_point_digit [simp]: "(n :: nat) < 10 \<Longrightarrow> of_char (char_of (48 + n) :: char) = 48 + n"
  by (simp add: of_char_of)

lemma nat_digits_ascii: "\<forall>c \<in> set (nat_digits n). ascii_digit c"
proof (induction n rule: nat_digits.induct)
  case (1 n)
  have "ascii_digit (char_of (48 + n mod 10))" "n < 10 \<Longrightarrow> ascii_digit (char_of (48 + n))"
    by (simp_all add: ascii_digit_def Let_def)
  with 1 show ?case by (subst nat_digits.simps) auto
qed

lemma nat_digits_nonempty [simp]: "nat_digits n \<noteq> []"
  by (subst nat_digits.simps) simp

lemma digits_val_snoc: "digits_val (ds @ [c]) = 10 * digits_val ds + digit_val c"
  by (simp add: digits_val_def)

lemma digits_val_nat_digits: "digits_val (nat_digits n) = int n"
proof (induction n rule: nat_digits.induct)
  case (1 n)
  show ?case
  proof (cases "n < 10")
    case True
    then show ?thesis by (subst nat_digits.simps) (simp add: digits_val_def digit_val_def)
  next
    case False
    then have "digits_val (nat_digits n) = 10 * int (n div 10) + int (n mod 10)"
      using 1 by (subst nat_digits.simps) (simp add: digits_val_snoc digit_val_def)
    also have "\<dots> = int (10 * (n div 10) + n mod 10)" by (simp only: of_nat_add of_nat_mult of_nat_numeral)
    finally show ?thesis by simp
  qed
qed

lemma takeWhile_app: "\<forall>c \<in> set xs. P c \<Longrightarrow> (ys = [] \<or> \<not> P (hd ys)) \<Longrightarrow> takeWhile P (xs @ ys) = xs"
  by (induction xs) (cases ys; auto)+

text \<open>\<open>str.strip()\<close> and \<open>str.rstrip(chars)\<close>.\<close>

definition py_rstrip :: "(char \<Rightarrow> bool) \<Rightarrow> string \<Rightarrow> string" where
  "py_rstrip p s = rev (dropWhile p (rev s))"

definition py_strip :: "string \<Rightarrow> string" where
  "py_strip s = py_rstrip py_isspace (dropWhile py_isspace s)"

text \<open>\<open>str.lower\<close> for code points up to U+00FF.\<close>

definition lower_char :: "char \<Rightarrow> char" where
  "lower_char c = (let n = code_point c in
     if 65 \<le> n \<and> n \<le> 90 \<or> 192 \<le> n \<and> n \<le> 214 \<or> 216 \<le> n \<and> n \<le> 222 then char_of (n + 32) else c)"

definition py_lower :: "string \<Rightarrow> string" where
  "py_lower s = map lower_char s"

text \<open>
  \<open>bytes.decode("utf-8", errors="strict")\<close> to code points; \<open>None\<close> is \<open>UnicodeDecodeError\<close>.
  Overlong forms, surrogates and code points above U+10FFFF are refused.
\<close>

definition utf8_cont :: "nat \<Rightarrow> bool" where
  "utf8_cont n \<longleftrightarrow> 128 \<le> n \<and> n < 192"

fun utf8_decode :: "nat list \<Rightarrow> nat list option" where
  "utf8_decode [] = Some []"
| "utf8_decode (a # bs) =
    (if a < 128 then map_option ((#) a) (utf8_decode bs)
     else if 194 \<le> a \<and> a < 224 then
       (case bs of b # bs' \<Rightarrow>
          if utf8_cont b then map_option ((#) ((a - 192) * 64 + (b - 128))) (utf8_decode bs') else None
        | _ \<Rightarrow> None)
     else if 224 \<le> a \<and> a < 240 then
       (case bs of b # c # bs' \<Rightarrow>
          if utf8_cont b \<and> utf8_cont c \<and> (a = 224 \<longrightarrow> 160 \<le> b) \<and> (a = 237 \<longrightarrow> b < 160)
          then map_option ((#) ((a - 224) * 4096 + (b - 128) * 64 + (c - 128))) (utf8_decode bs') else None
        | _ \<Rightarrow> None)
     else if 240 \<le> a \<and> a < 245 then
       (case bs of b # c # d # bs' \<Rightarrow>
          if utf8_cont b \<and> utf8_cont c \<and> utf8_cont d \<and> (a = 240 \<longrightarrow> 144 \<le> b) \<and> (a = 244 \<longrightarrow> b < 144)
          then map_option ((#) ((a - 240) * 262144 + (b - 128) * 4096 + (c - 128) * 64 + (d - 128)))
                 (utf8_decode bs') else None
        | _ \<Rightarrow> None)
     else None)"

lemma utf8_decode_ascii: "\<forall>n \<in> set ns. n < 128 \<Longrightarrow> utf8_decode ns = Some ns"
  by (induction ns) auto

subsection \<open>Insertion-ordered dictionaries\<close>

text \<open>
  A Python \<open>dict\<close>: assigning an existing key keeps its place, a new key goes to the end.
\<close>

fun dict_set :: "'k \<Rightarrow> 'v \<Rightarrow> ('k \<times> 'v) list \<Rightarrow> ('k \<times> 'v) list" where
  "dict_set k v [] = [(k, v)]"
| "dict_set k v ((k', v') # d) = (if k = k' then (k, v) # d else (k', v') # dict_set k v d)"

abbreviation (input) dict_get :: "('k \<times> 'v) list \<Rightarrow> 'k \<Rightarrow> 'v option" where
  "dict_get d k \<equiv> map_of d k"

lemma dict_set_new: "k \<notin> fst ` set d \<Longrightarrow> dict_set k v d = d @ [(k, v)]"
  by (induction d) auto

lemma dict_set_keys:
  "map fst (dict_set k v d) = (if k \<in> fst ` set d then map fst d else map fst d @ [k])"
proof (induction d)
  case (Cons kv d)
  then show ?case by (cases kv) auto
qed simp

lemma dict_set_get: "map_of (dict_set k v d) = (map_of d)(k \<mapsto> v)"
  by (induction d) (auto simp: fun_eq_iff)

lemma dict_set_distinct: "distinct (map fst d) \<Longrightarrow> distinct (map fst (dict_set k v d))"
  by (simp add: dict_set_keys)

lemma dict_set_nonempty [simp]: "dict_set k v d \<noteq> []"
  by (cases d) (auto split: if_splits)

text \<open>
  The interface components rely on when they fill a dictionary and read it back.
\<close>

locale ordered_dict =
  fixes emp :: "'m"
    and upd :: "'k \<Rightarrow> 'v \<Rightarrow> 'm \<Rightarrow> 'm"
    and look :: "'m \<Rightarrow> 'k \<Rightarrow> 'v option"
    and key_list :: "'m \<Rightarrow> 'k list"
  assumes look_emp: "look emp k = None"
    and look_upd: "look (upd k v m) k' = (if k' = k then Some v else look m k')"
    and keys_emp: "key_list emp = []"
    and keys_upd: "key_list (upd k v m)
        = (if k \<in> set (key_list m) then key_list m else key_list m @ [k])"
begin

lemma look_assigns: "look (fold (\<lambda>(k, v). upd k v) kvs m) k
    = (case map_of (rev kvs) k of None \<Rightarrow> look m k | Some v \<Rightarrow> Some v)"
proof (induction kvs arbitrary: m)
  case (Cons kv kvs)
  obtain k0 v0 where kv: "kv = (k0, v0)" by force
  have "look (fold (\<lambda>(k, v). upd k v) (kv # kvs) m) k
      = (case map_of (rev kvs) k of None \<Rightarrow> look (upd k0 v0 m) k | Some v \<Rightarrow> Some v)"
    using Cons [of "upd k0 v0 m"] kv by simp
  then show ?case
    using kv by (auto simp: look_upd map_add_def split: option.splits)
qed simp

lemma distinct_assigns: "distinct (key_list m) \<Longrightarrow> distinct (key_list (fold (\<lambda>(k, v). upd k v) kvs m))"
  by (induction kvs arbitrary: m) (auto simp: keys_upd)

lemma keys_assigns: "set (key_list (fold (\<lambda>(k, v). upd k v) kvs m)) = set (key_list m) \<union> fst ` set kvs"
  by (induction kvs arbitrary: m) (auto simp: keys_upd split: if_splits)

lemma keys_assigns_distinct:
  "distinct (map fst kvs) \<Longrightarrow> set (key_list m) \<inter> fst ` set kvs = {} \<Longrightarrow>
   key_list (fold (\<lambda>(k, v). upd k v) kvs m) = key_list m @ map fst kvs"
  by (induction kvs arbitrary: m) (force simp: keys_upd)+

end

interpretation pydict: ordered_dict "[]" dict_set map_of "map fst"
  by unfold_locales (auto simp: dict_set_get dict_set_keys)

end
