(* ===== verification/Lvm_Models.thy ===== *)
theory Lvm_Models
  imports Prelude
begin

section \<open>LVM2 object model and exceptions\<close>

text \<open>
  The exception classes of \<^verbatim>\<open>disk_images/lvm/exceptions.py\<close> and the frozen dataclasses
  of \<^verbatim>\<open>disk_images/lvm/models.py\<close>. An exception is modelled by its class; the message
  text is not. Besides the package's own classes the code lets some exceptions of the
  language and of its caller through: \<open>UnicodeDecodeError\<close> and \<open>ValueError\<close> raised
  by the standard library (the other readers of the disk image layer add \<open>struct.error\<close> and
  \<open>ZeroDivisionError\<close>), and whatever the caller's byte reader raises
  (\<open>ReaderException\<close>). \<open>NonLatin1Text\<close> is no exception of the program: it marks
  input the model does not cover (text with a code point above U+00FF).
\<close>

datatype lvm_exc =
    InvalidLabelError
  | UnsupportedMetadataVersionError
  | UnsupportedMetadataLayoutError
  | MalformedMetadataTextError
  | MissingRequiredFieldError
  | UnsupportedSegmentTypeError
  | InconsistentMetadataError
  | InvalidReadRequestError
  | ExtentMapGapError
  | UnresolvedPhysicalVolumeError
  | UnderlyingReadError
  | UnicodeDecodeError
  | ValueError
  | IndexError
  | KeyError
  | StructError
  | ZeroDivisionError
  | ReaderException string
  | NonLatin1Text

text \<open>\<open>isinstance(e, LVMMetadataError)\<close> and \<open>isinstance(e, LogicalVolumeReadError)\<close>.\<close>

fun is_LVMMetadataError :: "lvm_exc \<Rightarrow> bool" where
  "is_LVMMetadataError InvalidLabelError = True"
| "is_LVMMetadataError UnsupportedMetadataVersionError = True"
| "is_LVMMetadataError UnsupportedMetadataLayoutError = True"
| "is_LVMMetadataError MalformedMetadataTextError = True"
| "is_LVMMetadataError MissingRequiredFieldError = True"
| "is_LVMMetadataError UnsupportedSegmentTypeError = True"
| "is_LVMMetadataError InconsistentMetadataError = True"
| "is_LVMMetadataError _ = False"

fun is_LogicalVolumeReadError :: "lvm_exc \<Rightarrow> bool" where
  "is_LogicalVolumeReadError InvalidReadRequestError = True"
| "is_LogicalVolumeReadError ExtentMapGapError = True"
| "is_LogicalVolumeReadError UnresolvedPhysicalVolumeError = True"
| "is_LogicalVolumeReadError UnderlyingReadError = True"
| "is_LogicalVolumeReadError _ = False"

text \<open>The \<open>ByteRangeReader\<close> protocol: a callable from offset and size to bytes, which may raise.\<close>

type_synonym byte_reader = "int \<Rightarrow> int \<Rightarrow> lvm_exc + bytes"

record metadata_area =
  header_offset_bytes :: nat
  area_size_bytes :: nat
  metadata_text_offset_bytes :: nat
  metadata_text_size_bytes :: nat

record linear_segment =
  start_extent :: int
  extent_count :: int
  physical_volume_name :: string
  start_physical_extent :: int

record logical_volume =
  lv_name :: string
  lv_id :: string
  lv_segments :: "linear_segment list"

definition lv_extent_count :: "logical_volume \<Rightarrow> int" where
  "lv_extent_count lv = sum_list (map extent_count (lv_segments lv))"

record physical_volume =
  pv_name :: string
  pv_id :: string
  device_size_bytes :: int
  pv_extent_size_bytes :: int
  pe_start_bytes :: int
  pv_extent_count :: int

record volume_group =
  vg_name :: string
  vg_id :: string
  vg_extent_size_bytes :: int
  physical_volumes :: "physical_volume list"
  logical_volumes :: "logical_volume list"
  vg_metadata_area :: metadata_area

record physical_volume_metadata =
  pvm_physical_volume :: physical_volume
  pvm_volume_group :: volume_group

subsection \<open>The extent map\<close>

text \<open>
  \<open>contiguous_from e segs\<close>: the segments, in order, cover the extents from \<open>e\<close> on
  with no gap and no overlap. Both the metadata parser and the reader check it.
\<close>

fun contiguous_from :: "int \<Rightarrow> linear_segment list \<Rightarrow> bool" where
  "contiguous_from e [] = True"
| "contiguous_from e (s # ss) = (start_extent s = e \<and> contiguous_from (e + extent_count s) ss)"

lemma contiguous_from_append:
  "contiguous_from e (ss @ ts) \<longleftrightarrow>
   contiguous_from e ss \<and> contiguous_from (e + sum_list (map extent_count ss)) ts"
  by (induction ss arbitrary: e) (auto simp: algebra_simps)

text \<open>Sorting by \<open>start_extent\<close> (Python's stable sort) leaves a contiguous map with positive
  counts as it is.\<close>

lemma contiguous_sorted:
  assumes "contiguous_from e ss" and "\<forall>s \<in> set ss. 0 < extent_count s"
  shows "sorted (map start_extent ss) \<and> (\<forall>s \<in> set ss. e \<le> start_extent s)"
  using assms
proof (induction ss arbitrary: e)
  case (Cons s ss)
  then have "sorted (map start_extent ss) \<and> (\<forall>t \<in> set ss. e + extent_count s \<le> start_extent t)"
    by auto
  with Cons.prems show ?case by fastforce
qed simp

lemma contiguous_sort_key:
  assumes "contiguous_from e ss" and "\<forall>s \<in> set ss. 0 < extent_count s"
  shows "sort_key start_extent ss = ss"
  using contiguous_sorted [OF assms] by (simp add: sorted_sort_id sort_key_id_if_sorted)

end
