(* ===== verification/Byte_Source.thy ===== *)
theory Byte_Source
  imports Lvm_Models
begin

section \<open>Byte sources\<close>

text \<open>
  The contract between the layers that read a disk image. Every layer
  (\<^verbatim>\<open>disk_images/volume_access.py\<close>, \<^verbatim>\<open>disk_images/ewf_img_info.py\<close>,
  \<^verbatim>\<open>disk_images/lvm/reader.py\<close>) hands the next one a callable from an offset and a size to
  bytes. What a client relies on is that a request inside the source returns exactly the
  bytes of that range; what happens outside differs from layer to layer.
\<close>

locale exact_reader =
  fixes rd :: byte_reader
    and content :: bytes
  assumes read_within:
    "0 \<le> off \<Longrightarrow> 0 \<le> n \<Longrightarrow> off + n \<le> int (length content)
     \<Longrightarrow> rd off n = Inr (slice content (nat off) (nat (off + n)))"
begin

lemma read_length:
  assumes "0 \<le> off" "0 \<le> n" "off + n \<le> int (length content)" "rd off n = Inr bs"
  shows "int (length bs) = n"
  using read_within [OF assms(1-3)] assms by (auto simp: length_slice)

text \<open>A read is the concatenation of the reads of any split of its range.\<close>

lemma read_split:
  assumes "0 \<le> off" "0 \<le> m" "0 \<le> n" "off + m + n \<le> int (length content)"
  shows "rd off (m + n) = res_bind (rd off m) (\<lambda>xs. res_bind (rd (off + m) n) (\<lambda>ys. Inr (xs @ ys)))"
  using assms by (simp add: read_within slice_append_slice add.assoc)

text \<open>Overlapping reads agree byte for byte.\<close>

lemma read_byte:
  assumes "0 \<le> off" "0 \<le> n" "off + n \<le> int (length content)" "rd off n = Inr bs" "off \<le> p" "p < off + n"
  shows "bs ! nat (p - off) = content ! nat p"
proof -
  have bs: "bs = slice content (nat off) (nat (off + n))" using read_within [OF assms(1-3)] assms(4) by simp
  have "nat (p - off) < length bs" using assms by (simp add: bs length_slice)
  then show ?thesis using assms by (simp add: bs slice_nth nat_add_distrib [symmetric])
qed

text \<open>A window of an exact reader is an exact reader of the window's bytes.\<close>

lemma window:
  assumes "0 \<le> start" "start \<le> int (length content)"
  shows "exact_reader (\<lambda>off n. rd (start + off) n) (drop (nat start) content)"
proof
  fix off n :: int
  assume r: "0 \<le> off" "0 \<le> n" "off + n \<le> int (length (drop (nat start) content))"
  with assms have "start + off + n \<le> int (length content)" by simp
  with assms r have "rd (start + off) n = Inr (slice content (nat (start + off)) (nat (start + off + n)))"
    by (intro read_within) auto
  also have "slice content (nat (start + off)) (nat (start + off + n))
      = slice (drop (nat start) content) (nat off) (nat (off + n))"
    using assms r by (simp add: slice_def nat_add_distrib ac_simps)
  finally show "rd (start + off) n = Inr (slice (drop (nat start) content) (nat off) (nat (off + n)))" .
qed

end

subsection \<open>Fields of structures\<close>

abbreviation (input) has_flag :: "nat \<Rightarrow> nat \<Rightarrow> bool" where
  "has_flag v f \<equiv> v AND f \<noteq> 0"

text \<open>\<^verbatim>\<open>struct.unpack_from\<close> of one unsigned field; reading past the end raises \<^verbatim>\<open>struct.error\<close>.\<close>

definition unpack_le :: "nat \<Rightarrow> bytes \<Rightarrow> nat \<Rightarrow> lvm_exc + nat" where
  "unpack_le n data off = (if off + n \<le> length data then Inr (le_uint (slice data off (off + n))) else Inl StructError)"

definition unpack_be :: "nat \<Rightarrow> bytes \<Rightarrow> nat \<Rightarrow> lvm_exc + nat" where
  "unpack_be n data off = (if off + n \<le> length data then Inr (be_uint (slice data off (off + n))) else Inl StructError)"

text \<open>A field of a structure whose bytes are known to be there.\<close>

definition le_field :: "bytes \<Rightarrow> nat \<Rightarrow> nat \<Rightarrow> nat" where
  "le_field data off n = le_uint (slice data off (off + n))"

definition be_field :: "bytes \<Rightarrow> nat \<Rightarrow> nat \<Rightarrow> nat" where
  "be_field data off n = be_uint (slice data off (off + n))"

lemma le_field_at: "off = length pre \<Longrightarrow> n = length mid \<Longrightarrow> le_field (pre @ mid @ post) off n = le_uint mid"
  by (simp add: le_field_def slice_at)

lemma le_bytes_le_uint: "length xs = n \<Longrightarrow> le_bytes n (le_uint xs) = xs"
  using le_uint_bound [of xs] by (intro le_uint_inj) (auto simp: le_uint_le_bytes)

lemma le_field_bound: "le_field data off n < 256 ^ n"
proof -
  have "le_field data off n < 256 ^ length (slice data off (off + n))" unfolding le_field_def by (rule le_uint_bound)
  also have "\<dots> \<le> 256 ^ n" by (rule power_increasing) (simp_all add: length_slice)
  finally show ?thesis .
qed

lemma le_bytes_le_field: "off + n \<le> length data \<Longrightarrow> le_bytes n (le_field data off n) = slice data off (off + n)"
  unfolding le_field_def by (rule le_bytes_le_uint) (simp add: length_slice)

end
