(* ===== verification/Lvm_Binary.thy ===== *)
theory Lvm_Binary
  imports Lvm_Models
begin

section \<open>LVM2 on-disk binary structures\<close>

text \<open>
  \<^verbatim>\<open>disk_images/lvm/binary.py\<close>: LVM2's CRC-32 variant, the label header, the physical
  volume header with its two descriptor lists, and the metadata area header. Every
  function takes the bytes its caller read. Integers unpacked from bytes are \<open>nat\<close>;
  the checksum is computed on 32-bit words.
\<close>

definition SECTOR_SIZE :: nat where "SECTOR_SIZE = 512"

definition LABEL_SCAN_SECTORS :: nat where "LABEL_SCAN_SECTORS = 4"

definition MDA_HEADER_SIZE :: nat where "MDA_HEADER_SIZE = 512"

lemmas lvm_consts = SECTOR_SIZE_def LABEL_SCAN_SECTORS_def MDA_HEADER_SIZE_def

subsection \<open>The checksum\<close>

text \<open>
  The reflected CRC-32 of zlib, bit by bit: \<open>crc32_raw\<close> is the algorithm without the
  complement at either end, \<open>zlib_crc32\<close> is \<^verbatim>\<open>zlib.crc32(data, value)\<close>.
\<close>

definition crc32_bit :: "32 word \<Rightarrow> 32 word" where
  "crc32_bit s = (if bit s 0 then drop_bit 1 s XOR 0xEDB88320 else drop_bit 1 s)"

definition crc32_byte :: "32 word \<Rightarrow> byte \<Rightarrow> 32 word" where
  "crc32_byte s b = (crc32_bit ^^ 8) (s XOR ucast b)"

definition crc32_raw :: "bytes \<Rightarrow> 32 word \<Rightarrow> 32 word" where
  "crc32_raw data s = foldl crc32_byte s data"

definition zlib_crc32 :: "bytes \<Rightarrow> 32 word \<Rightarrow> 32 word" where
  "zlib_crc32 data v = crc32_raw data (v XOR 0xFFFFFFFF) XOR 0xFFFFFFFF"

definition LVM_CRC_SEED :: "32 word" where
  "LVM_CRC_SEED = 0xF597A6CF XOR 0xFFFFFFFF"

definition lvm_weak_crc32 :: "bytes \<Rightarrow> nat" where
  "lvm_weak_crc32 data = unat (zlib_crc32 data LVM_CRC_SEED XOR 0xFFFFFFFF)"

subsection \<open>The physical volume UUID\<close>

text \<open>\<^verbatim>\<open>raw.decode("ascii", errors="strict")\<close>: a byte above 127 raises \<open>UnicodeDecodeError\<close>.\<close>

definition decode_ascii :: "bytes \<Rightarrow> lvm_exc + string" where
  "decode_ascii bs = (if \<forall>b \<in> set bs. unat b < 128 then Inr (map (\<lambda>b. char_of (unat b)) bs)
     else Inl UnicodeDecodeError)"

definition format_lvm_uuid :: "bytes \<Rightarrow> lvm_exc + string" where
  "format_lvm_uuid raw = res_bind (decode_ascii raw) (\<lambda>txt.
     if length txt \<noteq> 32 then Inl InvalidLabelError
     else Inr (slice txt 0 6 @ ''-'' @ slice txt 6 10 @ ''-'' @ slice txt 10 14 @ ''-''
       @ slice txt 14 18 @ ''-'' @ slice txt 18 22 @ ''-'' @ slice txt 22 26 @ ''-''
       @ slice txt 26 32))"

subsection \<open>Result objects\<close>

record disk_location =
  dl_offset_bytes :: nat
  dl_size_bytes :: nat

record label_header =
  label_sector :: nat
  pv_header_offset :: nat

record physical_volume_header =
  pvh_uuid :: string
  pvh_device_size_bytes :: nat
  data_areas :: "disk_location list"
  metadata_areas :: "disk_location list"

record raw_location =
  rl_offset_bytes :: nat
  rl_size_bytes :: nat
  rl_checksum :: nat
  rl_ignored :: bool

record metadata_area_header =
  mda_start_bytes :: nat
  mda_size_bytes :: nat
  mda_locations :: "raw_location list"

subsection \<open>The label\<close>

text \<open>\<open>_LABEL_STRUCT\<close> is \<^verbatim>\<open><8sQII8s\<close>, 32 bytes. The recorded CRC is unpacked and not checked.\<close>

definition parse_label_header :: "bytes \<Rightarrow> nat \<Rightarrow> lvm_exc + label_header" where
  "parse_label_header sector_bytes sector_number =
    (if length sector_bytes < 32 then Inl InvalidLabelError
     else let signature = slice sector_bytes 0 8;
              recorded_sector = le_uint (slice sector_bytes 8 16);
              offset = le_uint (slice sector_bytes 20 24);
              label_type = slice sector_bytes 24 32
          in if signature \<noteq> bytes_of ''LABELONE'' then Inl InvalidLabelError
             else if label_type \<noteq> bytes_of ''LVM2 001'' then Inl InvalidLabelError
             else if recorded_sector \<noteq> sector_number then Inl InvalidLabelError
             else Inr \<lparr>label_sector = sector_number, pv_header_offset = offset\<rparr>)"

fun parse_label_loop :: "bytes \<Rightarrow> nat list \<Rightarrow> lvm_exc option \<Rightarrow> lvm_exc + label_header" where
  "parse_label_loop first_sectors [] last_error =
     Inl (case last_error of Some e \<Rightarrow> e | None \<Rightarrow> InvalidLabelError)"
| "parse_label_loop first_sectors (sector_number # rest) last_error =
     (let start = sector_number * SECTOR_SIZE;
          candidate = slice first_sectors start (start + SECTOR_SIZE)
      in if length candidate < SECTOR_SIZE
         then Inl (case last_error of Some e \<Rightarrow> e | None \<Rightarrow> InvalidLabelError)
         else case parse_label_header candidate sector_number of
             Inr label \<Rightarrow> Inr label
           | Inl e \<Rightarrow> (if e = InvalidLabelError then parse_label_loop first_sectors rest (Some e)
                       else Inl e))"

definition parse_label :: "bytes \<Rightarrow> lvm_exc + label_header" where
  "parse_label first_sectors = parse_label_loop first_sectors [0..<LABEL_SCAN_SECTORS] None"

subsection \<open>The physical volume header\<close>

text \<open>The descriptor list: 16-byte entries (\<^verbatim>\<open><QQ\<close>) up to one whose offset is 0.\<close>

function parse_disk_locations_loop ::
  "bytes \<Rightarrow> nat \<Rightarrow> disk_location list \<Rightarrow> lvm_exc + disk_location list \<times> nat" where
  "parse_disk_locations_loop data offset locations =
    (if offset + 16 \<le> length data then
       let entry_offset = le_uint (slice data offset (offset + 8));
           entry_size = le_uint (slice data (offset + 8) (offset + 16))
       in if entry_offset = 0 then Inr (locations, offset + 16)
          else parse_disk_locations_loop data (offset + 16)
                 (locations @ [\<lparr>dl_offset_bytes = entry_offset, dl_size_bytes = entry_size\<rparr>])
     else Inl InvalidLabelError)"
  by pat_completeness auto
termination
  by (relation "measure (\<lambda>(data, offset, locations). length data - offset)") auto

declare parse_disk_locations_loop.simps [simp del]

definition parse_disk_locations :: "bytes \<Rightarrow> lvm_exc + disk_location list \<times> nat" where
  "parse_disk_locations data = parse_disk_locations_loop data 0 []"

definition parse_pv_header :: "bytes \<Rightarrow> lvm_exc + physical_volume_header" where
  "parse_pv_header header_bytes =
    (let prefix_size = 32 + 8 in
     if length header_bytes < prefix_size + 16 then Inl InvalidLabelError
     else let raw_uuid = slice header_bytes 0 32;
              device_size = le_uint (slice header_bytes 32 prefix_size)
          in res_bind (format_lvm_uuid raw_uuid) (\<lambda>uuid.
             let remainder = drop prefix_size header_bytes in
             res_bind (parse_disk_locations remainder) (\<lambda>(areas, consumed).
             res_bind (parse_disk_locations (drop consumed remainder)) (\<lambda>(mdas, _).
             if mdas = [] then Inl MalformedMetadataTextError
             else Inr \<lparr>pvh_uuid = uuid, pvh_device_size_bytes = device_size,
                       data_areas = areas, metadata_areas = mdas\<rparr>))))"

subsection \<open>The metadata area header\<close>

definition MDA_MAGIC :: bytes where
  "MDA_MAGIC = bytes_of '' LVM2 x[5A%r0N*>''"

text \<open>\<open>_RAW_LOCN_STRUCT\<close> is \<^verbatim>\<open><QQII\<close>, 24 bytes; the loop stops at the end of the 512-byte
  header or at an entry whose offset is 0.\<close>

function parse_raw_locations :: "bytes \<Rightarrow> nat \<Rightarrow> raw_location list \<Rightarrow> raw_location list" where
  "parse_raw_locations mda_bytes offset locations =
    (if offset + 24 \<le> min (length mda_bytes) MDA_HEADER_SIZE then
       let entry_offset = le_uint (slice mda_bytes offset (offset + 8));
           entry_size = le_uint (slice mda_bytes (offset + 8) (offset + 16));
           entry_checksum = le_uint (slice mda_bytes (offset + 16) (offset + 20));
           entry_flags = le_uint (slice mda_bytes (offset + 20) (offset + 24))
       in if entry_offset = 0 then locations
          else parse_raw_locations mda_bytes (offset + 24)
                 (locations @ [\<lparr>rl_offset_bytes = entry_offset, rl_size_bytes = entry_size,
                    rl_checksum = entry_checksum, rl_ignored = (entry_flags AND 1 \<noteq> 0)\<rparr>])
     else locations)"
  by pat_completeness auto
termination
  by (relation "measure (\<lambda>(mda, offset, locations). length mda - offset)") auto

declare parse_raw_locations.simps [simp del]

text \<open>\<open>_MDA_HEADER_FIXED_STRUCT\<close> is \<^verbatim>\<open><I16sIQQ\<close>, 40 bytes.\<close>

definition parse_mda_header :: "bytes \<Rightarrow> lvm_exc + metadata_area_header" where
  "parse_mda_header mda_bytes =
    (if length mda_bytes < MDA_HEADER_SIZE then Inl MalformedMetadataTextError
     else let checksum = le_uint (slice mda_bytes 0 4);
              magic = slice mda_bytes 4 20;
              version = le_uint (slice mda_bytes 20 24);
              area_start = le_uint (slice mda_bytes 24 32);
              area_size = le_uint (slice mda_bytes 32 40)
          in if magic \<noteq> MDA_MAGIC then Inl UnsupportedMetadataVersionError
             else if version \<noteq> 1 then Inl UnsupportedMetadataVersionError
             else if checksum \<noteq> lvm_weak_crc32 (slice mda_bytes 4 MDA_HEADER_SIZE)
               then Inl MalformedMetadataTextError
             else let locations = parse_raw_locations mda_bytes 40 []
                  in if locations = [] then Inl MalformedMetadataTextError
                     else Inr \<lparr>mda_start_bytes = area_start, mda_size_bytes = area_size,
                               mda_locations = locations\<rparr>)"

fun select_location_loop :: "nat \<Rightarrow> raw_location list \<Rightarrow> lvm_exc + raw_location" where
  "select_location_loop area_size [] = Inl MalformedMetadataTextError"
| "select_location_loop area_size (loc # rest) =
    (if \<not> rl_ignored loc then
       if rl_offset_bytes loc + rl_size_bytes loc > area_size
       then Inl UnsupportedMetadataLayoutError
       else Inr loc
     else select_location_loop area_size rest)"

definition select_active_location :: "metadata_area_header \<Rightarrow> lvm_exc + raw_location" where
  "select_active_location mda = select_location_loop (mda_size_bytes mda) (mda_locations mda)"

definition verify_metadata_text_checksum :: "bytes \<Rightarrow> nat \<Rightarrow> lvm_exc + unit" where
  "verify_metadata_text_checksum text_bytes expected_checksum =
    (if lvm_weak_crc32 text_bytes \<noteq> expected_checksum then Inl MalformedMetadataTextError
     else Inr ())"

section \<open>Properties of the binary layer\<close>

subsection \<open>The checksum\<close>

text \<open>
  One bit step is injective: the polynomial's top bit records the bit that was shifted
  out. So are the byte step (in the state and in the byte) and the whole run (in the
  state), and two inputs that differ in one byte have different checksums.
\<close>

lemma weak_crc32_raw: "lvm_weak_crc32 data = unat (crc32_raw data 0xF597A6CF)"
  by (simp add: lvm_weak_crc32_def zlib_crc32_def LVM_CRC_SEED_def xor.assoc)

lemma crc32_bit_top: "bit (crc32_bit s) 31 = bit s 0"
  by (simp add: crc32_bit_def bit_simps) (use bit_imp_le_length in fastforce)

lemma crc32_bit_inj: "crc32_bit s = crc32_bit t \<Longrightarrow> s = t"
proof -
  assume eq: "crc32_bit s = crc32_bit t"
  then have b0: "bit s 0 = bit t 0" by (metis crc32_bit_top)
  from b0 eq have "drop_bit 1 s = drop_bit 1 t"
    by (auto simp: crc32_bit_def dest: xor_right_cancel split: if_splits)
  then have "bit s (Suc n) = bit t (Suc n)" for n
    by (metis bit_drop_bit_eq comp_apply plus_1_eq_Suc)
  with b0 have "bit s n = bit t n" for n by (cases n) auto
  then show "s = t" by (auto intro: bit_eqI)
qed

lemma crc32_bits_inj: "(crc32_bit ^^ n) s = (crc32_bit ^^ n) t \<Longrightarrow> s = t"
proof -
  have "inj crc32_bit" by (rule injI) (rule crc32_bit_inj)
  then have "inj (crc32_bit ^^ n)" by (rule inj_fn)
  then show "(crc32_bit ^^ n) s = (crc32_bit ^^ n) t \<Longrightarrow> s = t" by (rule injD)
qed

lemma crc32_byte_inj_state: "crc32_byte s b = crc32_byte t b \<Longrightarrow> s = t"
  unfolding crc32_byte_def by (drule crc32_bits_inj) (rule xor_right_cancel)

lemma crc32_byte_inj_byte: "crc32_byte s b = crc32_byte s c \<Longrightarrow> b = c"
proof -
  assume "crc32_byte s b = crc32_byte s c"
  then have "s XOR ucast b = s XOR ucast c"
    unfolding crc32_byte_def by (rule crc32_bits_inj)
  then have "(ucast b :: 32 word) = ucast c" by (metis xor_right_cancel xor.commute)
  then have "(ucast (ucast b :: 32 word) :: byte) = ucast (ucast c :: 32 word)" by simp
  then show "b = c" by (simp add: unsigned_ucast_eq take_bit_word_eq_self)
qed

lemma crc32_raw_inj_state: "crc32_raw data s = crc32_raw data t \<Longrightarrow> s = t"
  unfolding crc32_raw_def
  by (induction data arbitrary: s t) (auto dest: crc32_byte_inj_state)

lemma crc32_raw_append: "crc32_raw (xs @ ys) s = crc32_raw ys (crc32_raw xs s)"
  by (simp add: crc32_raw_def)

lemma crc32_raw_update:
  assumes "i < length data" and "b \<noteq> data ! i"
  shows "crc32_raw (data[i := b]) s \<noteq> crc32_raw data s"
proof
  assume eq: "crc32_raw (data[i := b]) s = crc32_raw data s"
  let ?s = "crc32_raw (take i data) s"
  have d: "data = take i data @ [data ! i] @ drop (Suc i) data"
    using assms(1) by (simp add: id_take_nth_drop)
  have u: "data[i := b] = take i data @ [b] @ drop (Suc i) data"
    using assms(1) by (simp add: upd_conv_take_nth_drop)
  from eq have "crc32_raw (drop (Suc i) data) (crc32_byte ?s b)
      = crc32_raw (drop (Suc i) data) (crc32_byte ?s (data ! i))"
    by (subst (asm) u, subst (asm) d) (simp add: crc32_raw_append, simp add: crc32_raw_def)
  then have "crc32_byte ?s b = crc32_byte ?s (data ! i)" by (rule crc32_raw_inj_state)
  then have "b = data ! i" by (rule crc32_byte_inj_byte)
  with assms(2) show False ..
qed

lemma weak_crc32_update:
  "i < length data \<Longrightarrow> b \<noteq> data ! i \<Longrightarrow> lvm_weak_crc32 (data[i := b]) \<noteq> lvm_weak_crc32 data"
  by (simp add: weak_crc32_raw crc32_raw_update word_unat_eq_iff [symmetric])

lemma weak_crc32_bound: "lvm_weak_crc32 data < 2 ^ 32"
  unfolding lvm_weak_crc32_def by (rule order_less_le_trans [OF unsigned_less]) simp

subsection \<open>The UUID\<close>

lemma format_lvm_uuid_ok:
  "length raw = 32 \<Longrightarrow> \<forall>b \<in> set raw. unat b < 128 \<Longrightarrow> \<exists>u. format_lvm_uuid raw = Inr u"
  by (simp add: format_lvm_uuid_def decode_ascii_def)

lemma format_lvm_uuid_length: "format_lvm_uuid raw = Inr u \<Longrightarrow> length u = 38"
  by (auto simp: format_lvm_uuid_def decode_ascii_def byte_simps res_simps split: if_splits)

subsection \<open>Encoders of the on-disk layout\<close>

text \<open>
  What LVM2 writes, as the specification the parsers are checked against.
\<close>

definition encode_disk_location :: "disk_location \<Rightarrow> bytes" where
  "encode_disk_location l = le_bytes 8 (dl_offset_bytes l) @ le_bytes 8 (dl_size_bytes l)"

definition encode_disk_locations :: "disk_location list \<Rightarrow> bytes" where
  "encode_disk_locations ls = concat (map encode_disk_location ls) @ replicate 16 0"

definition disk_location_ok :: "disk_location \<Rightarrow> bool" where
  "disk_location_ok l \<longleftrightarrow> 0 < dl_offset_bytes l \<and> dl_offset_bytes l < 2 ^ 64 \<and> dl_size_bytes l < 2 ^ 64"

lemma length_encode_disk_location [simp]: "length (encode_disk_location l) = 16"
  by (simp add: encode_disk_location_def)

lemma length_encode_disk_locations [simp]:
  "length (encode_disk_locations ls) = 16 * length ls + 16"
  by (induction ls) (auto simp: encode_disk_locations_def)

lemma disk_location_eta [simp]:
  "\<lparr>dl_offset_bytes = dl_offset_bytes l, dl_size_bytes = dl_size_bytes l\<rparr> = l"
  by (cases l) simp

lemma parse_disk_locations_loop_encode:
  assumes "\<forall>l \<in> set ls. disk_location_ok l"
  shows "parse_disk_locations_loop (pre @ encode_disk_locations ls @ rest) (length pre) acc
    = Inr (acc @ ls, length pre + 16 * length ls + 16)"
  using assms
proof (induction ls arbitrary: pre acc)
  case Nil
  have "slice (pre @ replicate 16 0 @ rest) (length pre) (length pre + 8) = replicate 8 (0::byte)"
    by (simp add: slice_def)
  then show ?case
    by (subst parse_disk_locations_loop.simps) (simp add: encode_disk_locations_def)
next
  case (Cons l ls)
  let ?data = "pre @ encode_disk_locations (l # ls) @ rest"
  have data: "?data = pre @ le_bytes 8 (dl_offset_bytes l) @ (le_bytes 8 (dl_size_bytes l)
      @ encode_disk_locations ls @ rest)"
    by (simp add: encode_disk_locations_def encode_disk_location_def)
  have off: "le_uint (slice ?data (length pre) (length pre + 8)) = dl_offset_bytes l"
    unfolding data using Cons.prems
    by (subst slice_at) (auto simp: disk_location_ok_def le_uint_le_bytes)
  have data2: "?data = (pre @ le_bytes 8 (dl_offset_bytes l)) @ le_bytes 8 (dl_size_bytes l)
      @ encode_disk_locations ls @ rest"
    by (simp add: data)
  have size: "le_uint (slice ?data (length pre + 8) (length pre + 16)) = dl_size_bytes l"
    unfolding data2 using Cons.prems
    by (subst slice_at) (auto simp: disk_location_ok_def le_uint_le_bytes)
  have data3: "?data = (pre @ encode_disk_location l) @ encode_disk_locations ls @ rest"
    by (simp add: encode_disk_locations_def)
  have "parse_disk_locations_loop ?data (length pre + 16) (acc @ [l])
      = Inr ((acc @ [l]) @ ls, length pre + 16 + 16 * length ls + 16)"
    using Cons.IH [of "pre @ encode_disk_location l" "acc @ [l]"] Cons.prems
    unfolding data3 by simp
  then show ?case
    using off size Cons.prems
    by (subst parse_disk_locations_loop.simps) (simp add: disk_location_ok_def)
qed

lemma parse_disk_locations_encode:
  "\<forall>l \<in> set ls. disk_location_ok l \<Longrightarrow>
   parse_disk_locations (encode_disk_locations ls @ rest) = Inr (ls, 16 * length ls + 16)"
  using parse_disk_locations_loop_encode [of ls "[]" rest "[]"]
  by (simp add: parse_disk_locations_def)

definition encode_pv_header :: "bytes \<Rightarrow> nat \<Rightarrow> disk_location list \<Rightarrow> disk_location list \<Rightarrow> bytes" where
  "encode_pv_header uuid dev_size das mdas =
     uuid @ le_bytes 8 dev_size @ encode_disk_locations das @ encode_disk_locations mdas"

lemma parse_pv_header_encode:
  assumes "length uuid = 32" and "format_lvm_uuid uuid = Inr u" and "dev_size < 2 ^ 64"
    and "\<forall>l \<in> set das. disk_location_ok l" and "\<forall>l \<in> set mdas. disk_location_ok l" and "mdas \<noteq> []"
  shows "parse_pv_header (encode_pv_header uuid dev_size das mdas @ rest)
    = Inr \<lparr>pvh_uuid = u, pvh_device_size_bytes = dev_size, data_areas = das, metadata_areas = mdas\<rparr>"
proof -
  let ?h = "encode_pv_header uuid dev_size das mdas @ rest"
  have h: "?h = uuid @ le_bytes 8 dev_size @ encode_disk_locations das @ encode_disk_locations mdas @ rest"
    by (simp add: encode_pv_header_def)
  have u: "slice ?h 0 32 = uuid"
    using slice_at [of 0 "[]" 32 uuid] assms(1) by (simp add: h)
  have d: "le_uint (slice ?h 32 40) = dev_size"
    unfolding h using assms(1,3) by (subst slice_at) (auto simp: le_uint_le_bytes)
  have r: "drop 40 ?h = encode_disk_locations das @ encode_disk_locations mdas @ rest"
    using assms(1) by (simp add: h)
  have p1: "parse_disk_locations (drop 40 ?h) = Inr (das, 16 * length das + 16)"
    unfolding r using assms(4) by (rule parse_disk_locations_encode)
  have "drop (16 * length das + 16) (drop 40 ?h) = encode_disk_locations mdas @ rest"
    unfolding r by simp
  then have p2: "parse_disk_locations (drop (16 * length das + 16) (drop 40 ?h))
      = Inr (mdas, 16 * length mdas + 16)"
    using assms(5) by (simp add: parse_disk_locations_encode del: drop_drop)
  have len: "\<not> length ?h < 40 + 16" using assms(1) by (simp add: h)
  show ?thesis
    unfolding parse_pv_header_def Let_def
    using len u d p1 p2 assms(2,6) by (simp del: drop_drop)
qed

definition encode_raw_location :: "raw_location \<Rightarrow> bytes" where
  "encode_raw_location l = le_bytes 8 (rl_offset_bytes l) @ le_bytes 8 (rl_size_bytes l)
     @ le_bytes 4 (rl_checksum l) @ le_bytes 4 (if rl_ignored l then 1 else 0)"

definition raw_location_ok :: "raw_location \<Rightarrow> bool" where
  "raw_location_ok l \<longleftrightarrow> 0 < rl_offset_bytes l \<and> rl_offset_bytes l < 2 ^ 64
     \<and> rl_size_bytes l < 2 ^ 64 \<and> rl_checksum l < 2 ^ 32"

lemma length_encode_raw_location [simp]: "length (encode_raw_location l) = 24"
  by (simp add: encode_raw_location_def)

lemma length_encode_raw_locations [simp]: "length (concat (map encode_raw_location ls)) = 24 * length ls"
  by (induction ls) auto

lemma raw_location_eta [simp]:
  "\<lparr>rl_offset_bytes = rl_offset_bytes l, rl_size_bytes = rl_size_bytes l,
    rl_checksum = rl_checksum l, rl_ignored = rl_ignored l\<rparr> = l"
  by (cases l) simp

lemma slice_encode_raw_location:
  assumes "raw_location_ok l" and "n = length pre"
  shows "le_uint (slice (pre @ encode_raw_location l @ post) n (n + 8)) = rl_offset_bytes l"
    and "le_uint (slice (pre @ encode_raw_location l @ post) (n + 8) (n + 16)) = rl_size_bytes l"
    and "le_uint (slice (pre @ encode_raw_location l @ post) (n + 16) (n + 20)) = rl_checksum l"
    and "le_uint (slice (pre @ encode_raw_location l @ post) (n + 20) (n + 24))
      = (if rl_ignored l then 1 else 0)"
  using assms
  by (auto simp: encode_raw_location_def raw_location_ok_def slice_def le_uint_le_bytes)

text \<open>The locations and the zero padding of a header, read from \<open>length pre\<close> on.\<close>

lemma parse_raw_locations_encode:
  assumes "\<forall>l \<in> set ls. raw_location_ok l"
    and "length pre + 24 * length ls \<le> MDA_HEADER_SIZE"
    and "length pre + 24 * length ls + length pad = MDA_HEADER_SIZE"
    and "\<forall>b \<in> set pad. b = 0"
  shows "parse_raw_locations (pre @ concat (map encode_raw_location ls) @ pad) (length pre) acc = acc @ ls"
  using assms
proof (induction ls arbitrary: pre acc)
  case Nil
  have "slice pad 0 8 = replicate 8 0" if "8 \<le> length pad"
    using that Nil.prems(4) by (auto simp: slice_def min_def list_eq_iff_nth_eq)
  then have "length pre + 24 \<le> MDA_HEADER_SIZE \<Longrightarrow> le_uint (slice (pre @ pad) (length pre) (length pre + 8)) = 0"
    using Nil.prems(3) by (simp add: slice_append_right)
  then show ?case
    using Nil.prems(3) by (subst parse_raw_locations.simps) (simp add: Let_def)
next
  case (Cons l ls)
  let ?post = "concat (map encode_raw_location ls) @ pad"
  have ok: "raw_location_ok l" using Cons.prems(1) by simp
  note dec = slice_encode_raw_location [OF ok refl, of pre ?post]
  have "parse_raw_locations ((pre @ encode_raw_location l) @ ?post) (length (pre @ encode_raw_location l)) (acc @ [l])
      = (acc @ [l]) @ ls"
    using Cons.prems by (intro Cons.IH) auto
  then have rec: "parse_raw_locations (pre @ encode_raw_location l @ ?post) (length pre + 24) (acc @ [l])
      = acc @ l # ls" by simp
  have nz: "rl_offset_bytes l \<noteq> 0" using ok by (simp add: raw_location_ok_def)
  have lim: "length pre + 24 \<le> min (length (pre @ encode_raw_location l @ ?post)) MDA_HEADER_SIZE"
    using Cons.prems(2) by simp
  have flag: "((if rl_ignored l then 1 else 0 :: nat) AND 1 \<noteq> 0) = rl_ignored l" by simp
  show ?case
    using rec nz lim dec flag
    by (subst parse_raw_locations.simps) (simp add: Let_def del: length_append)
qed

text \<open>A metadata area header as LVM2 writes it.\<close>

definition mda_body :: "nat \<Rightarrow> nat \<Rightarrow> raw_location list \<Rightarrow> bytes" where
  "mda_body start sz ls = MDA_MAGIC @ le_bytes 4 1 @ le_bytes 8 start @ le_bytes 8 sz
     @ concat (map encode_raw_location ls) @ replicate (472 - 24 * length ls) 0"

definition encode_mda_header :: "nat \<Rightarrow> nat \<Rightarrow> raw_location list \<Rightarrow> bytes" where
  "encode_mda_header start sz ls = le_bytes 4 (lvm_weak_crc32 (mda_body start sz ls)) @ mda_body start sz ls"

lemma length_MDA_MAGIC [simp]: "length MDA_MAGIC = 16"
  by (simp add: MDA_MAGIC_def)

lemma parse_mda_header_encode:
  assumes "start < 2 ^ 64" and "sz < 2 ^ 64" and "ls \<noteq> []" and "length ls \<le> 19"
    and "\<forall>l \<in> set ls. raw_location_ok l"
  shows "parse_mda_header (encode_mda_header start sz ls)
    = Inr \<lparr>mda_start_bytes = start, mda_size_bytes = sz, mda_locations = ls\<rparr>"
proof -
  let ?body = "mda_body start sz ls" and ?h = "encode_mda_header start sz ls"
  let ?crc = "lvm_weak_crc32 ?body"
  let ?fixed = "le_bytes 4 ?crc @ MDA_MAGIC @ le_bytes 4 1 @ le_bytes 8 start @ le_bytes 8 sz"
  let ?pad = "replicate (472 - 24 * length ls) (0::byte)"
  have len: "length ?h = 512" using assms(4)
    by (simp add: encode_mda_header_def mda_body_def)
  have c: "le_uint (slice ?h 0 4) = ?crc"
    using weak_crc32_bound [of ?body] by (simp add: encode_mda_header_def slice_def le_uint_le_bytes)
  have m: "slice ?h 4 20 = MDA_MAGIC" and v: "le_uint (slice ?h 20 24) = 1"
    and s: "le_uint (slice ?h 24 32) = start" and z: "le_uint (slice ?h 32 40) = sz"
    using assms(1,2)
    by (simp_all add: encode_mda_header_def mda_body_def slice_def le_uint_le_bytes)
  have b: "slice ?h 4 MDA_HEADER_SIZE = ?body"
    using len by (simp add: slice_def encode_mda_header_def MDA_HEADER_SIZE_def)
  have "parse_raw_locations (?fixed @ concat (map encode_raw_location ls) @ ?pad) (length ?fixed) [] = [] @ ls"
    using assms(4,5) by (intro parse_raw_locations_encode) (auto simp: MDA_HEADER_SIZE_def)
  moreover have "?fixed @ concat (map encode_raw_location ls) @ ?pad = ?h"
    by (simp add: encode_mda_header_def mda_body_def)
  ultimately have l: "parse_raw_locations ?h 40 [] = ls" by simp
  show ?thesis
    unfolding parse_mda_header_def Let_def
    using len c m v s z b l assms(3) by (simp add: MDA_HEADER_SIZE_def)
qed

subsection \<open>Integrity of the metadata area\<close>

lemma parse_mda_header_checksum:
  "parse_mda_header h = Inr m \<Longrightarrow> le_uint (slice h 0 4) = lvm_weak_crc32 (slice h 4 MDA_HEADER_SIZE)"
  by (auto simp: parse_mda_header_def Let_def split: if_splits)

lemma parse_mda_header_length: "parse_mda_header h = Inr m \<Longrightarrow> MDA_HEADER_SIZE \<le> length h"
  by (auto simp: parse_mda_header_def split: if_splits)

lemma parse_mda_header_corrupt_byte:
  assumes ok: "parse_mda_header h = Inr m" and i: "i < MDA_HEADER_SIZE" and b: "b \<noteq> h ! i"
  shows "\<exists>e. parse_mda_header (h[i := b]) = Inl e"
proof (rule ccontr)
  assume "\<not> ?thesis"
  then obtain m' where ok': "parse_mda_header (h[i := b]) = Inr m'"
    by (cases "parse_mda_header (h[i := b])") auto
  note sums = parse_mda_header_checksum [OF ok] parse_mda_header_checksum [OF ok']
  have len: "MDA_HEADER_SIZE \<le> length h" using ok by (rule parse_mda_header_length)
  show False
  proof (cases "i < 4")
    case True
    then have "le_uint (slice (h[i := b]) 0 4) = le_uint (slice h 0 4)"
      using sums by (simp add: slice_update_outside)
    then have "slice (h[i := b]) 0 4 = slice h 0 4"
      by (rule le_uint_inj [rotated]) (simp add: byte_simps)
    then have "slice (h[i := b]) 0 4 ! i = slice h 0 4 ! i" by simp
    with True b len show False by (simp add: slice_nth byte_simps MDA_HEADER_SIZE_def)
  next
    case False
    let ?r = "slice h 4 MDA_HEADER_SIZE"
    have "lvm_weak_crc32 (?r[i - 4 := b]) = lvm_weak_crc32 ?r"
      using sums False by (simp add: slice_update_outside slice_update_inside)
    moreover have "i - 4 < length ?r" "b \<noteq> ?r ! (i - 4)"
      using False i b len by (auto simp: slice_nth byte_simps)
    ultimately show False by (metis weak_crc32_update)
  qed
qed

lemma verify_checksum_corrupt_byte:
  assumes "verify_metadata_text_checksum t c = Inr ()" and "i < length t" and "b \<noteq> t ! i"
  shows "verify_metadata_text_checksum (t[i := b]) c = Inl MalformedMetadataTextError"
  using assms weak_crc32_update [of i t b]
  by (auto simp: verify_metadata_text_checksum_def split: if_splits)

subsection \<open>The label scan\<close>

abbreviation sector_of :: "bytes \<Rightarrow> nat \<Rightarrow> bytes" where
  "sector_of fs k \<equiv> slice fs (k * SECTOR_SIZE) (k * SECTOR_SIZE + SECTOR_SIZE)"

lemma parse_label_header_error: "parse_label_header s n = Inl e \<Longrightarrow> e = InvalidLabelError"
  by (auto simp: parse_label_header_def Let_def split: if_splits)

lemma parse_label_header_sector: "parse_label_header s n = Inr l \<Longrightarrow> label_sector l = n"
  by (auto simp: parse_label_header_def Let_def split: if_splits)

lemma parse_label_loop_iff:
  "parse_label_loop fs [m..<n] err = Inr l \<longleftrightarrow>
   (\<exists>k. m \<le> k \<and> k < n \<and> Suc k * SECTOR_SIZE \<le> length fs \<and> parse_label_header (sector_of fs k) k = Inr l
      \<and> (\<forall>j. m \<le> j \<and> j < k \<longrightarrow> parse_label_header (sector_of fs j) j = Inl InvalidLabelError))"
  (is "_ = (\<exists>k. ?P m k)")
proof (induction "n - m" arbitrary: m err)
  case 0
  then show ?case by simp
next
  case (Suc d)
  then have mn: "m < n" and upt: "[m..<n] = m # [Suc m..<n]" by (auto simp: upt_conv_Cons)
  have short: "length (sector_of fs m) < SECTOR_SIZE \<longleftrightarrow> length fs < Suc m * SECTOR_SIZE"
    by (auto simp: byte_simps SECTOR_SIZE_def)
  have IH: "parse_label_loop fs [Suc m..<n] err' = Inr l \<longleftrightarrow> (\<exists>k. ?P (Suc m) k)" for err'
    using Suc by auto
  show ?case
  proof (cases "length fs < Suc m * SECTOR_SIZE")
    case True
    then have "\<not> Suc k * SECTOR_SIZE \<le> length fs" if "m \<le> k" for k
      using that by (simp add: SECTOR_SIZE_def)
    with True short upt show ?thesis by (auto simp: Let_def)
  next
    case False
    show ?thesis
    proof (cases "parse_label_header (sector_of fs m) m")
      case (Inr l')
      with False short upt mn show ?thesis
        by (auto simp: Let_def) (metis Inl_Inr_False le_neq_implies_less order_refl sum.inject(2))
    next
      case (Inl e)
      then have e: "parse_label_header (sector_of fs m) m = Inl InvalidLabelError"
        by (auto dest: parse_label_header_error)
      have "(\<exists>k. ?P m k) \<longleftrightarrow> (\<exists>k. ?P (Suc m) k)"
        using e by (metis Inl_Inr_False Suc_leD Suc_leI le_neq_implies_less)
      with e False short upt IH show ?thesis by (simp add: Let_def)
    qed
  qed
qed

lemma select_active_location_Inr:
  "select_active_location mda = Inr loc \<longleftrightarrow>
   (\<exists>pre post. mda_locations mda = pre @ loc # post \<and> (\<forall>l \<in> set pre. rl_ignored l) \<and> \<not> rl_ignored loc
      \<and> rl_offset_bytes loc + rl_size_bytes loc \<le> mda_size_bytes mda)"
proof -
  have "select_location_loop n ls = Inr loc \<Longrightarrow>
     \<exists>pre post. ls = pre @ loc # post \<and> (\<forall>l \<in> set pre. rl_ignored l) \<and> \<not> rl_ignored loc
        \<and> rl_offset_bytes loc + rl_size_bytes loc \<le> n" for n ls
  proof (induction ls)
    case (Cons l ls)
    show ?case
    proof (cases "rl_ignored l")
      case True
      with Cons obtain pre post where "ls = pre @ loc # post" "\<forall>l \<in> set pre. rl_ignored l"
        "\<not> rl_ignored loc" "rl_offset_bytes loc + rl_size_bytes loc \<le> n" by auto
      with True show ?thesis by (intro exI [of _ "l # pre"] exI [of _ post]) simp
    next
      case False
      with Cons.prems have "l = loc" "rl_offset_bytes loc + rl_size_bytes loc \<le> n"
        by (auto split: if_splits)
      with False show ?thesis by (intro exI [of _ "[]"] exI [of _ ls]) simp
    qed
  qed simp
  moreover have "select_location_loop n (pre @ loc # post) = Inr loc"
    if "\<forall>l \<in> set pre. rl_ignored l" "\<not> rl_ignored loc" "rl_offset_bytes loc + rl_size_bytes loc \<le> n"
    for n pre post using that by (induction pre) auto
  ultimately show ?thesis by (auto simp: select_active_location_def)
qed

end
