(* ===== verification/Lvm_Text.thy ===== *)
theory Lvm_Text
  imports Lvm_Models
begin

section \<open>LVM2 metadata text\<close>

text \<open>
  \<^verbatim>\<open>disk_images/lvm/text_format.py\<close>: the tokenizer and the recursive-descent parser of
  LVM2's configuration grammar. The tokenizer's position is carried together with the
  text that is left (\<open>self._text[self._pos:]\<close>); a section is an insertion-ordered
  dictionary.
\<close>

subsection \<open>Tokens\<close>

datatype token_val =
    TIdent string
  | TInt int
  | TString string
  | TPunct char

record token =
  tok_val :: token_val
  tok_pos :: nat

definition IDENT_CHARS :: string where
  "IDENT_CHARS = ''abcdefghijklmnopqrstuvwxyzABCDEFGHIJKLMNOPQRSTUVWXYZ0123456789_.-''"

definition ident_char :: "char \<Rightarrow> bool" where
  "ident_char c \<longleftrightarrow> c \<in> set IDENT_CHARS"

definition newline :: char where
  "newline = CHR 0x0A"

definition quote :: char where
  "quote = CHR 0x22"

definition backslash :: char where
  "backslash = CHR 0x5C"

subsection \<open>The tokenizer\<close>

function skip_insignificant :: "nat \<Rightarrow> string \<Rightarrow> nat \<times> string" where
  "skip_insignificant pos [] = (pos, [])"
| "skip_insignificant pos (ch # rest) =
    (if py_isspace ch then skip_insignificant (pos + 1) rest
     else if ch = CHR ''#'' then
       let comment = takeWhile (\<lambda>c. c \<noteq> newline) (ch # rest)
       in if length comment = length (ch # rest) then (pos + length comment, [])
          else skip_insignificant (pos + length comment + 1) (drop (length comment + 1) (ch # rest))
     else (pos, ch # rest))"
  by pat_completeness auto
termination
  by (relation "measure (\<lambda>(pos, rest). length rest)") auto

fun read_string :: "nat \<Rightarrow> string \<Rightarrow> string \<Rightarrow> lvm_exc + string \<times> nat \<times> string" where
  "read_string pos [] chars = Inl MalformedMetadataTextError"
| "read_string pos (ch # rest) chars =
    (if ch = backslash then
       (case rest of
          [] \<Rightarrow> Inl MalformedMetadataTextError
        | c # rest' \<Rightarrow> read_string (pos + 2) rest' (chars @ [c]))
     else if ch = quote then Inr (chars, pos + 1, rest)
     else read_string (pos + 1) rest (chars @ [ch]))"

text \<open>
  \<open>int(raw)\<close> of an optional minus sign and digits: a digit that is not a decimal digit is a
  \<open>ValueError\<close>, and so are more than 4300 digits (CPython's conversion limit).
\<close>

definition py_int_of_digits :: "bool \<Rightarrow> string \<Rightarrow> lvm_exc + int" where
  "py_int_of_digits neg ds =
    (if \<exists>c \<in> set ds. \<not> ascii_digit c then Inl ValueError
     else if 4300 < length ds then Inl ValueError
     else Inr (if neg then - digits_val ds else digits_val ds))"

definition read_integer :: "nat \<Rightarrow> string \<Rightarrow> lvm_exc + int \<times> nat \<times> string" where
  "read_integer pos inp =
    (let neg = (case inp of ch # _ \<Rightarrow> ch = CHR ''-'' | [] \<Rightarrow> False);
         body = (if neg then tl inp else inp);
         ds = takeWhile py_isdigit body
     in if ds = [] then Inl MalformedMetadataTextError
        else res_bind (py_int_of_digits neg ds) (\<lambda>n.
          Inr (n, pos + (if neg then 1 else 0) + length ds, drop (length ds) body)))"

definition read_ident :: "nat \<Rightarrow> string \<Rightarrow> string \<times> nat \<times> string" where
  "read_ident pos inp =
    (let raw = takeWhile ident_char inp in (raw, pos + length raw, drop (length raw) inp))"

fun next_token :: "nat \<Rightarrow> string \<Rightarrow> lvm_exc + token \<times> nat \<times> string" where
  "next_token start [] = Inl MalformedMetadataTextError"
| "next_token start (ch # rest) =
    (if ch \<in> set ''{}[]=,'' then
       Inr (\<lparr>tok_val = TPunct ch, tok_pos = start\<rparr>, start + 1, rest)
     else if ch = quote then
       res_bind (read_string (start + 1) rest []) (\<lambda>(s, pos, rest').
         Inr (\<lparr>tok_val = TString s, tok_pos = start\<rparr>, pos, rest'))
     else if py_isdigit ch \<or> ch = CHR ''-'' \<and> (case rest of d # _ \<Rightarrow> py_isdigit d | [] \<Rightarrow> False) then
       res_bind (read_integer start (ch # rest)) (\<lambda>(n, pos, rest').
         Inr (\<lparr>tok_val = TInt n, tok_pos = start\<rparr>, pos, rest'))
     else if ident_char ch then
       (let (raw, pos, rest') = read_ident start (ch # rest)
        in Inr (\<lparr>tok_val = TIdent raw, tok_pos = start\<rparr>, pos, rest'))
     else Inl MalformedMetadataTextError)"

lemma skip_insignificant_shorter: "skip_insignificant pos inp = (pos', inp') \<Longrightarrow> length inp' \<le> length inp"
proof (induction pos inp arbitrary: pos' inp' rule: skip_insignificant.induct)
  case (2 pos ch rest)
  show ?case
  proof (cases "py_isspace ch")
    case True
    with "2.IH"(1) "2.prems" show ?thesis by fastforce
  next
    case sp: False
    show ?thesis
    proof (cases "ch = CHR ''#'' \<and> length (takeWhile (\<lambda>c. c \<noteq> newline) (ch # rest)) \<noteq> length (ch # rest)")
      case True
      let ?n = "length (takeWhile (\<lambda>c. c \<noteq> newline) (ch # rest))"
      have "length inp' \<le> length (drop (?n + 1) (ch # rest))"
        using "2.IH"(2) [OF sp _ refl] True "2.prems" sp by (auto simp: Let_def simp del: takeWhile.simps)
      then show ?thesis by simp
    next
      case False
      with "2.prems" sp show ?thesis by (auto simp: Let_def simp del: takeWhile.simps split: if_splits)
    qed
  qed
qed simp

lemma read_string_shorter: "read_string pos inp cs = Inr (s, pos', inp') \<Longrightarrow> length inp' < length inp"
  by (induction pos inp cs rule: read_string.induct) (fastforce split: if_splits list.splits)+

lemma next_token_shorter: "next_token pos inp = Inr (t, pos', inp') \<Longrightarrow> length inp' < length inp"
proof (induction pos inp rule: next_token.induct)
  case (2 start ch rest)
  have i: "length inp' < length (ch # rest)" if "read_integer start (ch # rest) = Inr (n, pos', inp')" for n
    using that by (auto simp: read_integer_def Let_def res_simps split: if_splits)
  show ?case
    using "2" i
    by (auto simp: res_simps read_ident_def Let_def split: if_splits prod.splits
        dest!: read_string_shorter)
qed simp

function tokens :: "nat \<Rightarrow> string \<Rightarrow> lvm_exc + token list" where
  "tokens pos inp =
    (case skip_insignificant pos inp of
       (pos', []) \<Rightarrow> Inr []
     | (pos', ch # rest) \<Rightarrow>
         res_bind (next_token pos' (ch # rest)) (\<lambda>(t, pos'', inp'').
           res_bind (tokens pos'' inp'') (\<lambda>ts. Inr (t # ts))))"
  by pat_completeness auto
termination
  by (relation "measure (\<lambda>(pos, inp). length inp)")
    (auto simp del: next_token.simps dest!: next_token_shorter skip_insignificant_shorter [OF sym])

declare tokens.simps [simp del]

subsection \<open>The parser\<close>

datatype array_item = AInt int | AStr string

datatype config_value =
    CInt int
  | CStr string
  | CArray "array_item list"
  | CSection "(string \<times> config_value) list"

type_synonym config_section = "(string \<times> config_value) list"

fun expect_punct :: "char \<Rightarrow> token list \<Rightarrow> lvm_exc + token list" where
  "expect_punct c [] = Inl MalformedMetadataTextError"
| "expect_punct c (t # ts) =
    (if tok_val t = TPunct c then Inr ts else Inl MalformedMetadataTextError)"

text \<open>The loop of \<open>_parse_array\<close>: an element, then a comma or the closing bracket.\<close>

fun array_item_of :: "token_val \<Rightarrow> array_item option" where
  "array_item_of (TInt n) = Some (AInt n)"
| "array_item_of (TString s) = Some (AStr s)"
| "array_item_of _ = None"

fun parse_array_loop :: "token list \<Rightarrow> array_item list \<Rightarrow> lvm_exc + array_item list \<times> token list" where
  "parse_array_loop [] items = Inl MalformedMetadataTextError"
| "parse_array_loop (t # ts) items =
    (case array_item_of (tok_val t) of
       None \<Rightarrow> Inl MalformedMetadataTextError
     | Some item \<Rightarrow>
         (case ts of
            [] \<Rightarrow> Inl MalformedMetadataTextError
          | sep # ts' \<Rightarrow>
              if tok_val sep = TPunct (CHR '']'') then Inr (items @ [item], ts')
              else if tok_val sep \<noteq> TPunct (CHR '','') then Inl MalformedMetadataTextError
              else parse_array_loop ts' (items @ [item])))"

fun parse_array :: "token list \<Rightarrow> lvm_exc + array_item list \<times> token list" where
  "parse_array [] = parse_array_loop [] []"
| "parse_array (t # ts) =
    (if tok_val t = TPunct (CHR '']'') then Inr ([], ts) else parse_array_loop (t # ts) [])"

fun parse_value :: "token list \<Rightarrow> lvm_exc + config_value \<times> token list" where
  "parse_value [] = Inl MalformedMetadataTextError"
| "parse_value (t # ts) =
    (case tok_val t of
       TInt n \<Rightarrow> Inr (CInt n, ts)
     | TString s \<Rightarrow> Inr (CStr s, ts)
     | TPunct c \<Rightarrow>
         if c = CHR ''['' then res_bind (parse_array ts) (\<lambda>(items, ts'). Inr (CArray items, ts'))
         else Inl MalformedMetadataTextError
     | TIdent _ \<Rightarrow> Inl MalformedMetadataTextError)"

lemma parse_array_loop_shorter:
  "parse_array_loop ts items = Inr (v, ts') \<Longrightarrow> length ts' < length ts"
  by (induction ts items rule: parse_array_loop.induct)
    (fastforce split: if_splits option.splits list.splits)+

lemma parse_array_shorter: "parse_array ts = Inr (v, ts') \<Longrightarrow> length ts' < length ts"
  by (cases ts) (auto simp del: parse_array_loop.simps split: if_splits dest!: parse_array_loop_shorter)

lemma parse_value_shorter: "parse_value ts = Inr (v, ts') \<Longrightarrow> length ts' < length ts"
  by (cases ts) (auto simp: res_simps split: token_val.splits if_splits dest!: parse_array_shorter)

lemma expect_punct_shorter: "expect_punct c ts = Inr ts' \<Longrightarrow> length ts = Suc (length ts')"
  by (cases ts) (auto split: if_splits)

text \<open>\<open>_parse_statements\<close>: the loop is the recursion on the tokens left, with the section
  built so far; a nested body is a call of its own.\<close>

function parse_statements :: "token list \<Rightarrow> config_section \<Rightarrow> lvm_exc + config_section \<times> token list" where
  "parse_statements [] sec = Inr (sec, [])"
| "parse_statements (t # ts) sec =
    (if tok_val t = TPunct (CHR ''}'') then Inr (sec, t # ts)
     else case tok_val t of
       TIdent name \<Rightarrow>
         (case ts of
            [] \<Rightarrow> Inl MalformedMetadataTextError
          | n # ts' \<Rightarrow>
              if tok_val n = TPunct (CHR ''='') then
                res_bind (parse_value ts') (\<lambda>(v, ts'').
                  parse_statements ts'' (dict_set name v sec))
              else if tok_val n = TPunct (CHR ''{'') then
                res_bind (parse_statements ts' []) (\<lambda>(nested, body_end).
                  res_bind (expect_punct (CHR ''}'') body_end) (\<lambda>after.
                    parse_statements after (dict_set name (CSection nested) sec)))
              else Inl MalformedMetadataTextError)
     | _ \<Rightarrow> Inl MalformedMetadataTextError)"
  by pat_completeness auto

lemma parse_statements_shorter_dom:
  "parse_statements_dom (ts, sec) \<Longrightarrow> parse_statements ts sec = Inr (s, ts') \<Longrightarrow> length ts' \<le> length ts"
proof (induction ts sec arbitrary: s ts' rule: parse_statements.pinduct)
  case (2 t ts sec)
  note eq = "2.prems" [unfolded parse_statements.psimps(2) [OF "2.hyps"]]
  show ?case
  proof (cases "tok_val t = TPunct (CHR ''}'')")
    case True
    with eq show ?thesis by simp
  next
    case nb: False
    with eq obtain name n rest where t: "tok_val t = TIdent name" "ts = n # rest"
      by (auto split: token_val.splits list.splits)
    show ?thesis
    proof (cases "tok_val n = TPunct (CHR ''='')")
      case True
      with eq nb t obtain v r where "parse_value rest = Inr (v, r)"
        "parse_statements r (dict_set name v sec) = Inr (s, ts')"
        by (auto simp: res_simps)
      with "2.IH"(1) [OF nb t True] t show ?thesis by (fastforce dest: parse_value_shorter)
    next
      case ne: False
      with eq nb t have br: "tok_val n = TPunct (CHR ''{'')" by (auto split: if_splits)
      with eq nb t ne obtain nested be a where r: "parse_statements rest [] = Inr (nested, be)"
        "expect_punct (CHR ''}'') be = Inr a"
        "parse_statements a (dict_set name (CSection nested) sec) = Inr (s, ts')"
        by (auto simp: res_simps)
      have "length be \<le> length rest" using "2.IH"(2) [OF nb t ne br] r(1) by auto
      moreover have "length ts' \<le> length a" using "2.IH"(3) [OF nb t ne br] r by auto
      ultimately show ?thesis using expect_punct_shorter [OF r(2)] t by simp
    qed
  qed
qed (simp add: parse_statements.psimps)

termination parse_statements
proof (relation "measure (\<lambda>(ts, sec). length ts)", goal_cases)
  case 4
  then show ?case
    by (auto dest!: parse_statements_shorter_dom expect_punct_shorter)
qed (auto dest!: parse_value_shorter)

declare parse_statements.simps [simp del]

definition parse_document :: "token list \<Rightarrow> lvm_exc + config_section" where
  "parse_document ts = res_bind (parse_statements ts []) (\<lambda>(section, rest).
     if rest \<noteq> [] then Inl MalformedMetadataTextError else Inr section)"

definition parse_config_text :: "string \<Rightarrow> lvm_exc + config_section" where
  "parse_config_text inp = res_bind (tokens 0 inp) parse_document"

end
