(* ===== verification/Lvm_Parser.thy ===== *)
theory Lvm_Parser
  imports Lvm_Binary Lvm_Text
begin

section \<open>From LVM2 metadata to the object model\<close>

text \<open>
  \<^verbatim>\<open>disk_images/lvm/parser.py\<close>: the validated objects built from a parsed document, and
  the whole path from the label to the volume group. Each exception is raised at the
  same point of the evaluation order as in the source.
\<close>

subsection \<open>Required fields\<close>

definition require_int :: "config_section \<Rightarrow> string \<Rightarrow> lvm_exc + int" where
  "require_int sec key = (case dict_get sec key of
     None \<Rightarrow> Inl MissingRequiredFieldError
   | Some v \<Rightarrow> (case v of CInt n \<Rightarrow> Inr n | _ \<Rightarrow> Inl MissingRequiredFieldError))"

definition require_str :: "config_section \<Rightarrow> string \<Rightarrow> lvm_exc + string" where
  "require_str sec key = (case dict_get sec key of
     None \<Rightarrow> Inl MissingRequiredFieldError
   | Some v \<Rightarrow> (case v of CStr s \<Rightarrow> Inr s | _ \<Rightarrow> Inl MissingRequiredFieldError))"

definition require_section :: "config_section \<Rightarrow> string \<Rightarrow> lvm_exc + config_section" where
  "require_section sec key = (case dict_get sec key of
     None \<Rightarrow> Inl MissingRequiredFieldError
   | Some v \<Rightarrow> (case v of CSection s \<Rightarrow> Inr s | _ \<Rightarrow> Inl MissingRequiredFieldError))"

lemmas require_defs = require_int_def require_str_def require_section_def

fun section_entry :: "string \<times> config_value \<Rightarrow> (string \<times> config_section) option" where
  "section_entry (name, CSection body) = Some (name, body)"
| "section_entry _ = None"

definition find_volume_group_section :: "config_section \<Rightarrow> lvm_exc + string \<times> config_section" where
  "find_volume_group_section document =
    (case List.map_filter section_entry document of
       [] \<Rightarrow> Inl MissingRequiredFieldError
     | [candidate] \<Rightarrow> Inr candidate
     | _ \<Rightarrow> Inl MalformedMetadataTextError)"

subsection \<open>Physical volumes\<close>

fun build_physical_volume :: "int \<Rightarrow> string \<times> config_value \<Rightarrow> lvm_exc + physical_volume" where
  "build_physical_volume extent_bytes (name, CSection body) =
     res_bind (require_str body ''id'') (\<lambda>ident.
     res_bind (require_int body ''dev_size'') (\<lambda>dev_size.
     res_bind (require_int body ''pe_start'') (\<lambda>pe_start.
     res_bind (require_int body ''pe_count'') (\<lambda>pe_count.
     if dev_size \<le> 0 \<or> pe_count \<le> 0 \<or> pe_start < 0 then Inl InconsistentMetadataError
     else Inr \<lparr>pv_name = name, pv_id = ident, device_size_bytes = dev_size * int SECTOR_SIZE,
               pv_extent_size_bytes = extent_bytes, pe_start_bytes = pe_start * int SECTOR_SIZE,
               pv_extent_count = pe_count\<rparr>))))"
| "build_physical_volume extent_bytes _ = Inl MalformedMetadataTextError"

definition build_physical_volumes :: "config_section \<Rightarrow> int \<Rightarrow> lvm_exc + physical_volume list" where
  "build_physical_volumes vg_body extent_bytes =
     res_bind (require_section vg_body ''physical_volumes'') (\<lambda>pv_section.
     res_bind (res_map (build_physical_volume extent_bytes) pv_section) (\<lambda>pvs.
     if pvs = [] then Inl MissingRequiredFieldError else Inr pvs))"

subsection \<open>Logical volumes\<close>

definition build_linear_segment :: "config_section \<Rightarrow> string set \<Rightarrow> lvm_exc + linear_segment" where
  "build_linear_segment body known_pv_names =
     res_bind (require_int body ''start_extent'') (\<lambda>start.
     res_bind (require_int body ''extent_count'') (\<lambda>count.
     res_bind (require_str body ''type'') (\<lambda>segment_type.
     res_bind (require_int body ''stripe_count'') (\<lambda>stripe_count.
     if segment_type \<noteq> ''striped'' then Inl UnsupportedSegmentTypeError
     else if stripe_count \<noteq> 1 then Inl UnsupportedSegmentTypeError
     else case dict_get body ''stripes'' of
       None \<Rightarrow> Inl MissingRequiredFieldError
     | Some (CArray [AStr name, AInt start_pe]) \<Rightarrow>
         if name \<notin> known_pv_names then Inl InconsistentMetadataError
         else if count \<le> 0 then Inl InconsistentMetadataError
         else if start < 0 \<or> start_pe < 0 then Inl InconsistentMetadataError
         else Inr \<lparr>start_extent = start, extent_count = count, physical_volume_name = name,
                   start_physical_extent = start_pe\<rparr>
     | Some _ \<Rightarrow> Inl InconsistentMetadataError))))"

definition segment_key :: "int \<Rightarrow> string" where
  "segment_key index = ''segment'' @ nat_digits (nat index)"

definition build_segment :: "config_section \<Rightarrow> string set \<Rightarrow> int \<Rightarrow> lvm_exc + linear_segment" where
  "build_segment lv_body known_pv_names index =
    (case dict_get lv_body (segment_key index) of
       Some (CSection body) \<Rightarrow> build_linear_segment body known_pv_names
     | _ \<Rightarrow> Inl MissingRequiredFieldError)"

definition build_logical_volume ::
  "string \<Rightarrow> config_section \<Rightarrow> string set \<Rightarrow> lvm_exc + logical_volume" where
  "build_logical_volume name lv_body known_pv_names =
     res_bind (require_str lv_body ''id'') (\<lambda>ident.
     res_bind (require_int lv_body ''segment_count'') (\<lambda>segment_count.
     if segment_count \<le> 0 then Inl MissingRequiredFieldError
     else res_bind (res_map (build_segment lv_body known_pv_names) [1..segment_count]) (\<lambda>segments.
       let sorted_segments = sort_key start_extent segments in
       if contiguous_from 0 sorted_segments
       then Inr \<lparr>lv_name = name, lv_id = ident, lv_segments = sorted_segments\<rparr>
       else Inl InconsistentMetadataError)))"

fun build_logical_volume_entry ::
  "string set \<Rightarrow> string \<times> config_value \<Rightarrow> lvm_exc + logical_volume" where
  "build_logical_volume_entry known_pv_names (name, CSection body) =
     build_logical_volume name body known_pv_names"
| "build_logical_volume_entry known_pv_names _ = Inl MalformedMetadataTextError"

definition build_logical_volumes :: "config_section \<Rightarrow> string set \<Rightarrow> lvm_exc + logical_volume list" where
  "build_logical_volumes vg_body known_pv_names =
     res_bind (require_section vg_body ''logical_volumes'') (\<lambda>lv_section.
     res_bind (res_map (build_logical_volume_entry known_pv_names) lv_section) (\<lambda>lvs.
     if lvs = [] then Inl MissingRequiredFieldError else Inr lvs))"

subsection \<open>The volume group\<close>

definition build_volume_group :: "config_section \<Rightarrow> metadata_area \<Rightarrow> lvm_exc + volume_group" where
  "build_volume_group document area =
     res_bind (find_volume_group_section document) (\<lambda>(name, body).
     res_bind (require_str body ''id'') (\<lambda>ident.
     res_bind (require_int body ''extent_size'') (\<lambda>extent_size_sectors.
     if extent_size_sectors \<le> 0 then Inl InconsistentMetadataError
     else let extent_bytes = extent_size_sectors * int SECTOR_SIZE in
       res_bind (build_physical_volumes body extent_bytes) (\<lambda>pvs.
       res_bind (build_logical_volumes body (pv_name ` set pvs)) (\<lambda>lvs.
       Inr \<lparr>vg_name = name, vg_id = ident, vg_extent_size_bytes = extent_bytes,
            physical_volumes = pvs, logical_volumes = lvs, vg_metadata_area = area\<rparr>)))))"

text \<open>
  \<^verbatim>\<open>metadata_text_bytes.decode("utf-8", errors="strict").rstrip("\x00")\<close>.
\<close>

definition decode_metadata_text :: "bytes \<Rightarrow> lvm_exc + string" where
  "decode_metadata_text bs =
    (case utf8_decode (map unat bs) of
       None \<Rightarrow> Inl UnicodeDecodeError
     | Some cps \<Rightarrow>
         if \<exists>n \<in> set cps. 255 < n then Inl NonLatin1Text
         else Inr (py_rstrip (\<lambda>c. c = CHR 0x00) (map char_of cps)))"

definition PV_HEADER_READ_SIZE :: nat where "PV_HEADER_READ_SIZE = 1024"

definition parse_physical_volume_metadata :: "byte_reader \<Rightarrow> lvm_exc + physical_volume_metadata" where
  "parse_physical_volume_metadata read =
     res_bind (read 0 (int (SECTOR_SIZE * LABEL_SCAN_SECTORS))) (\<lambda>first_sectors.
     res_bind (parse_label first_sectors) (\<lambda>label.
     let pv_header_absolute_offset = label_sector label * SECTOR_SIZE + pv_header_offset label in
     res_bind (read (int pv_header_absolute_offset) (int PV_HEADER_READ_SIZE)) (\<lambda>pv_header_bytes.
     res_bind (parse_pv_header pv_header_bytes) (\<lambda>pv_header.
     let descriptor = hd (metadata_areas pv_header) in
     res_bind (read (int (dl_offset_bytes descriptor)) (int MDA_HEADER_SIZE)) (\<lambda>mda_header_bytes.
     res_bind (parse_mda_header mda_header_bytes) (\<lambda>mda_header.
     if mda_start_bytes mda_header \<noteq> dl_offset_bytes descriptor then Inl InconsistentMetadataError
     else if mda_size_bytes mda_header \<noteq> dl_size_bytes descriptor then Inl InconsistentMetadataError
     else
     res_bind (select_active_location mda_header) (\<lambda>location.
     let text_offset = mda_start_bytes mda_header + rl_offset_bytes location in
     res_bind (read (int text_offset) (int (rl_size_bytes location))) (\<lambda>text_bytes.
     res_bind (verify_metadata_text_checksum text_bytes (rl_checksum location)) (\<lambda>_.
     res_bind (decode_metadata_text text_bytes) (\<lambda>metadata_text.
     res_bind (parse_config_text metadata_text) (\<lambda>document.
     let area = \<lparr>header_offset_bytes = dl_offset_bytes descriptor,
                 area_size_bytes = mda_size_bytes mda_header,
                 metadata_text_offset_bytes = text_offset,
                 metadata_text_size_bytes = rl_size_bytes location\<rparr> in
     res_bind (build_volume_group document area) (\<lambda>vg.
     case find (\<lambda>pv. pv_id pv = pvh_uuid pv_header) (physical_volumes vg) of
       None \<Rightarrow> Inl InconsistentMetadataError
     | Some pv \<Rightarrow> Inr \<lparr>pvm_physical_volume = pv, pvm_volume_group = vg\<rparr>))))))))))))"

section \<open>Properties of the parser\<close>

subsection \<open>Well-formed volume groups\<close>

text \<open>
  What the object model promises (\<^verbatim>\<open>models.py\<close>): positive extents, a contiguous extent map
  from extent 0, and every segment on a declared physical volume.
\<close>

definition segment_wf :: "string set \<Rightarrow> linear_segment \<Rightarrow> bool" where
  "segment_wf names s \<longleftrightarrow> 0 \<le> start_extent s \<and> 0 < extent_count s \<and> 0 \<le> start_physical_extent s
     \<and> physical_volume_name s \<in> names"

definition lv_wf :: "string set \<Rightarrow> logical_volume \<Rightarrow> bool" where
  "lv_wf names lv \<longleftrightarrow> lv_segments lv \<noteq> [] \<and> contiguous_from 0 (lv_segments lv)
     \<and> (\<forall>s \<in> set (lv_segments lv). segment_wf names s)"

definition pv_wf :: "int \<Rightarrow> physical_volume \<Rightarrow> bool" where
  "pv_wf extent_bytes pv \<longleftrightarrow> 0 < device_size_bytes pv \<and> pv_extent_size_bytes pv = extent_bytes
     \<and> 0 \<le> pe_start_bytes pv \<and> 0 < pv_extent_count pv"

definition vg_wf :: "volume_group \<Rightarrow> bool" where
  "vg_wf vg \<longleftrightarrow> 0 < vg_extent_size_bytes vg \<and> vg_extent_size_bytes vg mod 512 = 0
     \<and> physical_volumes vg \<noteq> [] \<and> logical_volumes vg \<noteq> []
     \<and> (\<forall>pv \<in> set (physical_volumes vg). pv_wf (vg_extent_size_bytes vg) pv)
     \<and> (\<forall>lv \<in> set (logical_volumes vg). lv_wf (pv_name ` set (physical_volumes vg)) lv)"

lemma build_physical_volume_wf: "build_physical_volume e nv = Inr pv \<Longrightarrow> pv_wf e pv"
  by (cases "(e, nv)" rule: build_physical_volume.cases)
    (auto simp: pv_wf_def res_simps SECTOR_SIZE_def split: if_splits)

lemma build_linear_segment_wf: "build_linear_segment body names = Inr s \<Longrightarrow> segment_wf names s"
  unfolding build_linear_segment_def segment_wf_def
  by (auto simp: res_simps not_le not_less split: if_splits option.splits config_value.splits
      list.splits array_item.splits)

lemma build_segment_wf: "build_segment body names i = Inr s \<Longrightarrow> segment_wf names s"
  by (auto simp: build_segment_def split: option.splits config_value.splits
      dest: build_linear_segment_wf)

lemma build_logical_volume_wf:
  assumes "build_logical_volume name body names = Inr lv"
  shows "lv_wf names lv"
proof -
  from assms obtain n segs where n: "0 < n" "res_map (build_segment body names) [1..n] = Inr segs"
    and c: "contiguous_from 0 (sort_key start_extent segs)" "lv_segments lv = sort_key start_extent segs"
    by (auto simp: build_logical_volume_def res_simps Let_def not_le split: if_splits)
  have "\<forall>s \<in> set segs. segment_wf names s"
    using n(2) by (auto elim: res_map_set dest: build_segment_wf)
  moreover have "length (sort_key start_extent segs) \<noteq> 0"
    using res_map_length [OF n(2)] n(1) by simp
  ultimately show ?thesis using c by (auto simp: lv_wf_def simp del: length_sort)
qed

lemma build_volume_group_vg_wf:
  assumes "build_volume_group doc area = Inr vg"
  shows "vg_wf vg"
proof -
  from assms obtain name body n pvs lvs where n: "0 < n"
    and pvs: "build_physical_volumes body (n * 512) = Inr pvs"
    and lvs: "build_logical_volumes body (pv_name ` set pvs) = Inr lvs"
    and vg: "vg_extent_size_bytes vg = n * 512" "physical_volumes vg = pvs" "logical_volumes vg = lvs"
    by (auto simp: build_volume_group_def res_simps Let_def SECTOR_SIZE_def split: if_splits)
  have "pvs \<noteq> []" "\<forall>pv \<in> set pvs. pv_wf (n * 512) pv"
    using pvs by (auto simp: build_physical_volumes_def res_simps split: if_splits
        elim!: res_map_set dest: build_physical_volume_wf)
  moreover have entry: "build_logical_volume_entry names nv = Inr lv \<Longrightarrow> lv_wf names lv" for names nv lv
    by (cases "(names, nv)" rule: build_logical_volume_entry.cases) (auto dest: build_logical_volume_wf)
  moreover have "lvs \<noteq> []" "\<forall>lv \<in> set lvs. lv_wf (pv_name ` set pvs) lv"
    using lvs by (auto simp: build_logical_volumes_def res_simps split: if_splits
        elim!: res_map_set dest: entry)
  ultimately show ?thesis using vg n by (auto simp: vg_wf_def)
qed

subsection \<open>Which exceptions can be raised\<close>

named_theorems lvm_errors \<open>exception classes of the parser's functions\<close>

lemma format_lvm_uuid_error [lvm_errors]:
  "format_lvm_uuid raw = Inl e \<Longrightarrow> is_LVMMetadataError e \<or> e = UnicodeDecodeError"
  by (auto simp: format_lvm_uuid_def decode_ascii_def res_simps split: if_splits)

lemma parse_label_error [lvm_errors]: "parse_label fs = Inl e \<Longrightarrow> is_LVMMetadataError e"
proof -
  have "parse_label_loop fs ns err = Inl e \<Longrightarrow> err = None \<or> err = Some InvalidLabelError \<Longrightarrow> is_LVMMetadataError e" for ns err
    by (induction ns arbitrary: err)
      (auto simp: Let_def split: if_splits sum.splits option.splits dest: parse_label_header_error)
  then show "parse_label fs = Inl e \<Longrightarrow> is_LVMMetadataError e" by (simp add: parse_label_def)
qed

lemma parse_disk_locations_error [lvm_errors]: "parse_disk_locations d = Inl e \<Longrightarrow> is_LVMMetadataError e"
proof -
  have "parse_disk_locations_loop d n ls = Inl e \<Longrightarrow> is_LVMMetadataError e" for n ls
    by (induction d n ls rule: parse_disk_locations_loop.induct)
      (subst (asm) (2) parse_disk_locations_loop.simps, auto simp: Let_def split: if_splits)
  then show "parse_disk_locations d = Inl e \<Longrightarrow> is_LVMMetadataError e" by (simp add: parse_disk_locations_def)
qed

lemma parse_pv_header_error [lvm_errors]:
  "parse_pv_header h = Inl e \<Longrightarrow> is_LVMMetadataError e \<or> e = UnicodeDecodeError"
  by (auto simp: parse_pv_header_def Let_def res_simps split: if_splits dest!: lvm_errors)

lemma parse_mda_header_error [lvm_errors]: "parse_mda_header h = Inl e \<Longrightarrow> is_LVMMetadataError e"
  by (auto simp: parse_mda_header_def Let_def split: if_splits)

lemma select_active_location_error [lvm_errors]: "select_active_location m = Inl e \<Longrightarrow> is_LVMMetadataError e"
proof -
  have "select_location_loop n ls = Inl e \<Longrightarrow> is_LVMMetadataError e" for n ls
    by (induction ls) (auto split: if_splits)
  then show "select_active_location m = Inl e \<Longrightarrow> is_LVMMetadataError e"
    by (simp add: select_active_location_def)
qed

lemma verify_checksum_error [lvm_errors]: "verify_metadata_text_checksum t c = Inl e \<Longrightarrow> is_LVMMetadataError e"
  by (auto simp: verify_metadata_text_checksum_def split: if_splits)

lemma decode_metadata_text_error [lvm_errors]:
  "decode_metadata_text bs = Inl e \<Longrightarrow> e \<in> {UnicodeDecodeError, NonLatin1Text}"
  by (auto simp: decode_metadata_text_def split: option.splits if_splits)

lemma next_token_error: "next_token p inp = Inl e \<Longrightarrow> is_LVMMetadataError e \<or> e = ValueError"
proof (cases "(p, inp)" rule: next_token.cases)
  case (2 start ch rest)
  have s: "read_string q s cs = Inl e \<Longrightarrow> is_LVMMetadataError e" for q s cs
    by (induction q s cs rule: read_string.induct) (auto split: if_splits list.splits)
  have i: "read_integer q s = Inl e \<Longrightarrow> is_LVMMetadataError e \<or> e = ValueError" for q s
    by (auto simp: read_integer_def py_int_of_digits_def Let_def res_simps split: if_splits)
  assume "next_token p inp = Inl e"
  with 2 show ?thesis by (auto simp: res_simps split: if_splits prod.splits dest!: s i)
qed auto

lemma tokens_error: "tokens p inp = Inl e \<Longrightarrow> is_LVMMetadataError e \<or> e = ValueError"
proof (induction p inp rule: tokens.induct)
  case (1 p inp)
  obtain q r where qr: "skip_insignificant p inp = (q, r)" by force
  show ?case
  proof (cases r)
    case Nil
    with "1.prems" qr show ?thesis by (simp add: tokens.simps [of p])
  next
    case (Cons ch rest)
    with "1.prems" qr have "next_token q (ch # rest) = Inl e
        \<or> (\<exists>t u v. next_token q (ch # rest) = Inr (t, u, v) \<and> tokens u v = Inl e)"
      by (auto simp: tokens.simps [of p] res_simps simp del: next_token.simps)
    with "1.IH" [OF qr [symmetric] Cons] show ?thesis
      by (auto simp del: next_token.simps dest: next_token_error)
  qed
qed

lemma parse_value_error: "parse_value ts = Inl e \<Longrightarrow> is_LVMMetadataError e"
proof (cases ts)
  case (Cons t us)
  have l: "parse_array_loop vs is = Inl e \<Longrightarrow> is_LVMMetadataError e" for vs "is"
    by (induction vs "is" rule: parse_array_loop.induct) (auto split: option.splits list.splits if_splits)
  have "parse_array vs = Inl e \<Longrightarrow> is_LVMMetadataError e" for vs
    by (cases vs) (auto simp del: parse_array_loop.simps split: if_splits dest: l)
  moreover assume "parse_value ts = Inl e"
  ultimately show ?thesis using Cons
    by (auto simp: res_simps split: token_val.splits if_splits)
qed auto

lemma parse_statements_error: "parse_statements ts sec = Inl e \<Longrightarrow> is_LVMMetadataError e"
proof (induction ts sec rule: parse_statements.induct)
  case (2 t ts sec)
  have x: "expect_punct c us = Inl e \<Longrightarrow> is_LVMMetadataError e" for c us
    by (cases us) (auto split: if_splits)
  show ?case
  proof (cases "\<exists>name n rest. tok_val t = TIdent name \<and> ts = n # rest")
    case False
    with "2.prems" show ?thesis
      by (auto simp: parse_statements.simps split: if_splits token_val.splits list.splits)
  next
    case True
    then obtain name n rest where t: "tok_val t = TIdent name" "ts = n # rest" by auto
    note IH = "2.IH" [OF _ t]
    from "2.prems" t IH show ?thesis
      by (auto simp: parse_statements.simps(2) res_simps split: if_splits dest: parse_value_error x)
  qed
qed (simp add: parse_statements.simps)

lemma parse_config_text_error [lvm_errors]:
  "parse_config_text inp = Inl e \<Longrightarrow> is_LVMMetadataError e \<or> e = ValueError"
  by (auto simp: parse_config_text_def parse_document_def res_simps split: if_splits
      dest: tokens_error parse_statements_error)

lemma require_error: "require_int s k = Inl e \<Longrightarrow> is_LVMMetadataError e"
    "require_str s k = Inl e \<Longrightarrow> is_LVMMetadataError e"
    "require_section s k = Inl e \<Longrightarrow> is_LVMMetadataError e"
  by (auto simp: require_defs split: option.splits config_value.splits)

lemma build_linear_segment_error: "build_linear_segment b names = Inl e \<Longrightarrow> is_LVMMetadataError e"
  by (auto simp: build_linear_segment_def res_simps dest: require_error
      split: if_splits option.splits config_value.splits list.splits array_item.splits)

lemma build_logical_volume_error: "build_logical_volume n b names = Inl e \<Longrightarrow> is_LVMMetadataError e"
  by (auto simp: build_logical_volume_def build_segment_def res_simps Let_def
      split: if_splits option.splits config_value.splits
      dest!: require_error build_linear_segment_error res_map_Inl)

lemma build_volume_group_error [lvm_errors]: "build_volume_group d a = Inl e \<Longrightarrow> is_LVMMetadataError e"
proof -
  have f: "find_volume_group_section d = Inl e \<Longrightarrow> is_LVMMetadataError e" for d
    by (auto simp: find_volume_group_section_def split: list.splits)
  have p: "build_physical_volume x nv = Inl e \<Longrightarrow> is_LVMMetadataError e" for x nv
    by (cases "(x, nv)" rule: build_physical_volume.cases)
      (auto simp: res_simps split: if_splits dest: require_error)
  have l: "build_logical_volume_entry names nv = Inl e \<Longrightarrow> is_LVMMetadataError e" for names nv
    by (cases "(names, nv)" rule: build_logical_volume_entry.cases) (auto dest: build_logical_volume_error)
  show "build_volume_group d a = Inl e \<Longrightarrow> is_LVMMetadataError e"
    by (auto simp: build_volume_group_def build_physical_volumes_def build_logical_volumes_def
        res_simps Let_def split: if_splits dest!: f p l require_error res_map_Inl)
qed

lemma parse_physical_volume_metadata_error:
  assumes "parse_physical_volume_metadata rd = Inl e"
  shows "is_LVMMetadataError e \<or> e \<in> {UnicodeDecodeError, ValueError, NonLatin1Text} \<or> (\<exists>off n. rd off n = Inl e)"
  using assms
  by (auto simp: parse_physical_volume_metadata_def res_simps Let_def
      split: if_splits option.splits dest: lvm_errors)

end
