(* ===== verification/Lvm_Reader.thy ===== *)
theory Lvm_Reader
  imports Byte_Source Lvm_Parser
begin

section \<open>The logical volume reader\<close>

text \<open>
  \<^verbatim>\<open>disk_images/lvm/reader.py\<close>: one logical volume as a contiguous read-only byte stream
  over a caller-supplied physical reader, and its adapter in \<^verbatim>\<open>img_info.py\<close>. The loop of
  \<^verbatim>\<open>read\<close> is a partial function: on a hand-made volume with empty or negative extents it
  need not end, and \<open>None\<close> stands for not returning.
\<close>

subsection \<open>Bisection and indexing\<close>

text \<open>The loop of the standard library's \<^verbatim>\<open>bisect.bisect_right\<close>.\<close>

function bisect_right_loop :: "int list \<Rightarrow> int \<Rightarrow> nat \<Rightarrow> nat \<Rightarrow> nat" where
  "bisect_right_loop a x lo hi =
    (if lo < hi then
       let mid = (lo + hi) div 2 in
       if x < a ! mid then bisect_right_loop a x lo mid else bisect_right_loop a x (mid + 1) hi
     else lo)"
  by pat_completeness auto

termination bisect_right_loop
  by (relation "measure (\<lambda>(a, x, lo, hi). hi - lo)") auto

declare bisect_right_loop.simps [simp del]

definition bisect_right :: "int list \<Rightarrow> int \<Rightarrow> nat" where
  "bisect_right a x = bisect_right_loop a x 0 (length a)"

text \<open>Python's \<open>xs[i]\<close>, negative indices counting from the end; \<open>None\<close> is \<open>IndexError\<close>.\<close>

definition py_index :: "'a list \<Rightarrow> int \<Rightarrow> 'a option" where
  "py_index xs i =
    (let j = (if i < 0 then i + int (length xs) else i) in
     if 0 \<le> j \<and> j < int (length xs) then Some (xs ! nat j) else None)"

subsection \<open>Construction\<close>

record lv_reader =
  r_logical_volume :: logical_volume
  r_extent_size_bytes :: int
  r_read_physical :: byte_reader
  r_physical_volumes_by_name :: "(string \<times> physical_volume) list"
  r_segments :: "linear_segment list"
  r_segment_start_bytes :: "int list"
  r_size_bytes :: int

definition pvs_by_name :: "physical_volume list \<Rightarrow> (string \<times> physical_volume) list" where
  "pvs_by_name pvs = fold (\<lambda>(k, v). dict_set k v) (map (\<lambda>pv. (pv_name pv, pv)) pvs) []"

fun index_segments :: "(string \<times> physical_volume) list \<Rightarrow> int \<Rightarrow> linear_segment list \<Rightarrow> int \<Rightarrow> int list
    \<Rightarrow> lvm_exc + int list \<times> int" where
  "index_segments pvs ext [] expected_next starts = Inr (starts, expected_next)"
| "index_segments pvs ext (s # ss) expected_next starts =
    (if start_extent s \<noteq> expected_next then Inl ExtentMapGapError
     else if dict_get pvs (physical_volume_name s) = None then Inl UnresolvedPhysicalVolumeError
     else index_segments pvs ext ss (expected_next + extent_count s) (starts @ [expected_next * ext]))"

definition LogicalVolumeReader :: "logical_volume \<Rightarrow> volume_group \<Rightarrow> byte_reader \<Rightarrow> lvm_exc + lv_reader" where
  "LogicalVolumeReader lv vg read_physical =
    (let ext = vg_extent_size_bytes vg; pvs = pvs_by_name (physical_volumes vg);
         segments = sort_key start_extent (lv_segments lv) in
     res_bind (index_segments pvs ext segments 0 []) (\<lambda>(starts, next_extent).
     Inr \<lparr>r_logical_volume = lv, r_extent_size_bytes = ext, r_read_physical = read_physical,
          r_physical_volumes_by_name = pvs, r_segments = segments,
          r_segment_start_bytes = starts, r_size_bytes = next_extent * ext\<rparr>))"

subsection \<open>Reading\<close>

definition segment_read :: "lv_reader \<Rightarrow> int \<Rightarrow> int \<Rightarrow> lvm_exc + bytes \<times> int" where
  "segment_read r position end_pos =
    (let segment_index = int (bisect_right (r_segment_start_bytes r) position) - 1 in
     case (py_index (r_segments r) segment_index, py_index (r_segment_start_bytes r) segment_index) of
       (Some segment, Some segment_start) \<Rightarrow>
         (let segment_size = extent_count segment * r_extent_size_bytes r;
              segment_end = segment_start + segment_size;
              chunk_end = min end_pos segment_end;
              chunk_size = chunk_end - position;
              offset_within_segment = position - segment_start in
          case dict_get (r_physical_volumes_by_name r) (physical_volume_name segment) of
            None \<Rightarrow> Inl KeyError
          | Some pv \<Rightarrow>
              let physical_offset = pe_start_bytes pv
                    + start_physical_extent segment * r_extent_size_bytes r + offset_within_segment in
              res_bind (r_read_physical r physical_offset chunk_size) (\<lambda>chunk.
              if int (length chunk) \<noteq> chunk_size then Inl UnderlyingReadError
              else Inr (chunk, chunk_end)))
     | _ \<Rightarrow> Inl IndexError)"

partial_function (option) read_loop :: "lv_reader \<Rightarrow> int \<Rightarrow> int \<Rightarrow> bytes \<Rightarrow> (lvm_exc + bytes) option" where
  "read_loop r position end_pos acc =
    (if position < end_pos then
       (case segment_read r position end_pos of
          Inl e \<Rightarrow> Some (Inl e)
        | Inr (chunk, chunk_end) \<Rightarrow> read_loop r chunk_end end_pos (acc @ chunk))
     else Some (Inr acc))"

declare read_loop.simps [code]

definition lv_read :: "lv_reader \<Rightarrow> int \<Rightarrow> int \<Rightarrow> (lvm_exc + bytes) option" where
  "lv_read r off n =
    (if off < 0 then Some (Inl InvalidReadRequestError)
     else if n < 0 then Some (Inl InvalidReadRequestError)
     else if off + n > r_size_bytes r then Some (Inl InvalidReadRequestError)
     else if n = 0 then Some (Inr [])
     else read_loop r off (off + n) [])"

section \<open>Properties of the reader\<close>

lemma bisect_right_loop_bounds:
  assumes "sorted a" "lo \<le> hi" "hi \<le> length a"
    and "\<forall>i < lo. a ! i \<le> x" "\<forall>i. hi \<le> i \<longrightarrow> i < length a \<longrightarrow> x < a ! i"
  shows "bisect_right_loop a x lo hi \<le> length a
    \<and> (\<forall>i < bisect_right_loop a x lo hi. a ! i \<le> x)
    \<and> (\<forall>i. bisect_right_loop a x lo hi \<le> i \<longrightarrow> i < length a \<longrightarrow> x < a ! i)"
  using assms
proof (induction a x lo hi rule: bisect_right_loop.induct)
  case (1 a x lo hi)
  show ?case
  proof (cases "lo < hi")
    case False
    then have "bisect_right_loop a x lo hi = lo" by (subst bisect_right_loop.simps) simp
    with "1.prems" False show ?thesis by auto
  next
    case True
    define mid where "mid = (lo + hi) div 2"
    with True have mid: "lo \<le> mid" "mid < hi" by auto
    show ?thesis
    proof (cases "x < a ! mid")
      case left: True
      have "\<forall>i. mid \<le> i \<longrightarrow> i < length a \<longrightarrow> x < a ! i"
        using left sorted_nth_mono [OF "1.prems"(1), of mid] by fastforce
      moreover have "bisect_right_loop a x lo hi = bisect_right_loop a x lo mid"
        using left True by (subst bisect_right_loop.simps) (simp add: mid_def Let_def)
      moreover have "mid \<le> length a" using "1.prems"(3) mid(2) by linarith
      ultimately show ?thesis
        using "1.IH"(1) [OF True mid_def left "1.prems"(1) mid(1) _ "1.prems"(4)] by presburger
    next
      case right: False
      have "\<forall>i < mid + 1. a ! i \<le> x"
      proof (intro allI impI)
        fix i assume "i < mid + 1"
        then have "a ! i \<le> a ! mid" using "1.prems"(1,3) mid by (intro sorted_nth_mono) auto
        with right show "a ! i \<le> x" by simp
      qed
      moreover have "bisect_right_loop a x lo hi = bisect_right_loop a x (mid + 1) hi"
        using right True by (subst bisect_right_loop.simps) (simp add: mid_def Let_def)
      moreover have "mid + 1 \<le> hi" using mid(2) by simp
      ultimately show ?thesis
        using "1.IH"(2) [OF True mid_def right "1.prems"(1) _ "1.prems"(3) _ "1.prems"(5)] by presburger
    qed
  qed
qed

text \<open>On a sorted table the bisection is the number of leading entries not above the key.\<close>

lemma bisect_right_bounds:
  assumes "sorted a"
  shows "bisect_right a x \<le> length a" "i < bisect_right a x \<Longrightarrow> a ! i \<le> x"
    "bisect_right a x \<le> i \<Longrightarrow> i < length a \<Longrightarrow> x < a ! i"
  using bisect_right_loop_bounds [of a 0 "length a" x] assms by (auto simp: bisect_right_def)

lemma bisect_right_takeWhile:
  assumes "sorted a"
  shows "bisect_right a x = length (takeWhile (\<lambda>y. y \<le> x) a)"
proof (rule antisym)
  show "length (takeWhile (\<lambda>y. y \<le> x) a) \<le> bisect_right a x"
  proof (rule ccontr)
    assume "\<not> ?thesis"
    then have lt: "bisect_right a x < length (takeWhile (\<lambda>y. y \<le> x) a)" by simp
    then have "a ! bisect_right a x \<le> x"
      using nth_length_takeWhile takeWhile_nth [OF lt] nth_mem [OF lt] set_takeWhileD by fastforce
    moreover have "bisect_right a x < length a" using lt length_takeWhile_le order.strict_trans2 by blast
    ultimately show False using bisect_right_bounds(3) [OF assms order.refl, of x] by auto
  qed
  show "bisect_right a x \<le> length (takeWhile (\<lambda>y. y \<le> x) a)"
    using bisect_right_bounds [OF assms] by (auto intro: length_takeWhile_less_P_nth)
qed


subsection \<open>Construction succeeds on parsed metadata\<close>

fun segment_starts :: "int \<Rightarrow> int \<Rightarrow> linear_segment list \<Rightarrow> int list" where
  "segment_starts ext e [] = []"
| "segment_starts ext e (s # ss) = e * ext # segment_starts ext (e + extent_count s) ss"

lemma index_segments_Inr:
  "index_segments pvs ext ss e acc = Inr (starts, next_extent) \<longleftrightarrow>
   contiguous_from e ss \<and> (\<forall>s \<in> set ss. map_of pvs (physical_volume_name s) \<noteq> None)
   \<and> starts = acc @ segment_starts ext e ss \<and> next_extent = e + sum_list (map extent_count ss)"
  by (induction ss arbitrary: e acc) (auto simp: add.assoc)

lemma index_segments_error:
  "index_segments pvs ext ss e acc = Inl x \<Longrightarrow> x \<in> {ExtentMapGapError, UnresolvedPhysicalVolumeError}"
  by (induction ss arbitrary: e acc) (auto split: if_splits)

lemma length_segment_starts [simp]: "length (segment_starts ext e ss) = length ss"
  by (induction ss arbitrary: e) auto

lemma segment_starts_nth:
  "i < length ss \<Longrightarrow> segment_starts ext e ss ! i = (e + sum_list (map extent_count (take i ss))) * ext"
  by (induction ss arbitrary: e i) (auto simp: nth_Cons' take_Cons' algebra_simps)

lemma segment_starts_sorted:
  assumes "0 \<le> ext" "\<forall>s \<in> set ss. 0 \<le> extent_count s"
  shows "sorted (segment_starts ext e ss) \<and> (\<forall>b \<in> set (segment_starts ext e ss). e * ext \<le> b)"
  using assms(2)
proof (induction ss arbitrary: e)
  case (Cons s ss)
  have "e * ext \<le> (e + extent_count s) * ext" using Cons.prems assms(1) by (intro mult_right_mono) auto
  with Cons show ?case by fastforce
qed simp

lemma pvs_by_name_dom: "map_of (pvs_by_name pvs) n \<noteq> None \<longleftrightarrow> n \<in> pv_name ` set pvs"
proof -
  have "map_of (pvs_by_name pvs) n \<noteq> None \<longleftrightarrow> n \<in> set (map fst (pvs_by_name pvs))"
    by (metis list.set_map map_of_eq_None_iff)
  then show ?thesis unfolding pvs_by_name_def pydict.keys_assigns by force
qed

lemma pvs_by_name_get:
  assumes "map_of (pvs_by_name pvs) n = Some pv"
  shows "pv \<in> set pvs \<and> pv_name pv = n"
  using assms map_of_SomeD
  by (fastforce simp: pvs_by_name_def pydict.look_assigns split: option.splits)

lemma LogicalVolumeReader_wf:
  assumes "lv_wf (pv_name ` set (physical_volumes vg)) lv"
  shows "\<exists>r. LogicalVolumeReader lv vg rd = Inr r \<and> r_segments r = lv_segments lv
    \<and> r_size_bytes r = lv_extent_count lv * vg_extent_size_bytes vg"
proof -
  have c: "contiguous_from 0 (lv_segments lv)" "\<forall>s \<in> set (lv_segments lv). 0 < extent_count s"
    "\<forall>s \<in> set (lv_segments lv). physical_volume_name s \<in> pv_name ` set (physical_volumes vg)"
    using assms by (auto simp: lv_wf_def segment_wf_def)
  then have "index_segments (pvs_by_name (physical_volumes vg)) (vg_extent_size_bytes vg) (lv_segments lv) 0 []
      = Inr (segment_starts (vg_extent_size_bytes vg) 0 (lv_segments lv), lv_extent_count lv)"
    by (simp only: index_segments_Inr pvs_by_name_dom lv_extent_count_def) simp
  then show ?thesis
    using contiguous_sort_key [OF c(1,2)] by (simp add: LogicalVolumeReader_def Let_def)
qed

subsection \<open>Reads return the volume's bytes\<close>

text \<open>
  The bytes of a logical volume on a physical volume's bytes: the physical extents of its
  segments, one after the other.
\<close>

definition segment_physical_offset :: "volume_group \<Rightarrow> linear_segment \<Rightarrow> int" where
  "segment_physical_offset vg s =
    (case map_of (pvs_by_name (physical_volumes vg)) (physical_volume_name s) of
       Some pv \<Rightarrow> pe_start_bytes pv + start_physical_extent s * vg_extent_size_bytes vg | None \<Rightarrow> 0)"

definition segment_bytes :: "volume_group \<Rightarrow> bytes \<Rightarrow> linear_segment \<Rightarrow> bytes" where
  "segment_bytes vg disk s = (let p = segment_physical_offset vg s in
     slice disk (nat p) (nat (p + extent_count s * vg_extent_size_bytes vg)))"

definition lv_content :: "volume_group \<Rightarrow> logical_volume \<Rightarrow> bytes \<Rightarrow> bytes" where
  "lv_content vg lv disk = concat (map (segment_bytes vg disk) (lv_segments lv))"

definition lv_on_disk :: "volume_group \<Rightarrow> logical_volume \<Rightarrow> bytes \<Rightarrow> bool" where
  "lv_on_disk vg lv disk \<longleftrightarrow> 0 < vg_extent_size_bytes vg
     \<and> lv_wf (pv_name ` set (physical_volumes vg)) lv
     \<and> (\<forall>s \<in> set (lv_segments lv). 0 \<le> segment_physical_offset vg s
         \<and> segment_physical_offset vg s + extent_count s * vg_extent_size_bytes vg \<le> int (length disk))"

lemma slice_concat:
  assumes "i < length xss" "length (concat (take i xss)) = st" "st \<le> a" "b \<le> st + length (xss ! i)"
  shows "slice (concat xss) a b = slice (xss ! i) (a - st) (b - st)"
proof -
  have "concat xss = concat (take i xss) @ xss ! i @ concat (drop (Suc i) xss)"
    using assms(1) by (metis concat.simps(2) concat_append id_take_nth_drop)
  then show ?thesis using assms by (auto simp: slice_append_right slice_append_left)
qed

lemma slice_slice: "c + b \<le> d \<Longrightarrow> slice (slice xs c d) a b = slice xs (c + a) (c + b)"
  by (simp add: slice_def drop_take min_def add.commute)

lemma sum_list_take_Suc: "i < length xs \<Longrightarrow> sum_list (take (Suc i) xs) = sum_list (take i xs) + xs ! i" for xs :: "int list"
  by (simp add: take_Suc_conv_app_nth)


lemma length_segment_bytes:
  assumes "lv_on_disk vg lv disk" "s \<in> set (lv_segments lv)"
  shows "int (length (segment_bytes vg disk s)) = extent_count s * vg_extent_size_bytes vg"
proof -
  have "0 < extent_count s * vg_extent_size_bytes vg"
    using assms by (auto simp: lv_on_disk_def lv_wf_def segment_wf_def)
  with assms show ?thesis by (auto simp: lv_on_disk_def segment_bytes_def Let_def length_slice)
qed

lemma length_segments_bytes:
  assumes "lv_on_disk vg lv disk" "set ss \<subseteq> set (lv_segments lv)"
  shows "int (length (concat (map (segment_bytes vg disk) ss))) = sum_list (map extent_count ss) * vg_extent_size_bytes vg"
  using assms(2) by (induction ss) (auto simp: length_segment_bytes [OF assms(1)] algebra_simps)

lemma length_lv_content:
  "lv_on_disk vg lv disk \<Longrightarrow> int (length (lv_content vg lv disk)) = lv_extent_count lv * vg_extent_size_bytes vg"
  by (simp add: lv_content_def lv_extent_count_def length_segments_bytes)

text \<open>The bisection finds the segment a position belongs to.\<close>

lemma locate_segment:
  assumes ext: "0 < ext" and cnt: "\<forall>s \<in> set ss. 0 < extent_count s"
    and p: "0 \<le> p" "p < sum_list (map extent_count ss) * ext"
  defines "starts \<equiv> segment_starts ext 0 ss"
  obtains i where "i < length ss" "int (bisect_right starts p) - 1 = int i"
    "starts ! i = sum_list (map extent_count (take i ss)) * ext"
    "starts ! i \<le> p" "p < starts ! i + extent_count (ss ! i) * ext"
proof -
  define i where "i = bisect_right starts p - 1"
  have sorted: "sorted starts"
    using segment_starts_sorted [of ext ss 0] ext cnt by (force simp: starts_def)
  have ne: "ss \<noteq> []" using p by auto
  then have "starts ! 0 = 0" by (cases ss) (auto simp: starts_def)
  then have bpos: "0 < bisect_right starts p"
    using bisect_right_bounds(3) [OF sorted, of p 0] p(1) ne
    by (cases "bisect_right starts p") (auto simp: starts_def)
  then have i: "i < length ss" "int (bisect_right starts p) - 1 = int i"
    using bisect_right_bounds(1) [OF sorted, of p] by (auto simp: i_def starts_def)
  have st: "starts ! i = sum_list (map extent_count (take i ss)) * ext"
    using segment_starts_nth [OF i(1), of ext 0] by (simp add: starts_def)
  have step: "starts ! i + extent_count (ss ! i) * ext = sum_list (map extent_count (take (Suc i) ss)) * ext"
    using i(1) by (simp add: st take_Suc_conv_app_nth algebra_simps)
  have "p < starts ! i + extent_count (ss ! i) * ext"
  proof (cases "Suc i < length ss")
    case True
    then have "p < starts ! Suc i" using bisect_right_bounds(3) [OF sorted, of p "Suc i"] bpos
      by (simp add: i_def starts_def)
    then show ?thesis unfolding step using segment_starts_nth [OF True, of ext 0] by (simp add: starts_def)
  next
    case False
    then show ?thesis unfolding step using p i(1) by simp
  qed
  moreover have "starts ! i \<le> p" using bisect_right_bounds(2) [OF sorted, of i p] bpos by (simp add: i_def)
  ultimately show ?thesis using that i st by blast
qed

text \<open>Inside one segment the volume's bytes are the physical bytes at the segment's offset.\<close>

lemma lv_content_slice:
  assumes disk: "lv_on_disk vg lv disk" and i: "i < length (lv_segments lv)"
    and st: "st = sum_list (map extent_count (take i (lv_segments lv))) * vg_extent_size_bytes vg"
    and q: "st \<le> p" "p \<le> q" "q \<le> st + extent_count (lv_segments lv ! i) * vg_extent_size_bytes vg"
  defines "po \<equiv> segment_physical_offset vg (lv_segments lv ! i)"
  shows "slice (lv_content vg lv disk) (nat p) (nat q) = slice disk (nat (po + (p - st))) (nat (po + (q - st)))"
proof -
  define s where "s = lv_segments lv ! i"
  have mem: "s \<in> set (lv_segments lv)" using i by (simp add: s_def)
  then have "0 \<le> po" using disk by (auto simp: lv_on_disk_def po_def s_def)
  have len: "int (length (concat (take i (map (segment_bytes vg disk) (lv_segments lv))))) = st"
    using length_segments_bytes [OF disk, of "take i (lv_segments lv)"] set_take_subset [of i "lv_segments lv"]
    by (simp add: st take_map)
  have "int (length (segment_bytes vg disk s)) = extent_count s * vg_extent_size_bytes vg"
    using length_segment_bytes [OF disk mem] .
  with len have "slice (lv_content vg lv disk) (nat p) (nat q)
      = slice (segment_bytes vg disk s) (nat (p - st)) (nat (q - st))"
    using slice_concat [of i "map (segment_bytes vg disk) (lv_segments lv)" "nat st" "nat p" "nat q"] i q
    by (simp add: lv_content_def nat_diff_distrib s_def)
  also have "\<dots> = slice disk (nat (po + (p - st))) (nat (po + (q - st)))"
    using q \<open>0 \<le> po\<close> by (simp add: segment_bytes_def Let_def slice_slice po_def s_def nat_add_distrib [symmetric])
  finally show ?thesis .
qed

text \<open>One step of the loop on a well-formed volume: which physical range it asks for.\<close>

lemma segment_read_at:
  assumes wf: "lv_wf (pv_name ` set (physical_volumes vg)) lv" "0 < vg_extent_size_bytes vg"
    and r: "LogicalVolumeReader lv vg rd = Inr r" and p: "0 \<le> p" "p < e" "e \<le> r_size_bytes r"
  obtains i st q where "i < length (lv_segments lv)"
    "st = sum_list (map extent_count (take i (lv_segments lv))) * vg_extent_size_bytes vg"
    "st \<le> p" "p < q" "q \<le> e" "q \<le> st + extent_count (lv_segments lv ! i) * vg_extent_size_bytes vg"
    "segment_read r p e = res_bind (rd (segment_physical_offset vg (lv_segments lv ! i) + (p - st)) (q - p))
       (\<lambda>chunk. if int (length chunk) \<noteq> q - p then Inl UnderlyingReadError else Inr (chunk, q))"
proof -
  define ss where "ss = lv_segments lv"
  define ext where "ext = vg_extent_size_bytes vg"
  define starts where "starts = segment_starts ext 0 ss"
  have cnt: "\<forall>s \<in> set ss. 0 < extent_count s" and c: "contiguous_from 0 ss"
    using wf by (auto simp: lv_wf_def segment_wf_def ss_def)
  have r': "r_segments r = ss" "r_segment_start_bytes r = starts" "r_extent_size_bytes r = ext"
    "r_physical_volumes_by_name r = pvs_by_name (physical_volumes vg)" "r_read_physical r = rd"
    "r_size_bytes r = sum_list (map extent_count ss) * ext"
    "\<forall>s \<in> set ss. map_of (pvs_by_name (physical_volumes vg)) (physical_volume_name s) \<noteq> None"
    using r contiguous_sort_key [OF c cnt]
    by (auto simp: LogicalVolumeReader_def res_simps Let_def ss_def ext_def starts_def index_segments_Inr)
  obtain i where i: "i < length ss" "int (bisect_right starts p) - 1 = int i"
      "starts ! i = sum_list (map extent_count (take i ss)) * ext"
    and lohi: "starts ! i \<le> p" "p < starts ! i + extent_count (ss ! i) * ext"
    using locate_segment [of ext ss p] wf(2) cnt p r'(6) unfolding starts_def ext_def by force
  obtain pv where pv: "map_of (pvs_by_name (physical_volumes vg)) (physical_volume_name (ss ! i)) = Some pv"
    using r'(7) i(1) by fastforce
  define q where "q = min e (starts ! i + extent_count (ss ! i) * ext)"
  have len: "length starts = length ss" by (simp add: starts_def)
  have "segment_read r p e = res_bind (rd (segment_physical_offset vg (ss ! i) + (p - starts ! i)) (q - p))
      (\<lambda>chunk. if int (length chunk) \<noteq> q - p then Inl UnderlyingReadError else Inr (chunk, q))"
    using i(1,2) pv len unfolding q_def
    by (simp add: segment_read_def py_index_def r' Let_def segment_physical_offset_def ext_def [symmetric])
  moreover have "p < q" "q \<le> e" "q \<le> starts ! i + extent_count (ss ! i) * ext"
    using lohi p by (auto simp: q_def)
  ultimately show ?thesis using that [of i "starts ! i" q] i lohi unfolding ss_def ext_def by blast
qed

context exact_reader
begin

lemma segment_read_content:
  assumes disk: "lv_on_disk vg lv content" and r: "LogicalVolumeReader lv vg rd = Inr r"
    and pos: "0 \<le> p" "p < e" "e \<le> r_size_bytes r"
  shows "\<exists>q. p < q \<and> q \<le> e \<and> segment_read r p e = Inr (slice (lv_content vg lv content) (nat p) (nat q), q)"
proof -
  have wf: "lv_wf (pv_name ` set (physical_volumes vg)) lv" "0 < vg_extent_size_bytes vg"
    using disk by (auto simp: lv_on_disk_def)
  obtain i st q where i: "i < length (lv_segments lv)"
      "st = sum_list (map extent_count (take i (lv_segments lv))) * vg_extent_size_bytes vg"
    and q: "st \<le> p" "p < q" "q \<le> e" "q \<le> st + extent_count (lv_segments lv ! i) * vg_extent_size_bytes vg"
    and eq: "segment_read r p e = res_bind (rd (segment_physical_offset vg (lv_segments lv ! i) + (p - st)) (q - p))
       (\<lambda>chunk. if int (length chunk) \<noteq> q - p then Inl UnderlyingReadError else Inr (chunk, q))"
    by (rule segment_read_at [OF wf r pos])
  define po where "po = segment_physical_offset vg (lv_segments lv ! i)"
  have in_disk: "0 \<le> po" "po + extent_count (lv_segments lv ! i) * vg_extent_size_bytes vg \<le> int (length content)"
    using disk i(1) by (auto simp: lv_on_disk_def po_def)
  have "rd (po + (p - st)) (q - p) = Inr (slice content (nat (po + (p - st))) (nat (po + (p - st) + (q - p))))"
    using in_disk q by (intro read_within) auto
  also have "po + (p - st) + (q - p) = po + (q - st)" by simp
  also have "slice content (nat (po + (p - st))) (nat (po + (q - st))) = slice (lv_content vg lv content) (nat p) (nat q)"
    using lv_content_slice [OF disk i] q by (simp add: po_def)
  finally have rd: "rd (po + (p - st)) (q - p) = Inr (slice (lv_content vg lv content) (nat p) (nat q))" .
  then have "int (length (slice (lv_content vg lv content) (nat p) (nat q))) = q - p"
    using in_disk q by (intro read_length [OF _ _ _ rd]) auto
  with eq rd q show ?thesis by (auto simp: po_def)
qed

lemma read_loop_content:
  assumes disk: "lv_on_disk vg lv content" and r: "LogicalVolumeReader lv vg rd = Inr r"
    and pos: "0 \<le> p" "p \<le> e" "e \<le> r_size_bytes r"
  shows "read_loop r p e acc = Some (Inr (acc @ slice (lv_content vg lv content) (nat p) (nat e)))"
  using pos
proof (induction "nat (e - p)" arbitrary: p acc rule: less_induct)
  case less
  show ?case
  proof (cases "p < e")
    case True
    then obtain q where q: "p < q" "q \<le> e"
      "segment_read r p e = Inr (slice (lv_content vg lv content) (nat p) (nat q), q)"
      using segment_read_content [OF disk r less.prems(1) True less.prems(3)] by blast
    then have "read_loop r q e (acc @ slice (lv_content vg lv content) (nat p) (nat q))
        = Some (Inr (acc @ slice (lv_content vg lv content) (nat p) (nat e)))"
      using less.hyps [of q] less.prems by (simp add: slice_append_slice)
    with True q show ?thesis by (simp add: read_loop.simps [of r p])
  qed (use less.prems in \<open>subst read_loop.simps, simp\<close>)
qed

lemma lv_read_content:
  assumes disk: "lv_on_disk vg lv content" and r: "LogicalVolumeReader lv vg rd = Inr r"
  shows "lv_read r off n =
    Some (if off < 0 \<or> n < 0 \<or> off + n > r_size_bytes r then Inl InvalidReadRequestError
          else Inr (slice (lv_content vg lv content) (nat off) (nat (off + n))))"
  using read_loop_content [OF disk r] by (auto simp: lv_read_def)

lemma lv_reader_exact:
  assumes disk: "lv_on_disk vg lv content" and r: "LogicalVolumeReader lv vg rd = Inr r"
  shows "exact_reader (\<lambda>off n. the (lv_read r off n)) (lv_content vg lv content)"
proof
  obtain r' where "LogicalVolumeReader lv vg rd = Inr r'"
      "r_size_bytes r' = lv_extent_count lv * vg_extent_size_bytes vg"
    using LogicalVolumeReader_wf disk unfolding lv_on_disk_def by blast
  with r have "r_size_bytes r = int (length (lv_content vg lv content))"
    by (simp add: length_lv_content [OF disk])
  then show "the (lv_read r off n) = Inr (slice (lv_content vg lv content) (nat off) (nat (off + n)))"
    if "0 \<le> off" "0 \<le> n" "off + n \<le> int (length (lv_content vg lv content))" for off n
    using that by (simp add: lv_read_content [OF disk r])
qed

end

subsection \<open>Any physical reader\<close>

text \<open>No assumption on the physical reader or on the volume: a returned value has the requested size.\<close>

lemma segment_read_length:
  "segment_read r p e = Inr (chunk, q) \<Longrightarrow> int (length chunk) = q - p \<and> q \<le> e"
  by (auto simp: segment_read_def Let_def res_simps split: option.splits if_splits)

lemma read_loop_result:
  assumes "read_loop r p e acc = Some res"
  shows "p \<le> e \<Longrightarrow> res = Inr bs \<Longrightarrow> int (length bs) = int (length acc) + (e - p)"
  using assms
proof (induction arbitrary: bs rule: read_loop.raw_induct [rotated, consumes 1, case_names step])
  case (step f r p e acc res)
  show ?case
  proof (cases "p < e")
    case True
    with step.hyps step.prems obtain chunk q where sr: "segment_read r p e = Inr (chunk, q)"
      and f: "f r q e (acc @ chunk) = Some res"
      by (auto split: sum.splits prod.splits)
    have "int (length chunk) = q - p \<and> q \<le> e" using segment_read_length [OF sr] .
    with step.IH [OF f _ step.prems(2)] show ?thesis by simp
  qed (use step in auto)
qed

lemma lv_read_length:
  assumes "lv_read r off n = Some (Inr bs)"
  shows "0 \<le> n \<and> int (length bs) = n"
  using assms read_loop_result [of r off "off + n" "[]" "Inr bs" bs]
  by (auto simp: lv_read_def split: if_splits)
text \<open>
  On a volume of parsed metadata every read ends, whatever the physical reader does: it
  returns, or raises the reader's exception or the class's own.
\<close>

lemma read_loop_returns:
  assumes wf: "lv_wf (pv_name ` set (physical_volumes vg)) lv" "0 < vg_extent_size_bytes vg"
    and r: "LogicalVolumeReader lv vg rd = Inr r" and p: "0 \<le> p" "e \<le> r_size_bytes r"
  shows "\<exists>res. read_loop r p e acc = Some res \<and> (\<forall>x. res = Inl x \<longrightarrow> x = UnderlyingReadError \<or> (\<exists>off n. rd off n = Inl x))"
  using p
proof (induction "nat (e - p)" arbitrary: p acc rule: less_induct)
  case less
  show ?case
  proof (cases "p < e")
    case True
    obtain po q where q: "p < q" "q \<le> e" and eq: "segment_read r p e = res_bind (rd po (q - p))
        (\<lambda>chunk. if int (length chunk) \<noteq> q - p then Inl UnderlyingReadError else Inr (chunk, q))"
      by (rule segment_read_at [OF wf r less.prems(1) True less.prems(2)])
    show ?thesis
    proof (cases "\<exists>chunk. rd po (q - p) = Inr chunk \<and> int (length chunk) = q - p")
      case True
      then obtain chunk where "segment_read r p e = Inr (chunk, q)" using eq by auto
      then show ?thesis using less.hyps [of q "acc @ chunk"] less.prems q by (simp add: read_loop.simps [of r p])
    next
      case False
      then obtain x where "segment_read r p e = Inl x" "x = UnderlyingReadError \<or> (\<exists>off n. rd off n = Inl x)"
        using eq by (cases "rd po (q - p)") auto
      then show ?thesis using q by (auto simp: read_loop.simps [of r p])
    qed
  qed (subst read_loop.simps, simp)
qed

lemma lv_read_returns:
  assumes "lv_wf (pv_name ` set (physical_volumes vg)) lv" "0 < vg_extent_size_bytes vg"
    and "LogicalVolumeReader lv vg rd = Inr r"
  shows "\<exists>res. lv_read r off n = Some res
    \<and> (\<forall>x. res = Inl x \<longrightarrow> x \<in> {InvalidReadRequestError, UnderlyingReadError} \<or> (\<exists>off n. rd off n = Inl x))"
  using read_loop_returns [OF assms, of off "off + n" "[]"] by (auto simp: lv_read_def)

end
