(* ===== verification/Volume_Access.thy ===== *)
theory Volume_Access
  imports Lvm_Reader
begin

section \<open>Image readers and volume access\<close>

text \<open>
  \<^verbatim>\<open>disk_images/volume_access.py\<close> and \<^verbatim>\<open>disk_images/ewf_img_info.py\<close>: the readers stacked
  on an image file. A file is its bytes. The libraries the source calls are parameters:
  \<open>handle\<close> is seek-and-read on a pyewf handle, \<open>fs_open\<close> is the constructor
  \<^verbatim>\<open>pytsk3.FS_Info\<close> (with its optional offset), which may raise.
\<close>

subsection \<open>Plain files\<close>

text \<open>
  \<^verbatim>\<open>_PytskFileReader.read\<close>: a binary file's \<open>seek\<close> refuses a negative offset, \<open>read(-1)\<close>
  reads to the end of file and any other negative size raises \<open>ValueError\<close>; a read past the
  end is short.
\<close>

definition file_read :: "bytes \<Rightarrow> byte_reader" where
  "file_read raw off n =
    (if off < 0 then Inl (ReaderException ''OSError'')
     else if n < -1 then Inl ValueError
     else if n = -1 then Inr (drop (nat off) raw)
     else Inr (slice raw (nat off) (nat (off + n))))"

interpretation image_file: exact_reader "file_read raw" raw for raw
  by unfold_locales (simp add: file_read_def)

definition safe_reader_read :: "byte_reader \<Rightarrow> int \<Rightarrow> int \<Rightarrow> bytes" where
  "safe_reader_read img off n = (case img (max off 0) n of Inl e \<Rightarrow> [] | Inr bs \<Rightarrow> bs)"

subsection \<open>EWF images: the read cache\<close>

definition READ_CACHE_MAX_ENTRIES :: nat where "READ_CACHE_MAX_ENTRIES = 4096"

record ewf_img =
  ewf_size :: int
  read_cache :: "((int \<times> int) \<times> bytes) list"

text \<open>\<open>OrderedDict.move_to_end\<close> on a key that is present.\<close>

definition move_to_end :: "'k \<Rightarrow> ('k \<times> 'v) list \<Rightarrow> ('k \<times> 'v) list" where
  "move_to_end k d = filter (\<lambda>kv. fst kv \<noteq> k) d @ filter (\<lambda>kv. fst kv = k) d"

definition ewf_read :: "byte_reader \<Rightarrow> ewf_img \<Rightarrow> int \<Rightarrow> int \<Rightarrow> (lvm_exc + bytes) \<times> ewf_img" where
  "ewf_read handle img off n =
    (case map_of (read_cache img) (off, n) of
       Some cached \<Rightarrow> (Inr cached, img\<lparr>read_cache := move_to_end (off, n) (read_cache img)\<rparr>)
     | None \<Rightarrow> (case handle off n of
         Inl e \<Rightarrow> (Inl e, img)
       | Inr data \<Rightarrow>
           let cache = dict_set (off, n) data (read_cache img) in
           (Inr data, img\<lparr>read_cache := (if length cache > READ_CACHE_MAX_ENTRIES then tl cache else cache)\<rparr>)))"

fun ewf_reads :: "byte_reader \<Rightarrow> ewf_img \<Rightarrow> (int \<times> int) list \<Rightarrow> (lvm_exc + bytes) list \<times> ewf_img" where
  "ewf_reads handle img [] = ([], img)"
| "ewf_reads handle img ((off, n) # reqs) =
    (let (r, img') = ewf_read handle img off n; (rs, img'') = ewf_reads handle img' reqs in (r # rs, img''))"

definition cache_ok :: "byte_reader \<Rightarrow> ewf_img \<Rightarrow> bool" where
  "cache_ok handle img \<longleftrightarrow> distinct (map fst (read_cache img))
     \<and> length (read_cache img) \<le> READ_CACHE_MAX_ENTRIES
     \<and> (\<forall>((off, n), data) \<in> set (read_cache img). handle off n = Inr data)"

lemma set_move_to_end [simp]: "set (move_to_end k d) = set d"
  by (auto simp: move_to_end_def)

lemma length_move_to_end [simp]: "length (move_to_end k d) = length d"
  using sum_length_filter_compl [of "\<lambda>kv. fst kv = k" d] by (simp add: move_to_end_def)

lemma distinct_move_to_end: "distinct (map fst d) \<Longrightarrow> distinct (map fst (move_to_end k d))"
  by (auto simp: move_to_end_def distinct_map_filter)

lemma ewf_read_ok:
  assumes "cache_ok handle img"
  shows "fst (ewf_read handle img off n) = handle off n \<and> cache_ok handle (snd (ewf_read handle img off n))"
proof (cases "map_of (read_cache img) (off, n)")
  case (Some data)
  then have "handle off n = Inr data" using assms map_of_SomeD by (fastforce simp: cache_ok_def)
  with Some assms show ?thesis
    by (auto simp: ewf_read_def cache_ok_def distinct_move_to_end)
next
  case None
  show ?thesis
  proof (cases "handle off n")
    case (Inr data)
    have new: "dict_set (off, n) data (read_cache img) = read_cache img @ [((off, n), data)]"
      using None by (simp add: dict_set_new map_of_eq_None_iff)
    let ?c = "read_cache img @ [((off, n), data)]"
    have c: "distinct (map fst ?c)" "\<forall>((off, n), data) \<in> set ?c. handle off n = Inr data"
      using None Inr assms by (auto simp: cache_ok_def map_of_eq_None_iff)
    have "set (tl ?c) \<subseteq> set ?c" using list.set_sel(2) [of ?c] by blast
    with c have "distinct (map fst (tl ?c))" "\<forall>((off, n), data) \<in> set (tl ?c). handle off n = Inr data"
      using distinct_tl [OF c(1)] by (simp add: map_tl, blast)
    with c None Inr assms show ?thesis
      by (simp add: ewf_read_def cache_ok_def new Let_def del: tl_append2 map_append set_append)
  qed (use None assms in \<open>simp add: ewf_read_def\<close>)
qed

lemma ewf_reads_ok:
  assumes "cache_ok handle img"
  shows "fst (ewf_reads handle img reqs) = map (\<lambda>(off, n). handle off n) reqs
    \<and> cache_ok handle (snd (ewf_reads handle img reqs))"
  using assms
proof (induction reqs arbitrary: img)
  case (Cons req reqs)
  obtain off n where "req = (off, n)" by force
  with Cons.IH [of "snd (ewf_read handle img off n)"] ewf_read_ok [OF Cons.prems, of off n] show ?case
    by (auto simp: split_beta Let_def)
qed simp

text \<open>The entry just read goes to the end of the queue, so it is the last one to be evicted.\<close>

lemma filter_key_last:
  assumes "distinct (map fst d)" "map_of d k = Some v"
  shows "filter (\<lambda>kv. fst kv = k) d = [(k, v)]"
  using assms
proof (induction d)
  case (Cons kv d)
  have "filter (\<lambda>kv. fst kv = k) d = []" if "fst kv = k"
    using Cons.prems(1) that by (auto simp: filter_empty_conv image_iff)
  with Cons show ?case by (cases kv) auto
qed simp

lemma ewf_read_most_recent:
  assumes "cache_ok handle img" "fst (ewf_read handle img off n) = Inr data"
  shows "last (read_cache (snd (ewf_read handle img off n))) = ((off, n), data)"
proof (cases "map_of (read_cache img) (off, n)")
  case (Some d)
  with assms filter_key_last [OF _ Some] show ?thesis
    by (auto simp: ewf_read_def cache_ok_def move_to_end_def)
next
  case None
  then have new: "dict_set (off, n) d (read_cache img) = read_cache img @ [((off, n), d)]" for d
    by (simp add: dict_set_new map_of_eq_None_iff)
  with None assms show ?thesis
    by (auto simp: ewf_read_def new Let_def READ_CACHE_MAX_ENTRIES_def tl_append split: sum.splits list.splits)
qed

subsection \<open>NTFS boot sector repair\<close>

definition NTFS_OEM_ID :: bytes where "NTFS_OEM_ID = bytes_of ''NTFS    ''"
definition NTFS_JUMP_INSTRUCTION :: bytes where "NTFS_JUMP_INSTRUCTION = [0xEB, 0x52, 0x90]"
definition NTFS_BOOT_SIGNATURE :: bytes where "NTFS_BOOT_SIGNATURE = [0x55, 0xAA]"

definition looks_like_repairable_ntfs_boot_sector :: "bytes \<Rightarrow> bool" where
  "looks_like_repairable_ntfs_boot_sector blob =
    (if length blob < 512 then False
     else if slice blob 3 11 \<noteq> NTFS_OEM_ID then False
     else slice blob 0 3 \<noteq> NTFS_JUMP_INSTRUCTION \<or> slice blob 510 512 \<noteq> NTFS_BOOT_SIGNATURE)"

text \<open>Python's slice assignment \<open>xs[a:b] = ys\<close> for \<open>0 \<le> a \<le> b\<close>.\<close>

definition slice_assign :: "'a list \<Rightarrow> nat \<Rightarrow> nat \<Rightarrow> 'a list \<Rightarrow> 'a list" where
  "slice_assign xs a b ys = take a xs @ ys @ drop b xs"

definition repair_ntfs_boot_sector :: "bytes \<Rightarrow> bytes" where
  "repair_ntfs_boot_sector blob =
    (let patched = slice blob 0 512;
         patched = slice_assign patched 0 3 NTFS_JUMP_INSTRUCTION in
     slice_assign patched 510 512 NTFS_BOOT_SIGNATURE)"

definition boot_patched_read :: "byte_reader \<Rightarrow> int \<Rightarrow> bytes \<Rightarrow> byte_reader" where
  "boot_patched_read inner boot_sector_offset patched_boot_sector off n =
     res_bind (inner off n) (\<lambda>data.
     let patch_start = boot_sector_offset;
         patch_end = patch_start + int (length patched_boot_sector);
         overlap_start = max off patch_start;
         overlap_end = min (min (off + n) patch_end) (off + int (length data)) in
     if overlap_start < overlap_end
     then Inr (slice_assign data (nat (overlap_start - off)) (nat (overlap_end - off))
                (slice patched_boot_sector (nat (overlap_start - patch_start)) (nat (overlap_end - patch_start))))
     else Inr data)"

subsection \<open>Opening a volume\<close>

text \<open>
  What the source keeps of a volume row: the byte offset, the partition index, the
  warnings, and the \<^verbatim>\<open>lvm\<close> entry of its metadata (container offset and volume name).
\<close>

record disk_volume =
  vol_offset_bytes :: int
  vol_partition_index :: int
  vol_warnings :: "string list"
  vol_lvm :: "(int \<times> string) option"

text \<open>What a volume's byte reader is: \<open>None\<close> stands for a read that does not return.\<close>

type_synonym volume_reader = "int \<Rightarrow> int \<Rightarrow> (lvm_exc + bytes) option"

definition open_logical_volume :: "byte_reader \<Rightarrow> string \<Rightarrow> lvm_exc \<Rightarrow> lvm_exc + lv_reader" where
  "open_logical_volume read_physical name missing =
     res_bind (parse_physical_volume_metadata read_physical) (\<lambda>pv_metadata.
     case find (\<lambda>lv. lv_name lv = name) (logical_volumes (pvm_volume_group pv_metadata)) of
       None \<Rightarrow> Inl missing
     | Some lv \<Rightarrow> LogicalVolumeReader lv (pvm_volume_group pv_metadata) read_physical)"

definition volume_byte_reader :: "byte_reader \<Rightarrow> disk_volume \<Rightarrow> lvm_exc + volume_reader" where
  "volume_byte_reader img volume =
    (case vol_lvm volume of
       Some (container_offset, name) \<Rightarrow>
         res_bind (open_logical_volume (\<lambda>off n. img (container_offset + off) n) name (ReaderException ''StopIteration''))
           (\<lambda>reader. Inr (lv_read reader))
     | None \<Rightarrow> Inr (\<lambda>off n. Some (img (vol_offset_bytes volume + off) n)))"

text \<open>
  The reader handed to \<^verbatim>\<open>FS_Info\<close>: the image itself, a boot-sector-patched image, or a
  logical volume.
\<close>

definition try_repair_ntfs_boot_sector ::
  "(volume_reader \<Rightarrow> int option \<Rightarrow> lvm_exc + 'fs) \<Rightarrow> byte_reader \<Rightarrow> int \<Rightarrow> bytes \<Rightarrow> 'fs option" where
  "try_repair_ntfs_boot_sector fs_open img offset_bytes blob =
    (if \<not> looks_like_repairable_ntfs_boot_sector blob then None
     else case fs_open (\<lambda>off n. Some (boot_patched_read img offset_bytes (repair_ntfs_boot_sector blob) off n))
                 (Some offset_bytes) of
       Inl e \<Rightarrow> None | Inr fs \<Rightarrow> Some fs)"

definition open_persisted_volume_fs_info ::
  "(volume_reader \<Rightarrow> int option \<Rightarrow> lvm_exc + 'fs) \<Rightarrow> byte_reader \<Rightarrow> disk_volume \<Rightarrow> lvm_exc + 'fs" where
  "open_persisted_volume_fs_info fs_open img volume =
    (case vol_lvm volume of
       Some (container_offset, name) \<Rightarrow>
         res_bind (open_logical_volume (\<lambda>off n. img (container_offset + off) n) name ValueError)
           (\<lambda>reader. fs_open (lv_read reader) None)
     | None \<Rightarrow>
         let offset_bytes = vol_offset_bytes volume in
         case (if vol_partition_index volume \<noteq> 0 \<or> offset_bytes \<noteq> 0
               then fs_open (\<lambda>off n. Some (img off n)) (Some offset_bytes)
               else fs_open (\<lambda>off n. Some (img off n)) None) of
           Inr fs \<Rightarrow> Inr fs
         | Inl e \<Rightarrow>
             if ''ntfs_boot_sector_repaired'' \<notin> set (vol_warnings volume) then Inl e
             else case try_repair_ntfs_boot_sector fs_open img offset_bytes
                         (safe_reader_read img offset_bytes 4096) of
               None \<Rightarrow> Inl e | Some repaired \<Rightarrow> Inr repaired)"

section \<open>Properties of the reader stack\<close>

lemma length_ntfs_consts [simp]: "length NTFS_JUMP_INSTRUCTION = 3" "length NTFS_BOOT_SIGNATURE = 2"
  by (simp_all add: NTFS_JUMP_INSTRUCTION_def NTFS_BOOT_SIGNATURE_def)

lemma length_slice_assign:
  "a \<le> b \<Longrightarrow> b \<le> length xs \<Longrightarrow> length ys = b - a \<Longrightarrow> length (slice_assign xs a b ys) = length xs"
  by (simp add: slice_assign_def)

lemma slice_assign_nth:
  assumes "a \<le> b" "b \<le> length xs" "length ys = b - a" "i < length xs"
  shows "slice_assign xs a b ys ! i = (if a \<le> i \<and> i < b then ys ! (i - a) else xs ! i)"
  using assms by (auto simp: slice_assign_def nth_append min_def)

lemma repair_ntfs_boot_sector_shape:
  assumes "512 \<le> length blob"
  shows "repair_ntfs_boot_sector blob = NTFS_JUMP_INSTRUCTION @ slice blob 3 510 @ NTFS_BOOT_SIGNATURE"
  using assms by (simp add: repair_ntfs_boot_sector_def slice_assign_def slice_def Let_def drop_take)

text \<open>A window of a patched list is the patched window.\<close>

lemma slice_of_patched:
  assumes "a + length p \<le> length c" "off + n \<le> length c"
  defines "d \<equiv> slice c off (off + n)" and "s \<equiv> max off a" and "e \<equiv> min (off + n) (a + length p)"
  shows "slice (slice_assign c a (a + length p) p) off (off + n)
    = (if s < e then slice_assign d (s - off) (e - off) (slice p (s - a) (e - a)) else d)" (is "?r = ?l")
proof (rule nth_equalityI)
  let ?c = "slice_assign c a (a + length p) p"
  have len: "length ?c = length c" using assms(1) by (intro length_slice_assign) auto
  have dlen: "length d = n" using assms(2) by (simp add: d_def length_slice)
  have se: "s < e \<Longrightarrow> s - off \<le> e - off \<and> e - off \<le> length d
      \<and> length (slice p (s - a) (e - a)) = e - off - (s - off)"
    by (auto simp: length_slice s_def e_def dlen)
  then have ll: "length ?l = n" by (simp add: length_slice_assign dlen)
  then show "length ?r = length ?l" using len assms(2) by (simp add: length_slice)
  fix i assume "i < length ?r"
  then have i: "i < n" by (simp add: length_slice)
  have "?r ! i = ?c ! (off + i)" using i len assms(2) by (intro slice_nth) (simp add: length_slice)
  also have "\<dots> = (if a \<le> off + i \<and> off + i < a + length p then p ! (off + i - a) else c ! (off + i))"
    using assms(1,2) i by (subst slice_assign_nth) auto
  also have "\<dots> = ?l ! i"
  proof (cases "s < e")
    case True
    note se = se [OF True]
    have "?l ! i = (if s - off \<le> i \<and> i < e - off then slice p (s - a) (e - a) ! (i - (s - off)) else d ! i)"
      using True se i dlen by (simp add: slice_assign_nth)
    also have "\<dots> = (if s - off \<le> i \<and> i < e - off then p ! (s - a + (i - (s - off))) else c ! (off + i))"
    proof -
      have "slice p (s - a) (e - a) ! (i - (s - off)) = p ! (s - a + (i - (s - off)))"
        if "s - off \<le> i" "i < e - off" using that se by (intro slice_nth) arith
      moreover have "d ! i = c ! (off + i)" using i dlen unfolding d_def by (intro slice_nth) simp
      ultimately show ?thesis by simp
    qed
    finally show ?thesis using True i by (auto simp: s_def e_def max_def min_def add.commute split: if_splits)
  next
    case False
    then have "?l ! i = c ! (off + i)" using i dlen by (simp add: d_def slice_nth)
    moreover have "\<not> (a \<le> off + i \<and> off + i < a + length p)" using False i by (auto simp: s_def e_def)
    ultimately show ?thesis by auto
  qed
  finally show "?r ! i = ?l ! i" .
qed

lemma boot_patched_exact:
  assumes "exact_reader inner content" "0 \<le> start" "start + int (length patch) \<le> int (length content)"
  shows "exact_reader (boot_patched_read inner start patch)
    (slice_assign content (nat start) (nat start + length patch) patch)"
proof
  fix off n :: int
  let ?c = "slice_assign content (nat start) (nat start + length patch) patch"
  have len: "length ?c = length content" using assms(2,3) by (intro length_slice_assign) auto
  assume "0 \<le> off" "0 \<le> n" and r: "off + n \<le> int (length ?c)"
  then obtain o' n' where on: "off = int o'" "n = int n'" by (metis nonneg_int_cases)
  from assms(2) obtain a where a: "start = int a" by (metis nonneg_int_cases)
  have bounds: "a + length patch \<le> length content" "o' + n' \<le> length content"
    using assms(3) r len on a by simp_all
  have inner: "inner off n = Inr (slice content o' (o' + n'))"
    using exact_reader.read_within [OF assms(1), of off n] on bounds by (simp add: nat_add_distrib)
  have "length (slice content o' (o' + n')) = n'" using bounds by (simp add: length_slice)
  moreover have "max off start = int (max o' a)"
    "min (min (off + n) (start + int (length patch))) (off + n) = int (min (o' + n') (a + length patch))"
    using on a by simp_all
  ultimately have "boot_patched_read inner start patch off n
      = Inr (slice ?c o' (o' + n'))"
    using slice_of_patched [OF bounds] inner on a
    by (auto simp: boot_patched_read_def Let_def nat_diff_distrib)
  then show "boot_patched_read inner start patch off n = Inr (slice ?c (nat off) (nat (off + n)))"
    using on by (simp add: nat_add_distrib)
qed

text \<open>What parsing and opening by name give.\<close>

lemma parse_physical_volume_metadata_wf:
  assumes "parse_physical_volume_metadata rd = Inr m"
  shows "vg_wf (pvm_volume_group m)"
    and "pvm_physical_volume m \<in> set (physical_volumes (pvm_volume_group m))"
proof -
  obtain doc area u where "build_volume_group doc area = Inr (pvm_volume_group m)"
    "find (\<lambda>pv. pv_id pv = u) (physical_volumes (pvm_volume_group m)) = Some (pvm_physical_volume m)"
    using assms by (auto simp: parse_physical_volume_metadata_def res_simps Let_def
        split: if_splits option.splits)
  then show "vg_wf (pvm_volume_group m)"
    "pvm_physical_volume m \<in> set (physical_volumes (pvm_volume_group m))"
    by (blast dest: build_volume_group_vg_wf find_SomeD)+
qed

lemma open_logical_volume_Inr:
  assumes "open_logical_volume rd name x = Inr r"
  obtains m lv where "parse_physical_volume_metadata rd = Inr m" "vg_wf (pvm_volume_group m)"
    "lv \<in> set (logical_volumes (pvm_volume_group m))" "lv_name lv = name"
    "LogicalVolumeReader lv (pvm_volume_group m) rd = Inr r"
proof -
  from assms obtain m where m: "parse_physical_volume_metadata rd = Inr m"
    by (auto simp: open_logical_volume_def res_simps)
  with assms obtain lv where "find (\<lambda>lv. lv_name lv = name) (logical_volumes (pvm_volume_group m)) = Some lv"
    "LogicalVolumeReader lv (pvm_volume_group m) rd = Inr r"
    by (auto simp: open_logical_volume_def split: option.splits)
  then show ?thesis using that [OF m] parse_physical_volume_metadata_wf [OF m]
    by (auto dest: find_SomeD)
qed

text \<open>
  Every logical volume of the parsed metadata can be opened by its name: the reader's own
  checks never fail on what the parser accepted.
\<close>

lemma open_logical_volume_named:
  assumes m: "parse_physical_volume_metadata rd = Inr m" and "lv \<in> set (logical_volumes (pvm_volume_group m))"
  shows "\<exists>r. open_logical_volume rd (lv_name lv) x = Inr r"
proof -
  from assms(2) obtain lv' where f: "find (\<lambda>l. lv_name l = lv_name lv) (logical_volumes (pvm_volume_group m)) = Some lv'"
    using find_None_iff [of "\<lambda>l. lv_name l = lv_name lv" "logical_volumes (pvm_volume_group m)"]
    by (cases "find (\<lambda>l. lv_name l = lv_name lv) (logical_volumes (pvm_volume_group m))") auto
  then have "lv' \<in> set (logical_volumes (pvm_volume_group m))" by (auto dest: find_SomeD)
  then have "lv_wf (pv_name ` set (physical_volumes (pvm_volume_group m))) lv'"
    using parse_physical_volume_metadata_wf [OF m] by (auto simp: vg_wf_def)
  from LogicalVolumeReader_wf [OF this] f m show ?thesis
    by (auto simp: open_logical_volume_def)
qed

lemma repaired_slices:
  assumes "512 \<le> length blob"
  shows "length (repair_ntfs_boot_sector blob) = 512"
    and "slice (repair_ntfs_boot_sector blob) 0 3 = NTFS_JUMP_INSTRUCTION"
    and "slice (repair_ntfs_boot_sector blob) 510 512 = NTFS_BOOT_SIGNATURE"
    and "slice (repair_ntfs_boot_sector blob) 3 510 = slice blob 3 510"
proof -
  have l: "length (slice blob 3 510) = 507" using assms by (simp add: length_slice)
  note shape = repair_ntfs_boot_sector_shape [OF assms]
  show "length (repair_ntfs_boot_sector blob) = 512" by (simp add: shape l)
  show "slice (repair_ntfs_boot_sector blob) 0 3 = NTFS_JUMP_INSTRUCTION"
    using slice_at [of 0 "[]" 3 NTFS_JUMP_INSTRUCTION] by (simp add: shape)
  show "slice (repair_ntfs_boot_sector blob) 510 512 = NTFS_BOOT_SIGNATURE"
    using slice_at [of 510 "NTFS_JUMP_INSTRUCTION @ slice blob 3 510" 512 NTFS_BOOT_SIGNATURE "[]"] l
    by (simp add: shape)
  show "slice (repair_ntfs_boot_sector blob) 3 510 = slice blob 3 510"
    using slice_at [of 3 NTFS_JUMP_INSTRUCTION 510 "slice blob 3 510" NTFS_BOOT_SIGNATURE] l
    by (simp add: shape)
qed

end
