(* ===== verification/Lvm_Print.thy ===== *)
theory Lvm_Print
  imports Lvm_Text
begin

section \<open>Printing LVM2 metadata text, and reading it back\<close>

text \<open>
  A printer for configuration documents, the specification of the text format: every
  token followed by a blank, quotes and backslashes in strings escaped. The tokenizer
  and the parser of \<^verbatim>\<open>text_format.py\<close> read a printed document back
  (\<open>parse_document_text\<close>). \<open>section_ok\<close> says which documents can be printed: the
  keys of a section are distinct and are identifiers the tokenizer reads as such, and
  integers have at most 4300 digits.
\<close>

definition int_text :: "int \<Rightarrow> string" where
  "int_text n = (if n < 0 then ''-'' @ nat_digits (nat (- n)) else nat_digits (nat n))"

text \<open>Strings are written with every quote and backslash escaped.\<close>

definition escape_char :: "char \<Rightarrow> string" where
  "escape_char c = (if c = quote \<or> c = backslash then [backslash, c] else [c])"

definition string_text :: "string \<Rightarrow> string" where
  "string_text s = quote # concat (map escape_char s) @ [quote]"

fun token_text :: "token_val \<Rightarrow> string" where
  "token_text (TIdent s) = s"
| "token_text (TInt n) = int_text n"
| "token_text (TString s) = string_text s"
| "token_text (TPunct c) = [c]"

definition ident_ok :: "string \<Rightarrow> bool" where
  "ident_ok s \<longleftrightarrow> s \<noteq> [] \<and> list_all ident_char s \<and> \<not> py_isdigit (hd s)
     \<and> \<not> (hd s = CHR ''-'' \<and> tl s \<noteq> [] \<and> py_isdigit (hd (tl s)))"

definition int_ok :: "int \<Rightarrow> bool" where
  "int_ok n \<longleftrightarrow> length (nat_digits (nat \<bar>n\<bar>)) \<le> 4300"

fun token_ok :: "token_val \<Rightarrow> bool" where
  "token_ok (TIdent s) = ident_ok s"
| "token_ok (TInt n) = int_ok n"
| "token_ok (TString s) = True"
| "token_ok (TPunct c) = (c \<in> set ''{}[]=,'')"

lemma tail_space: "\<not> py_isdigit (CHR '' '')" "\<not> ident_char (CHR '' '')" "py_isspace (CHR '' '')"
  by (simp_all add: py_isdigit_def ident_char_def IDENT_CHARS_def py_isspace_def)

lemma punct_facts: "\<not> py_isspace c" "c \<noteq> CHR ''#''" "c \<noteq> quote" if "c \<in> set ''{}[]=,''"
  using that by (auto simp: py_isspace_def quote_def)

lemma read_string_text:
  "read_string pos (concat (map escape_char s) @ quote # rest) cs
     = Inr (cs @ s, pos + length (concat (map escape_char s)) + 1, rest)"
proof (induction s arbitrary: pos cs)
  case Nil
  have "quote \<noteq> backslash" by (simp add: quote_def backslash_def)
  then show ?case by simp
next
  case (Cons c s)
  have "quote \<noteq> backslash" by (simp add: quote_def backslash_def)
  with Cons show ?case by (auto simp: escape_char_def)
qed

lemma read_integer_text:
  assumes "int_ok n"
  shows "read_integer pos (int_text n @ CHR '' '' # rest) = Inr (n, pos + length (int_text n), CHR '' '' # rest)"
proof -
  let ?d = "nat_digits (nat \<bar>n\<bar>)"
  have hd: "hd ?d \<noteq> CHR ''-''" 
    using nat_digits_ascii [of "nat \<bar>n\<bar>"] hd_in_set [of ?d] by (force simp: ascii_digit_def)
  have d: "takeWhile py_isdigit (?d @ CHR '' '' # rest) = ?d"
    by (rule takeWhile_app) (auto simp: tail_space dest: ascii_digit_isdigit [OF bspec [OF nat_digits_ascii]])
  have v: "py_int_of_digits neg ?d = Inr (if neg then - int (nat \<bar>n\<bar>) else int (nat \<bar>n\<bar>))" for neg
    using assms nat_digits_ascii [of "nat \<bar>n\<bar>"] by (auto simp: py_int_of_digits_def int_ok_def digits_val_nat_digits)
  obtain a as where c: "?d = a # as" by (cases ?d) auto
  show ?thesis
  proof (cases "n < 0")
    case True
    then have "int_text n = CHR ''-'' # ?d" by (simp add: int_text_def)
    with True d v show ?thesis by (simp add: read_integer_def Let_def)
  next
    case False
    then have "int_text n = ?d" by (simp add: int_text_def)
    with False d v hd c show ?thesis by (simp add: read_integer_def Let_def)
  qed
qed

definition tokens_text :: "token_val list \<Rightarrow> string" where
  "tokens_text vs = concat (map (\<lambda>v. token_text v @ '' '') vs)"

lemma token_text_head:
  assumes "token_ok v"
  obtains ch rest where "token_text v = ch # rest" "\<not> py_isspace ch" "ch \<noteq> CHR ''#''"
proof (cases v)
  case (TIdent s)
  with assms obtain ch rest where "s = ch # rest" "ident_char ch"
    by (cases s) (auto simp: ident_ok_def)
  moreover from this have "\<not> py_isspace ch" "ch \<noteq> CHR ''#''"
    by (auto simp: ident_char_def IDENT_CHARS_def py_isspace_def)
  ultimately show ?thesis using that TIdent by simp
next
  case (TInt n)
  let ?d = "nat_digits (nat \<bar>n\<bar>)"
  obtain a as where d: "?d = a # as" by (cases ?d) auto
  then have "ascii_digit a" using nat_digits_ascii [of "nat \<bar>n\<bar>"] by simp
  then have "\<not> py_isspace a" "a \<noteq> CHR ''#''" by (auto simp: ascii_digit_def py_isspace_def Let_def)
  with d TInt that show ?thesis
    by (cases "n < 0") (auto simp: int_text_def py_isspace_def)
next
  case (TString s)
  then show ?thesis by (intro that [of quote]) (auto simp: string_text_def quote_def py_isspace_def)
next
  case (TPunct c)
  with assms that punct_facts [of c] show ?thesis by simp
qed

lemma next_token_text:
  assumes "token_ok v"
  shows "\<exists>t. tok_val t = v \<and> next_token pos (token_text v @ CHR '' '' # rest)
      = Inr (t, pos + length (token_text v), CHR '' '' # rest)"
proof (cases v)
  case (TIdent s)
  with assms obtain c cs where s: "s = c # cs" "list_all ident_char s" "\<not> py_isdigit c"
      "\<not> (c = CHR ''-'' \<and> cs \<noteq> [] \<and> py_isdigit (hd cs))"
    by (cases s) (auto simp: ident_ok_def)
  have tw: "takeWhile ident_char (s @ CHR '' '' # rest) = s"
    using s(2) by (intro takeWhile_app) (auto simp: tail_space list_all_iff)
  have ni: "c \<notin> set ''{}[]=,''" "c \<noteq> quote"
    using s by (auto simp: ident_char_def IDENT_CHARS_def quote_def)
  have dash: "\<not> (c = CHR ''-'' \<and> (case cs @ CHR '' '' # rest of d # _ \<Rightarrow> py_isdigit d | [] \<Rightarrow> False))"
    using s(4) by (cases cs) (auto simp: tail_space)
  have "next_token pos (s @ CHR '' '' # rest)
      = Inr (\<lparr>tok_val = TIdent s, tok_pos = pos\<rparr>, pos + length s, CHR '' '' # rest)"
    using s ni dash tw by (auto simp: read_ident_def Let_def)
  with TIdent show ?thesis by auto
next
  case (TInt n)
  let ?t = "int_text n @ CHR '' '' # rest"
  obtain c cs where d: "nat_digits (nat \<bar>n\<bar>) = c # cs" by (cases "nat_digits (nat \<bar>n\<bar>)") auto
  then have dig: "py_isdigit c" and a: "ascii_digit c"
    using nat_digits_ascii [of "nat \<bar>n\<bar>"] by (auto intro: ascii_digit_isdigit)
  from a have ni: "c \<notin> set ''{}[]=,''" "c \<noteq> quote" by (auto simp: ascii_digit_def quote_def)
  have "read_integer pos ?t = Inr (n, pos + length (int_text n), CHR '' '' # rest)"
    using assms TInt by (intro read_integer_text) simp
  then have "next_token pos ?t = Inr (\<lparr>tok_val = TInt n, tok_pos = pos\<rparr>, pos + length (int_text n), CHR '' '' # rest)"
    using d dig ni by (cases "n < 0") (auto simp: int_text_def quote_def)
  with TInt show ?thesis by auto
next
  case (TString s)
  have "quote \<notin> set ''{}[]=,''" by (simp add: quote_def)
  with TString show ?thesis
    by (auto simp: string_text_def read_string_text)
next
  case (TPunct c)
  with assms show ?thesis by auto
qed

lemma skip_text:
  "token_ok v \<Longrightarrow> skip_insignificant pos (CHR '' '' # token_text v @ rest) = (pos + 1, token_text v @ rest)"
  "token_ok v \<Longrightarrow> skip_insignificant pos (token_text v @ rest) = (pos, token_text v @ rest)"
  by (erule token_text_head, simp add: tail_space)+

lemma tokens_text_lexes:
  assumes "\<forall>v \<in> set vs. token_ok v"
  shows "\<exists>ts. map tok_val ts = vs \<and> tokens pos (tokens_text vs) = Inr ts"
    and "\<exists>ts. map tok_val ts = vs \<and> tokens pos (CHR '' '' # tokens_text vs) = Inr ts"
proof -
  have "\<exists>ts. map tok_val ts = vs \<and> tokens pos (pre @ tokens_text vs) = Inr ts"
    if pre: "pre = [] \<or> pre = '' ''" for pre pos
    using assms pre
  proof (induction vs arbitrary: pos pre)
    case Nil
    then show ?case by (auto simp: tokens_text_def tokens.simps [of pos "[]"] tokens.simps [of pos "'' ''"] tail_space)
  next
    case (Cons v vs)
    let ?rest = "tokens_text vs"
    have ok: "token_ok v" using Cons.prems by simp
    have tt: "tokens_text (v # vs) = token_text v @ CHR '' '' # ?rest"
      by (simp add: tokens_text_def)
    from ok obtain ch r where hd: "token_text v @ CHR '' '' # ?rest = ch # r"
      by (elim token_text_head) simp
    obtain p where p: "skip_insignificant pos (pre @ tokens_text (v # vs)) = (p, ch # r)"
      using Cons.prems(2) skip_text(1) [OF ok, of pos "CHR '' '' # ?rest"]
        skip_text(2) [OF ok, of pos "CHR '' '' # ?rest"]
      unfolding tt hd by (auto simp del: skip_insignificant.simps)
    obtain t where t: "tok_val t = v" "next_token p (ch # r)
        = Inr (t, p + length (token_text v), '' '' @ ?rest)"
      using next_token_text [OF ok, of p ?rest] hd by (auto simp del: next_token.simps)
    obtain ts where "map tok_val ts = vs"
        "tokens (p + length (token_text v)) ('' '' @ ?rest) = Inr ts"
      using Cons.IH [of "'' ''"] Cons.prems(1) by auto
    with p t show ?case by (intro exI [of _ "t # ts"]) (simp add: tokens.simps [of pos] del: next_token.simps)
  qed
  from this [of "[]"] this [of "'' ''"] show
    "\<exists>ts. map tok_val ts = vs \<and> tokens pos (tokens_text vs) = Inr ts"
    "\<exists>ts. map tok_val ts = vs \<and> tokens pos (CHR '' '' # tokens_text vs) = Inr ts"
    by auto
qed

text \<open>The tokens of a section: each assignment or nested block in turn.\<close>

fun item_token :: "array_item \<Rightarrow> token_val" where
  "item_token (AInt n) = TInt n"
| "item_token (AStr s) = TString s"

fun items_tokens :: "array_item list \<Rightarrow> token_val list" where
  "items_tokens [] = [TPunct (CHR '']'')]"
| "items_tokens [i] = [item_token i, TPunct (CHR '']'')]"
| "items_tokens (i # items) = item_token i # TPunct (CHR '','') # items_tokens items"

fun stmt_tokens :: "string \<Rightarrow> config_value \<Rightarrow> token_val list" where
  "stmt_tokens name (CInt n) = [TIdent name, TPunct (CHR ''=''), TInt n]"
| "stmt_tokens name (CStr s) = [TIdent name, TPunct (CHR ''=''), TString s]"
| "stmt_tokens name (CArray items) = [TIdent name, TPunct (CHR ''=''), TPunct (CHR ''['')] @ items_tokens items"
| "stmt_tokens name (CSection sec) = [TIdent name, TPunct (CHR ''{'')]
     @ concat (map (\<lambda>(n, v). stmt_tokens n v) sec) @ [TPunct (CHR ''}'')]"

definition section_tokens :: "config_section \<Rightarrow> token_val list" where
  "section_tokens sec = concat (map (\<lambda>(n, v). stmt_tokens n v) sec)"

fun value_ok :: "config_value \<Rightarrow> bool" where
  "value_ok (CInt n) = int_ok n"
| "value_ok (CStr s) = True"
| "value_ok (CArray items) = (\<forall>i \<in> set items. token_ok (item_token i))"
| "value_ok (CSection sec) = (distinct (map fst sec) \<and> (\<forall>(n, v) \<in> set sec. ident_ok n \<and> value_ok v))"

definition section_ok :: "config_section \<Rightarrow> bool" where
  "section_ok sec \<longleftrightarrow> distinct (map fst sec) \<and> (\<forall>(n, v) \<in> set sec. ident_ok n \<and> value_ok v)"

lemma items_tokens_ok:
  "\<forall>i \<in> set items. token_ok (item_token i) \<Longrightarrow> \<forall>t \<in> set (items_tokens items). token_ok t"
  by (induction items rule: items_tokens.induct) simp_all

lemma stmt_tokens_ok: "ident_ok n \<Longrightarrow> value_ok v \<Longrightarrow> \<forall>t \<in> set (stmt_tokens n v). token_ok t"
proof (induction n v rule: stmt_tokens.induct)
  case (3 name items)
  then have "\<forall>t \<in> set (items_tokens items). token_ok t" by (intro items_tokens_ok) simp
  with "3.prems" show ?case by simp
next
  case (4 name sec)
  have "\<forall>t \<in> set (stmt_tokens n v). token_ok t" if "(n, v) \<in> set sec" for n v
    using "4.IH" [OF that refl] "4.prems" that by fastforce
  with "4.prems" show ?case by auto
qed simp_all

lemma section_tokens_ok: "section_ok sec \<Longrightarrow> \<forall>t \<in> set (section_tokens sec). token_ok t"
  using stmt_tokens_ok by (fastforce simp: section_ok_def section_tokens_def)

lemma parse_array_loop_tokens:
  "map tok_val ts = items_tokens (i # items) \<Longrightarrow> parse_array_loop (ts @ rest) acc = Inr (acc @ i # items, rest)"
proof (induction items arbitrary: i ts acc)
  case Nil
  then obtain a b where "ts = [a, b]" "tok_val a = item_token i" "tok_val b = TPunct (CHR '']'')"
    by (auto simp: map_eq_Cons_conv)
  then show ?case by (cases i) auto
next
  case (Cons j items)
  then obtain a b us where "ts = a # b # us" "tok_val a = item_token i" "tok_val b = TPunct (CHR '','')"
      "map tok_val us = items_tokens (j # items)"
    by (auto simp: map_eq_Cons_conv)
  with Cons.IH [of us j "acc @ [i]"] show ?case by (cases i) auto
qed

lemma parse_array_tokens:
  assumes "map tok_val ts = items_tokens items"
  shows "parse_array (ts @ rest) = Inr (items, rest)"
proof (cases items)
  case Nil
  with assms show ?thesis by (auto simp: map_eq_Cons_conv)
next
  case (Cons i js)
  with assms obtain a us where "ts = a # us" "tok_val a = item_token i"
    by (cases js) (auto simp: map_eq_Cons_conv)
  moreover have "tok_val a \<noteq> TPunct (CHR '']'')" using calculation by (cases i) auto
  ultimately show ?thesis using parse_array_loop_tokens [of ts i js rest "[]"] assms Cons
    by (simp del: parse_array_loop.simps)
qed

text \<open>Parsing the tokens of a section appends it to what was parsed before.\<close>

lemma parse_statements_tokens:
  assumes "map tok_val ts = section_tokens sec" and "section_ok sec"
    and "fst ` set acc \<inter> fst ` set sec = {}"
    and "rest = [] \<or> tok_val (hd rest) = TPunct (CHR ''}'')"
  shows "parse_statements (ts @ rest) acc = Inr (acc @ sec, rest)"
  using assms
proof (induction "length ts" arbitrary: ts sec acc rest rule: less_induct)
  case less
  show ?case
  proof (cases sec)
    case Nil
    with less.prems show ?thesis
      by (cases rest) (auto simp: section_tokens_def parse_statements.simps)
  next
    case (Cons nv sec')
    obtain name v where nv: "nv = (name, v)" by force
    have ok: "ident_ok name" "value_ok v" "section_ok sec'" "name \<notin> fst ` set sec'"
      and fresh: "name \<notin> fst ` set acc" "fst ` set (acc @ [(name, v)]) \<inter> fst ` set sec' = {}"
      using less.prems(2,3) Cons nv by (auto simp: section_ok_def)
    from less.prems(1) Cons nv obtain us ws where ts: "ts = us @ ws"
        "map tok_val us = stmt_tokens name v" "map tok_val ws = section_tokens sec'"
      by (auto simp: section_tokens_def map_eq_append_conv)
    have shorter: "length ws < length ts" using ts by (cases v) auto
    have rest: "parse_statements (ws @ rest) (acc @ [(name, v)]) = Inr (acc @ sec, rest)"
      using less.hyps [OF shorter ts(3) ok(3) fresh(2) less.prems(4)] Cons nv by simp
    have set: "dict_set name v acc = acc @ [(name, v)]" using fresh(1) by (rule dict_set_new)
    show ?thesis
    proof (cases "\<exists>sub. v = CSection sub")
      case False
      then obtain a b vs where us: "us = a # b # vs" "tok_val a = TIdent name" "tok_val b = TPunct (CHR ''='')"
          "parse_value (vs @ ws @ rest) = Inr (v, ws @ rest)"
        using ts(2) by (cases v) (auto simp: map_eq_Cons_conv parse_array_tokens)
      then show ?thesis using rest set ts(1)
        by (simp add: parse_statements.simps)
    next
      case True
      then obtain sub where sub: "v = CSection sub" ..
      then obtain a b bs e where us: "us = a # b # bs @ [e]" "tok_val a = TIdent name"
          "tok_val b = TPunct (CHR ''{'')" "map tok_val bs = section_tokens sub" "tok_val e = TPunct (CHR ''}'')"
        using ts(2) by (auto simp: map_eq_Cons_conv map_eq_append_conv section_tokens_def)
      have "parse_statements (bs @ e # ws @ rest) [] = Inr ([] @ sub, e # ws @ rest)"
        using ok(2) sub us ts(1) by (intro less.hyps) (auto simp: section_ok_def)
      then show ?thesis using rest set ts(1) us sub
        by (simp add: parse_statements.simps)
    qed
  qed
qed

definition document_text :: "config_section \<Rightarrow> string" where
  "document_text sec = tokens_text (section_tokens sec)"

lemma parse_document_text: "section_ok sec \<Longrightarrow> parse_config_text (document_text sec) = Inr sec"
proof -
  assume ok: "section_ok sec"
  from tokens_text_lexes(1) [OF section_tokens_ok [OF ok], of 0] obtain ts where ts: "map tok_val ts = section_tokens sec"
      "tokens 0 (document_text sec) = Inr ts"
    by (auto simp: document_text_def)
  then have "parse_statements ts [] = Inr (sec, [])"
    using parse_statements_tokens [OF ts(1) ok, of "[]" "[]"] by simp
  with ts show ?thesis by (simp add: parse_config_text_def parse_document_def)
qed

end
