(* ===== verification/Lvm_Image.thy ===== *)
theory Lvm_Image
  imports Volume_Access Lvm_Print
begin

section \<open>A whole physical volume, written and read back\<close>

text \<open>
  What LVM2 writes for a volume group on one physical volume, as a specification: the
  metadata document of the object model, its text, and the image with label, physical
  volume header, metadata area header and text. Reading such an image through any exact
  reader gives the object model back (\<open>parse_pv_image\<close>).
\<close>

subsection \<open>The document of a volume group\<close>

definition pv_document :: "physical_volume \<Rightarrow> string \<times> config_value" where
  "pv_document pv = (pv_name pv, CSection [(''id'', CStr (pv_id pv)),
     (''dev_size'', CInt (device_size_bytes pv div 512)), (''pe_start'', CInt (pe_start_bytes pv div 512)),
     (''pe_count'', CInt (pv_extent_count pv))])"

definition segment_document :: "linear_segment \<Rightarrow> config_section" where
  "segment_document s = [(''start_extent'', CInt (start_extent s)), (''extent_count'', CInt (extent_count s)),
     (''type'', CStr ''striped''), (''stripe_count'', CInt 1),
     (''stripes'', CArray [AStr (physical_volume_name s), AInt (start_physical_extent s)])]"

definition lv_document :: "logical_volume \<Rightarrow> string \<times> config_value" where
  "lv_document lv = (lv_name lv, CSection ([(''id'', CStr (lv_id lv)),
     (''segment_count'', CInt (int (length (lv_segments lv))))]
     @ map (\<lambda>(i, s). (segment_key i, CSection (segment_document s)))
         (zip [1..int (length (lv_segments lv))] (lv_segments lv))))"

definition vg_document :: "volume_group \<Rightarrow> config_section" where
  "vg_document vg = [(vg_name vg, CSection [(''id'', CStr (vg_id vg)),
     (''extent_size'', CInt (vg_extent_size_bytes vg div 512)),
     (''physical_volumes'', CSection (map pv_document (physical_volumes vg))),
     (''logical_volumes'', CSection (map lv_document (logical_volumes vg)))])]"

text \<open>The sizes the document records in sectors are whole sectors.\<close>

definition sector_aligned :: "volume_group \<Rightarrow> bool" where
  "sector_aligned vg \<longleftrightarrow> (\<forall>pv \<in> set (physical_volumes vg). device_size_bytes pv mod 512 = 0 \<and> pe_start_bytes pv mod 512 = 0)"

lemma build_physical_volume_document:
  assumes "pv_wf ext pv" "device_size_bytes pv mod 512 = 0" "pe_start_bytes pv mod 512 = 0"
  shows "build_physical_volume ext (pv_document pv) = Inr pv"
proof -
  have "0 < device_size_bytes pv div 512" "\<not> pe_start_bytes pv div 512 < 0"
    using assms by (auto simp: pv_wf_def)
  moreover have "device_size_bytes pv div 512 * 512 = device_size_bytes pv"
    "pe_start_bytes pv div 512 * 512 = pe_start_bytes pv"
    using assms(2,3) div_mult_mod_eq [of _ "512 :: int"] by (metis add.right_neutral)+
  ultimately show ?thesis using assms(1)
    by (simp add: pv_document_def require_defs pv_wf_def SECTOR_SIZE_def)
qed

lemma build_linear_segment_document:
  "segment_wf names s \<Longrightarrow> build_linear_segment (segment_document s) names = Inr s"
  by (simp add: build_linear_segment_def segment_document_def require_defs segment_wf_def)

lemma segment_key_inj: "0 \<le> i \<Longrightarrow> 0 \<le> j \<Longrightarrow> segment_key i = segment_key j \<longleftrightarrow> i = j"
proof -
  assume ij: "0 \<le> i" "0 \<le> j"
  have "nat_digits m = nat_digits n \<longleftrightarrow> m = n" for m n
    using digits_val_nat_digits by (metis of_nat_eq_iff)
  with ij show ?thesis by (simp add: segment_key_def eq_nat_nat_iff)
qed

lemma segment_key_fresh: "segment_key i \<noteq> ''id''" "segment_key i \<noteq> ''segment_count''"
proof -
  show "segment_key i \<noteq> ''id''" by (simp add: segment_key_def)
  have "hd (nat_digits (nat i)) \<in> set (nat_digits (nat i))" by simp
  then have "ascii_digit (hd (nat_digits (nat i)))" using nat_digits_ascii by blast
  then show "segment_key i \<noteq> ''segment_count''"
    by (cases "nat_digits (nat i)") (auto simp: segment_key_def ascii_digit_def)
qed

lemma map_of_numbered:
  assumes "a \<le> i" "i < a + int (length xs)" "0 \<le> a"
  shows "map_of (map (\<lambda>(i, s). (segment_key i, f s)) (zip [a..a + int (length xs) - 1] xs)) (segment_key i)
    = Some (f (xs ! nat (i - a)))"
  using assms
proof (induction xs arbitrary: a)
  case (Cons x xs)
  have "[a..a + int (length (x # xs)) - 1] = a # [a + 1..a + 1 + int (length xs) - 1]"
    by (subst upto_rec1) (auto simp: algebra_simps)
  moreover have "nat (i - a) = Suc (nat (i - (a + 1)))" if "a \<noteq> i" using that Cons.prems by auto
  ultimately show ?case using Cons.IH [of "a + 1"] Cons.prems by (auto simp: segment_key_inj)
qed simp

lemma build_logical_volume_document:
  assumes "lv_wf names lv"
  shows "build_logical_volume_entry names (lv_document lv) = Inr lv"
proof -
  let ?ss = "lv_segments lv" and ?n = "int (length (lv_segments lv))"
  define body where "body = [(''id'', CStr (lv_id lv)), (''segment_count'', CInt ?n)]
     @ map (\<lambda>(i, s). (segment_key i, CSection (segment_document s))) (zip [1..?n] ?ss)"
  have ss: "\<forall>s \<in> set ?ss. segment_wf names s" "contiguous_from 0 ?ss" "?ss \<noteq> []"
    using assms by (auto simp: lv_wf_def)
  have seg: "build_segment body names i = Inr (?ss ! nat (i - 1))" if "i \<in> set [1..?n]" for i
    using that ss(1) map_of_numbered [of 1 i ?ss "\<lambda>s. CSection (segment_document s)"] segment_key_fresh [of i]
    by (auto simp: build_segment_def body_def build_linear_segment_document)
  have "res_map (build_segment body names) [1..?n] = Inr (map (\<lambda>i. ?ss ! nat (i - 1)) [1..?n])"
    using seg by (rule res_map_Inr)
  also have "map (\<lambda>i. ?ss ! nat (i - 1)) [1..?n] = ?ss" by (rule nth_equalityI) auto
  finally have "res_map (build_segment body names) [1..?n] = Inr ?ss" .
  moreover have "sort_key start_extent ?ss = ?ss"
    using contiguous_sort_key ss by (auto simp: segment_wf_def)
  ultimately show ?thesis using ss
    by (simp add: lv_document_def build_logical_volume_def require_defs body_def [symmetric] Let_def)
      (simp add: body_def)
qed

lemma build_volume_group_document:
  assumes "vg_wf vg" "sector_aligned vg"
  shows "build_volume_group (vg_document vg) (vg_metadata_area vg) = Inr vg"
proof -
  let ?ext = "vg_extent_size_bytes vg"
  have "res_map (build_physical_volume ?ext) (map pv_document (physical_volumes vg))
      = Inr (physical_volumes vg)"
    using assms by (auto simp: vg_wf_def sector_aligned_def res_map_eq_Inr list_all2_map1
        build_physical_volume_document intro!: list.rel_refl_strong)
  moreover have "res_map (build_logical_volume_entry (pv_name ` set (physical_volumes vg)))
      (map lv_document (logical_volumes vg)) = Inr (logical_volumes vg)"
    using assms by (auto simp: vg_wf_def res_map_eq_Inr list_all2_map1
        build_logical_volume_document intro!: list.rel_refl_strong)
  moreover have "0 < ?ext div 512" "?ext div 512 * 512 = ?ext" "physical_volumes vg \<noteq> []" "logical_volumes vg \<noteq> []"
    using assms(1) by (auto simp: vg_wf_def)
  ultimately show ?thesis
    by (simp add: build_volume_group_def find_volume_group_section_def vg_document_def map_filter_simps
        require_defs build_physical_volumes_def build_logical_volumes_def SECTOR_SIZE_def Let_def)
qed

subsection \<open>The image\<close>

definition label_bytes :: "nat \<Rightarrow> bytes" where
  "label_bytes k = bytes_of ''LABELONE'' @ le_bytes 8 k @ le_bytes 4 0 @ le_bytes 4 32 @ bytes_of ''LVM2 001''"

definition text_location :: "bytes \<Rightarrow> raw_location" where
  "text_location txt = \<lparr>rl_offset_bytes = 512, rl_size_bytes = length txt,
     rl_checksum = lvm_weak_crc32 txt, rl_ignored = False\<rparr>"

text \<open>
  Zero sectors up to the label sector \<open>k\<close>; label and physical volume header; zeros up to
  the metadata area at \<open>start\<close>; its header and the text.
\<close>

definition pv_image :: "nat \<Rightarrow> bytes \<Rightarrow> nat \<Rightarrow> nat \<Rightarrow> nat \<Rightarrow> bytes \<Rightarrow> bytes" where
  "pv_image k uuid dev_size start sz txt =
     replicate (512 * k) 0 @ label_bytes k
     @ encode_pv_header uuid dev_size [] [\<lparr>dl_offset_bytes = start, dl_size_bytes = sz\<rparr>]
     @ replicate (start - 512 * k - 120) 0
     @ encode_mda_header start sz [text_location txt] @ txt"

lemma length_label_bytes [simp]: "length (label_bytes k) = 32"
  by (simp add: label_bytes_def)

lemma length_encode_mda_header: "length ls \<le> 19 \<Longrightarrow> length (encode_mda_header start sz ls) = 512"
  by (simp add: encode_mda_header_def mda_body_def)

lemma length_encode_pv_header [simp]:
  "length uuid = 32 \<Longrightarrow> length (encode_pv_header uuid d das mdas) = 72 + 16 * length das + 16 * length mdas"
  by (simp add: encode_pv_header_def)

lemma parse_label_header_encode:
  assumes "k < 2 ^ 64" "480 \<le> length post"
  shows "parse_label_header (slice (label_bytes k @ post) 0 512) k = Inr \<lparr>label_sector = k, pv_header_offset = 32\<rparr>"
proof -
  have "slice (label_bytes k @ post) 0 512 = label_bytes k @ take 480 post" by (simp add: slice_def)
  moreover have "slice (label_bytes k @ p) 0 8 = bytes_of ''LABELONE''" "le_uint (slice (label_bytes k @ p) 8 16) = k"
    "le_uint (slice (label_bytes k @ p) 20 24) = 32" "slice (label_bytes k @ p) 24 32 = bytes_of ''LVM2 001''" for p
    using assms(1) by (simp_all add: label_bytes_def slice_def le_uint_le_bytes)
  ultimately show ?thesis by (simp add: parse_label_header_def)
qed

lemma parse_label_zero_sector: "512 \<le> length s \<Longrightarrow> \<forall>b \<in> set s. b = 0 \<Longrightarrow> parse_label_header s n = Inl InvalidLabelError"
proof -
  assume s: "512 \<le> length s" "\<forall>b \<in> set s. b = 0"
  then have "hd (slice s 0 8) = 0" by (cases s) (auto simp: slice_def)
  moreover have "hd (bytes_of ''LABELONE'') \<noteq> 0" by (simp add: bytes_of_def)
  ultimately have "slice s 0 8 \<noteq> bytes_of ''LABELONE''" by metis
  with s show ?thesis by (simp add: parse_label_header_def)
qed

lemma parse_label_image:
  assumes "k < 4" "2048 \<le> 512 * k + 32 + length post"
  shows "parse_label (slice (replicate (512 * k) 0 @ label_bytes k @ post) 0 2048)
    = Inr \<lparr>label_sector = k, pv_header_offset = 32\<rparr>"
proof -
  let ?img = "replicate (512 * k) 0 @ label_bytes k @ post"
  have sec: "sector_of (slice ?img 0 2048) j = slice ?img (512 * j) (512 * j + 512)" if "j < 4" for j
    using that slice_slice [of 0 "512 * j + 512" 2048 ?img "512 * j"] by (simp add: SECTOR_SIZE_def mult.commute)
  have "slice ?img (512 * k) (512 * k + 512) = slice (label_bytes k @ post) 0 512"
    by (simp add: slice_append_right)
  with sec [OF assms(1)] parse_label_header_encode [of k post] assms
  have hit: "parse_label_header (sector_of (slice ?img 0 2048) k) k = Inr \<lparr>label_sector = k, pv_header_offset = 32\<rparr>"
    by simp
  have miss: "parse_label_header (sector_of (slice ?img 0 2048) j) j = Inl InvalidLabelError" if "j < k" for j
  proof -
    have "slice ?img (512 * j) (512 * j + 512) = replicate 512 0"
      using that by (simp add: slice_append_left) (simp add: slice_def min_def)
    then show ?thesis using sec [of j] that assms(1) by (simp add: parse_label_zero_sector)
  qed
  have "Suc k * SECTOR_SIZE \<le> length (slice ?img 0 2048)"
    using assms by (simp add: SECTOR_SIZE_def length_slice)
  with hit miss assms(1) show ?thesis
    by (auto simp: parse_label_def parse_label_loop_iff LABEL_SCAN_SECTORS_def)
qed

text \<open>The metadata text is ASCII and does not end in NUL.\<close>

definition text_ok :: "string \<Rightarrow> bool" where
  "text_ok t \<longleftrightarrow> list_all (\<lambda>c. code_point c < 128) t \<and> (t \<noteq> [] \<longrightarrow> last t \<noteq> CHR 0x00)"

lemma decode_metadata_text_ascii:
  assumes "text_ok t"
  shows "decode_metadata_text (bytes_of t) = Inr t"
proof -
  have b: "map unat (bytes_of t) = map of_char t"
    by (auto simp: bytes_of_def unat_of_nat take_bit_eq_mod intro!: mod_less)
  have lt: "\<forall>n \<in> set (map of_char t). n < (128 :: nat)" using assms by (simp add: text_ok_def list_all_iff)
  have "py_rstrip (\<lambda>c. c = CHR 0x00) t = t"
    using assms by (cases t rule: rev_cases) (auto simp: py_rstrip_def text_ok_def)
  moreover have "map (char_of \<circ> of_char) t = t" by (simp add: map_idI)
  ultimately show ?thesis using utf8_decode_ascii [OF lt] lt
    by (auto simp: decode_metadata_text_def b)
qed

context exact_reader
begin

text \<open>A read of a known part of the image.\<close>

lemma read_part:
  assumes "content = pre @ mid @ post" "off = int (length pre)" "n = int (length mid)"
  shows "rd off n = Inr mid"
  using read_within [of off n] slice_at [of "length pre" pre "length pre + length mid" mid post] assms
  by (simp add: nat_add_distrib)

lemma parse_image:
  assumes content: "content = pv_image k uuid dev_size start sz (bytes_of (document_text doc)) @ rest"
    and k: "k < 4" and uuid: "length uuid = 32" "format_lvm_uuid uuid = Inr u" and dev: "dev_size < 2 ^ 64"
    and start: "4096 \<le> start" "start < 2 ^ 64" and sz: "512 + length (document_text doc) \<le> sz" "sz < 2 ^ 64"
    and doc: "section_ok doc" "text_ok (document_text doc)"
    and vg: "build_volume_group doc \<lparr>header_offset_bytes = start, area_size_bytes = sz,
        metadata_text_offset_bytes = start + 512, metadata_text_size_bytes = length (document_text doc)\<rparr> = Inr vg"
    and pv: "find (\<lambda>pv. pv_id pv = u) (physical_volumes vg) = Some pv"
  shows "parse_physical_volume_metadata rd = Inr \<lparr>pvm_physical_volume = pv, pvm_volume_group = vg\<rparr>"
proof -
  let ?txt = "bytes_of (document_text doc)"
  let ?hdr = "encode_pv_header uuid dev_size [] [\<lparr>dl_offset_bytes = start, dl_size_bytes = sz\<rparr>]"
  let ?mda = "encode_mda_header start sz [text_location ?txt]"
  let ?pad = "replicate (start - 512 * k - 120) (0 :: byte)"
  have img: "content = replicate (512 * k) 0 @ label_bytes k @ ?hdr @ ?pad @ ?mda @ ?txt @ rest"
    by (simp add: content pv_image_def)
  have ml: "length ?mda = 512" by (simp add: length_encode_mda_header)
  have len: "int (length content) \<ge> int start + 512" using k start uuid ml by (simp add: img)
  have r1: "rd 0 2048 = Inr (slice content 0 2048)" using len start read_within [of 0 2048] by simp
  have p1: "parse_label (slice content 0 2048) = Inr \<lparr>label_sector = k, pv_header_offset = 32\<rparr>"
    unfolding img using parse_label_image [OF k] k start uuid ml by simp
  have "rd (512 * int k + 32) 1024 = Inr (slice content (512 * k + 32) (512 * k + 32 + 1024))"
    using len start k read_within [of "512 * int k + 32" 1024] by (simp add: nat_add_distrib nat_mult_distrib)
  also have "slice content (512 * k + 32) (512 * k + 32 + 1024) = ?hdr @ slice (?pad @ ?mda @ ?txt @ rest) 0 936"
    unfolding img using uuid by (simp add: slice_def)
  finally have r2: "rd (512 * int k + 32) 1024 = Inr (?hdr @ slice (?pad @ ?mda @ ?txt @ rest) 0 936)" .
  have r3: "rd (int start) 512 = Inr ?mda"
    by (rule read_part [of "replicate (512 * k) 0 @ label_bytes k @ ?hdr @ ?pad" ?mda "?txt @ rest"])
      (use k start uuid ml in \<open>simp_all add: img\<close>)
  have r4: "rd (int start + 512) (int (length (document_text doc))) = Inr ?txt"
    by (rule read_part [of "replicate (512 * k) 0 @ label_bytes k @ ?hdr @ ?pad @ ?mda" ?txt rest])
      (use k start uuid ml in \<open>simp_all add: img\<close>)
  have p2: "parse_pv_header (?hdr @ slice (?pad @ ?mda @ ?txt @ rest) 0 936) = Inr \<lparr>pvh_uuid = u,
      pvh_device_size_bytes = dev_size, data_areas = [], metadata_areas = [\<lparr>dl_offset_bytes = start, dl_size_bytes = sz\<rparr>]\<rparr>"
    using uuid dev start sz by (intro parse_pv_header_encode) (auto simp: disk_location_ok_def)
  have p3: "parse_mda_header ?mda = Inr \<lparr>mda_start_bytes = start, mda_size_bytes = sz, mda_locations = [text_location ?txt]\<rparr>"
    using start sz weak_crc32_bound [of ?txt]
    by (intro parse_mda_header_encode) (auto simp: raw_location_ok_def text_location_def)
  show ?thesis
    unfolding parse_physical_volume_metadata_def
    using r1 p1 r2 p2 r3 p3 r4 sz doc vg pv
    by (simp add: lvm_consts PV_HEADER_READ_SIZE_def Let_def select_active_location_def text_location_def
        verify_metadata_text_checksum_def decode_metadata_text_ascii parse_document_text mult.commute)
qed

end

end
