(* ===== verification/Lvm_Properties.thy ===== *)
theory Lvm_Properties
  imports Lvm_Image
begin

section \<open>What the disk image layer guarantees\<close>

text \<open>
  The properties of the LVM2 parser, the logical volume reader and the readers below
  them, each with a concrete instance. \<open>example_vg\<close> is the group the instances use: one
  physical volume with two extents of 512 bytes, one logical volume that holds them in
  reverse order.
\<close>

definition example_vg :: volume_group where
  "example_vg = \<lparr>vg_name = ''vg0'', vg_id = ''g'', vg_extent_size_bytes = 512,
     physical_volumes = [\<lparr>pv_name = ''pv0'', pv_id = ''aaaaaa-aaaa-aaaa-aaaa-aaaa-aaaa-aaaaaa'',
       device_size_bytes = 1536, pv_extent_size_bytes = 512, pe_start_bytes = 512, pv_extent_count = 2\<rparr>],
     logical_volumes = [\<lparr>lv_name = ''root'', lv_id = ''r'', lv_segments =
       [\<lparr>start_extent = 0, extent_count = 1, physical_volume_name = ''pv0'', start_physical_extent = 1\<rparr>,
        \<lparr>start_extent = 1, extent_count = 1, physical_volume_name = ''pv0'', start_physical_extent = 0\<rparr>]\<rparr>],
     vg_metadata_area = \<lparr>header_offset_bytes = 4096, area_size_bytes = 8192,
       metadata_text_offset_bytes = 4608, metadata_text_size_bytes = 413\<rparr>\<rparr>"

lemma example_vg_wf: "vg_wf example_vg"
  by (simp add: example_vg_def vg_wf_def pv_wf_def lv_wf_def segment_wf_def)

lemma example_on_disk:
  "lv_on_disk example_vg (hd (logical_volumes example_vg)) (replicate 512 1 @ replicate 512 2 @ replicate 512 3)"
  by (simp add: lv_on_disk_def example_vg_def lv_wf_def segment_wf_def segment_physical_offset_def pvs_by_name_def)

lemma example_read:
  "\<exists>r. LogicalVolumeReader (hd (logical_volumes example_vg)) example_vg
        (file_read (replicate 512 1 @ replicate 512 2 @ replicate 512 3)) = Inr r
    \<and> lv_read r 510 4 = Some (Inr [3, 3, 2, 2])"
proof -
  let ?lv = "hd (logical_volumes example_vg)" and ?disk = "replicate 512 1 @ replicate 512 2 @ replicate 512 (3 :: byte)"
  have c: "lv_content example_vg ?lv ?disk = replicate 512 3 @ replicate 512 2"
    by (simp add: lv_content_def segment_bytes_def example_vg_def segment_physical_offset_def pvs_by_name_def slice_def)
  obtain r where r: "LogicalVolumeReader ?lv example_vg (file_read ?disk) = Inr r" "r_size_bytes r = 1024"
    using LogicalVolumeReader_wf [of example_vg ?lv] example_on_disk length_lv_content [OF example_on_disk]
    unfolding lv_on_disk_def c by fastforce
  have "slice (replicate 512 3 @ replicate 512 (2 :: byte)) 510 514 = [3, 3, 2, 2]"
    by (simp add: slice_def numeral_eq_Suc)
  with r image_file.lv_read_content [OF example_on_disk r(1), of 510 4] c show ?thesis by auto
qed

text \<open>The label scan accepts exactly the first of the four leading sectors that holds a complete, valid label header recording its own sector number.\<close>

theorem label_scan_first_valid:
  "parse_label fs = Inr l \<longleftrightarrow>
   (\<exists>k < 4. Suc k * 512 \<le> length fs \<and> parse_label_header (slice fs (k * 512) (k * 512 + 512)) k = Inr l
      \<and> (\<nexists>j l'. j < k \<and> parse_label_header (slice fs (j * 512) (j * 512 + 512)) j = Inr l'))"
proof -
  have "parse_label_header s n = Inl InvalidLabelError \<longleftrightarrow> (\<nexists>l'. parse_label_header s n = Inr l')" for s n
    by (cases "parse_label_header s n") (auto dest: parse_label_header_error)
  then show ?thesis by (simp add: parse_label_def parse_label_loop_iff lvm_consts)
qed

text \<open>C38: Changing any single byte of an accepted 512-byte metadata area header makes the parser reject it.\<close>

theorem mda_header_detects_corruption:
  assumes "parse_mda_header h = Inr m" and "i < 512" and "b \<noteq> h ! i"
  shows "\<exists>e. parse_mda_header (h[i := b]) = Inl e"
  using parse_mda_header_corrupt_byte assms by (simp add: MDA_HEADER_SIZE_def)

theorem mda_header_detects_corruption_witness:
  "\<exists>e. parse_mda_header ((encode_mda_header 4096 1024 [\<lparr>rl_offset_bytes = 512, rl_size_bytes = 3,
     rl_checksum = 9, rl_ignored = False\<rparr>])[100 := 7]) = Inl e"
proof (rule mda_header_detects_corruption)
  show "parse_mda_header (encode_mda_header 4096 1024 [\<lparr>rl_offset_bytes = 512, rl_size_bytes = 3,
     rl_checksum = 9, rl_ignored = False\<rparr>]) = Inr \<lparr>mda_start_bytes = 4096, mda_size_bytes = 1024,
       mda_locations = [\<lparr>rl_offset_bytes = 512, rl_size_bytes = 3, rl_checksum = 9, rl_ignored = False\<rparr>]\<rparr>"
    by (rule parse_mda_header_encode) (simp_all add: raw_location_ok_def)
qed (simp_all add: encode_mda_header_def mda_body_def encode_raw_location_def nth_append)

text \<open>Changing any single byte of metadata text whose checksum matches makes the checksum verification raise MalformedMetadataTextError.\<close>

theorem metadata_text_detects_corruption:
  assumes "verify_metadata_text_checksum t c = Inr ()" and "i < length t" and "b \<noteq> t ! i"
  shows "verify_metadata_text_checksum (t[i := b]) c = Inl MalformedMetadataTextError"
  using verify_checksum_corrupt_byte assms .

theorem metadata_text_detects_corruption_witness:
  "verify_metadata_text_checksum ((bytes_of ''vg0 {'')[2 := 49]) (lvm_weak_crc32 (bytes_of ''vg0 {''))
     = Inl MalformedMetadataTextError"
  by (rule metadata_text_detects_corruption)
    (simp_all add: verify_metadata_text_checksum_def bytes_of_def)

text \<open>C37: Tokenizing and parsing the printed text of any printable configuration document gives the document back.\<close>

theorem metadata_text_roundtrip:
  assumes "section_ok sec"
  shows "parse_config_text (document_text sec) = Inr sec"
  using parse_document_text [OF assms] .

theorem metadata_text_roundtrip_witness:
  "parse_config_text (document_text [(''vg0'', CSection [(''id'', CStr ''a''), (''seqno'', CInt (-7)),
     (''status'', CArray [AStr ''RESIZEABLE'', AInt 3])])])
   = Inr [(''vg0'', CSection [(''id'', CStr ''a''), (''seqno'', CInt (-7)),
     (''status'', CArray [AStr ''RESIZEABLE'', AInt 3])])]"
  by (rule metadata_text_roundtrip)
    (simp add: section_ok_def ident_ok_def ident_char_def IDENT_CHARS_def py_isdigit_def int_ok_def nat_digits.simps)

text \<open>C39: A volume group the parser returns is well formed: positive extents, whole sectors, every extent map contiguous from extent 0, every segment on a declared physical volume.\<close>

theorem parsed_volume_group_wf:
  assumes "build_volume_group doc area = Inr vg"
  shows "vg_wf vg"
  using build_volume_group_vg_wf [OF assms] .

theorem parsed_volume_group_wf_witness: "vg_wf example_vg"
proof (rule parsed_volume_group_wf)
  show "build_volume_group (vg_document example_vg) (vg_metadata_area example_vg) = Inr example_vg"
    by (rule build_volume_group_document [OF example_vg_wf])
      (simp add: example_vg_def sector_aligned_def)
qed

text \<open>Parsing a physical volume raises only the package's LVMMetadataError classes, what the byte reader raised, UnicodeDecodeError or ValueError.\<close>

theorem parser_exceptions:
  assumes "parse_physical_volume_metadata rd = Inl e"
  shows "is_LVMMetadataError e \<or> e \<in> {UnicodeDecodeError, ValueError, NonLatin1Text} \<or> (\<exists>off n. rd off n = Inl e)"
  using parse_physical_volume_metadata_error [OF assms] .

theorem parser_exceptions_witness:
  "is_LVMMetadataError InvalidLabelError \<or> InvalidLabelError \<in> {UnicodeDecodeError, ValueError, NonLatin1Text}
    \<or> (\<exists>off n. file_read [] off n = Inl InvalidLabelError)"
  by (rule parser_exceptions)
    (simp add: parse_physical_volume_metadata_def file_read_def parse_label_def lvm_consts slice_def upt_rec)

text \<open>C1: Refinement of the logical volume reader: over any exact physical reader construction succeeds and a read returns exactly the requested range of the concatenated segments, or InvalidReadRequestError when the range is not inside the volume.\<close>

theorem logical_volume_read_exact:
  assumes "exact_reader rd disk" and "lv_on_disk vg lv disk"
  shows "\<exists>r. LogicalVolumeReader lv vg rd = Inr r \<and> (\<forall>off n. lv_read r off n =
    Some (if off < 0 \<or> n < 0 \<or> off + n > int (length (lv_content vg lv disk)) then Inl InvalidReadRequestError
          else Inr (slice (lv_content vg lv disk) (nat off) (nat (off + n)))))"
proof -
  from assms(2) obtain r where r: "LogicalVolumeReader lv vg rd = Inr r"
      "r_size_bytes r = int (length (lv_content vg lv disk))"
    using LogicalVolumeReader_wf length_lv_content [OF assms(2)] unfolding lv_on_disk_def by metis
  with exact_reader.lv_read_content [OF assms r(1)] show ?thesis by auto
qed

theorem logical_volume_read_exact_witness:
  "\<exists>r. LogicalVolumeReader (hd (logical_volumes example_vg)) example_vg
        (file_read (replicate 512 1 @ replicate 512 2 @ replicate 512 3)) = Inr r
    \<and> lv_read r 510 4 = Some (Inr [3, 3, 2, 2])"
proof -
  have c: "lv_content example_vg (hd (logical_volumes example_vg)) (replicate 512 1 @ replicate 512 2 @ replicate 512 3)
      = replicate 512 3 @ replicate 512 2"
    by (simp add: lv_content_def segment_bytes_def example_vg_def segment_physical_offset_def pvs_by_name_def slice_def)
  have "slice (replicate 512 3 @ replicate 512 (2 :: byte)) 510 514 = [3, 3, 2, 2]"
    by (simp add: slice_def numeral_eq_Suc)
  with logical_volume_read_exact [OF image_file.exact_reader_axioms example_on_disk] c show ?thesis
    by auto
qed

text \<open>Whatever the volume and the physical reader, a logical volume read that returns has exactly the requested size.\<close>

theorem read_never_truncates:
  assumes "lv_read r off n = Some (Inr bs)"
  shows "int (length bs) = n"
  using lv_read_length [OF assms] by simp

text \<open>On a logical volume of a well-formed group every read ends, for any physical reader; it raises only InvalidReadRequestError, UnderlyingReadError or the exception the reader raised.\<close>

theorem read_returns:
  assumes "vg_wf vg" and "lv \<in> set (logical_volumes vg)"
  shows "\<exists>r. LogicalVolumeReader lv vg rd = Inr r \<and> (\<forall>off n. \<exists>res. lv_read r off n = Some res
    \<and> (\<forall>e. res = Inl e \<longrightarrow> e \<in> {InvalidReadRequestError, UnderlyingReadError} \<or> (\<exists>off n. rd off n = Inl e)))"
proof -
  have wf: "lv_wf (pv_name ` set (physical_volumes vg)) lv" "0 < vg_extent_size_bytes vg"
    using assms by (auto simp: vg_wf_def)
  from LogicalVolumeReader_wf [OF wf(1)] obtain r where r: "LogicalVolumeReader lv vg rd = Inr r" by blast
  with lv_read_returns [OF wf r] show ?thesis by blast
qed


theorem read_never_truncates_witness:
  "\<exists>r bs. lv_read r 510 4 = Some (Inr bs) \<and> int (length (bs :: bytes)) = 4"
  using example_read read_never_truncates by blast

theorem read_returns_witness:
  "\<exists>r. LogicalVolumeReader (hd (logical_volumes example_vg)) example_vg (\<lambda>off n. Inl (ReaderException ''OSError'')) = Inr r
    \<and> (\<exists>res. lv_read r 0 1 = Some res)"
  using read_returns [OF example_vg_wf, of "hd (logical_volumes example_vg)" "\<lambda>off n. Inl (ReaderException ''OSError'')"]
  by (fastforce simp: example_vg_def)

text \<open>C40: The EWF read cache is transparent for any sequence of reads: results are those of the uncached handle, and the cache stays consistent and within its bound.\<close>

theorem ewf_cache_transparent:
  assumes "cache_ok handle img"
  shows "fst (ewf_reads handle img reqs) = map (\<lambda>(off, n). handle off n) reqs
    \<and> cache_ok handle (snd (ewf_reads handle img reqs))"
  using ewf_reads_ok [OF assms] .

theorem ewf_cache_transparent_witness:
  "fst (ewf_reads (file_read [1, 2, 3]) \<lparr>ewf_size = 3, read_cache = []\<rparr> [(0, 2), (-1, 1), (0, 2), (1, 2)])
    = [Inr [1, 2], Inl (ReaderException ''OSError''), Inr [1, 2], Inr [2, 3]]"
proof -
  have "cache_ok (file_read [1, 2, 3]) \<lparr>ewf_size = 3, read_cache = []\<rparr>" by (simp add: cache_ok_def)
  from ewf_cache_transparent [OF this, of "[(0, 2), (-1, 1), (0, 2), (1, 2)]"] show ?thesis
    by (simp add: file_read_def slice_def)
qed

text \<open>Reading through the boot sector patch returns the image bytes with the patched range replaced and every other byte unchanged.\<close>

theorem boot_patch_exact:
  assumes "exact_reader inner content" "0 \<le> start" "start + int (length patch) \<le> int (length content)"
    and "0 \<le> off" "0 \<le> n" "off + n \<le> int (length content)"
  shows "boot_patched_read inner start patch off n
    = Inr (slice (slice_assign content (nat start) (nat start + length patch) patch) (nat off) (nat (off + n)))"
proof (rule exact_reader.read_within [OF boot_patched_exact [OF assms(1-3)] assms(4,5)])
  show "off + n \<le> int (length (slice_assign content (nat start) (nat start + length patch) patch))"
    using assms by (subst length_slice_assign) auto
qed

theorem boot_patch_exact_witness:
  "boot_patched_read (file_read [1, 2, 3, 4, 5, 6]) 2 [8, 9] 1 4 = Inr [2, 8, 9, 5]"
  using boot_patch_exact [OF image_file.exact_reader_axioms, of 2 "[8, 9]" "[1, 2, 3, 4, 5, 6]" 1 4]
  by (simp add: slice_assign_def slice_def numeral_eq_Suc)

text \<open>A repaired boot sector has 512 bytes, no longer looks repairable, and keeps bytes 3 to 509 of the original.\<close>

theorem boot_sector_repair:
  assumes "512 \<le> length blob"
  shows "length (repair_ntfs_boot_sector blob) = 512
    \<and> \<not> looks_like_repairable_ntfs_boot_sector (repair_ntfs_boot_sector blob)
    \<and> (\<forall>i. 3 \<le> i \<and> i < 510 \<longrightarrow> repair_ntfs_boot_sector blob ! i = blob ! i)"
proof -
  have "repair_ntfs_boot_sector blob ! i = blob ! i" if "3 \<le> i" "i < 510" for i
    using that repaired_slices(1,4) [OF assms] assms
      slice_nth [of "i - 3" "repair_ntfs_boot_sector blob" 3 510] slice_nth [of "i - 3" blob 3 510]
    by (simp add: length_slice)
  then show ?thesis using repaired_slices [OF assms]
    by (simp add: looks_like_repairable_ntfs_boot_sector_def)
qed

theorem boot_sector_repair_witness:
  "looks_like_repairable_ntfs_boot_sector ([0, 0, 0] @ bytes_of ''NTFS    '' @ replicate 501 0)
   \<and> \<not> looks_like_repairable_ntfs_boot_sector
       (repair_ntfs_boot_sector ([0, 0, 0] @ bytes_of ''NTFS    '' @ replicate 501 0))"
proof
  show "looks_like_repairable_ntfs_boot_sector ([0, 0, 0] @ bytes_of ''NTFS    '' @ replicate 501 0)"
    by (simp add: looks_like_repairable_ntfs_boot_sector_def NTFS_OEM_ID_def NTFS_JUMP_INSTRUCTION_def
        slice_def)
qed (use boot_sector_repair [of "[0, 0, 0] @ bytes_of ''NTFS    '' @ replicate 501 0"] in simp)

text \<open>The example group on an image, labelled in sector 1.\<close>

definition example_image :: bytes where
  "example_image = pv_image 1 (bytes_of ''aaaaaaaaaaaaaaaaaaaaaaaaaaaaaaaa'') 1536 4096 8192
     (bytes_of (document_text (vg_document example_vg)))"

lemma example_document:
  shows "section_ok (vg_document example_vg)"
    and "text_ok (document_text (vg_document example_vg))"
    and "length (document_text (vg_document example_vg)) = 413"
    and "sector_aligned example_vg"
  by (code_simp, code_simp, code_simp, simp add: example_vg_def sector_aligned_def)

lemma example_uuid:
  "format_lvm_uuid (bytes_of ''aaaaaaaaaaaaaaaaaaaaaaaaaaaaaaaa'') = Inr ''aaaaaa-aaaa-aaaa-aaaa-aaaa-aaaa-aaaaaa''"
proof -
  have "char_of (97 :: nat) = CHR ''a''" by code_simp
  then show ?thesis by (simp add: format_lvm_uuid_def decode_ascii_def slice_def bytes_of_def)
qed

lemma example_pv:
  "find (\<lambda>pv. pv_id pv = ''aaaaaa-aaaa-aaaa-aaaa-aaaa-aaaa-aaaaaa'') (physical_volumes example_vg)
     = Some (hd (physical_volumes example_vg))"
  "vg_metadata_area example_vg = \<lparr>header_offset_bytes = 4096, area_size_bytes = 8192,
     metadata_text_offset_bytes = 4096 + 512, metadata_text_size_bytes = 413\<rparr>"
  by (simp_all add: example_vg_def)

lemma example_image_parses:
  "parse_physical_volume_metadata (file_read example_image)
    = Inr \<lparr>pvm_physical_volume = hd (physical_volumes example_vg), pvm_volume_group = example_vg\<rparr>"
  using build_volume_group_document [OF example_vg_wf example_document(4)] example_document example_pv
  by (intro image_file.parse_image [of example_image 1 _ 1536 4096 8192 "vg_document example_vg" "[]", OF _ _ _ example_uuid])
    (simp_all add: example_image_def)



end
