(* ===== verification/Query_Fields.thy ===== *)
theory Query_Fields
  imports Prelude
begin

section \<open>The searchable fields\<close>

text \<open>
  \<^verbatim>\<open>search/query_syntax.py\<close>: the field table \<^verbatim>\<open>FIELD_SPECS\<close> with its update, the shortcuts
  \<^verbatim>\<open>FIELD_ALIASES\<close>, in source order, and the resolution of a field name. Errors of the
  query language carry what their message names.
\<close>

datatype field_kind = Keyword | Numeric | Date | TextKind

record field_spec =
  fs_path :: string
  fs_kind :: field_kind
  fs_wildcard :: bool
  fs_leading_wildcard :: bool

definition FieldSpec :: "string \<Rightarrow> field_kind \<Rightarrow> bool \<Rightarrow> bool \<Rightarrow> field_spec" where
  "FieldSpec p k w l = \<lparr>fs_path = p, fs_kind = k, fs_wildcard = w, fs_leading_wildcard = l\<rparr>"

text \<open>\<^verbatim>\<open>QuerySyntaxError\<close>, one constructor per message, and the exceptions let through
  (\<^verbatim>\<open>OverflowError\<close>, \<^verbatim>\<open>TypeError\<close>); \<open>OutOfFuel\<close> is the parser's fuel.\<close>

datatype query_error =
    UnclosedQuote nat
  | TooManyTokens nat
  | FieldNotSupported string
  | NearToken string nat
  | TooManyOrClauses nat
  | TooManyWildcardClauses nat
  | UnexpectedEnd
  | TooManyClauses nat
  | UnclosedParenthesis
  | MissingExpression
  | ExpectedColonAfterHas
  | ExpectedFieldAfterHas
  | NotNumeric string string
  | NotTimestamp string string
  | OperatorNotSupportedFor string string
  | OperatorNotSupported string
  | WildcardsNotSupported string
  | LeadingWildcardsNotSupported string
  | DateOverflowError
  | TypeErrorRaised
  | OutOfFuel

record parsed_field =
  pf_name :: string
  pf_specs :: "field_spec list"

definition FIELD_SPECS_table :: "(string \<times> field_spec) list" where
  "FIELD_SPECS_table =
   [(''@timestamp'', FieldSpec ''@timestamp'' Date False False),
    (''case_id'', FieldSpec ''case_id'' Keyword True False),
    (''evidence_id'', FieldSpec ''evidence_id'' Keyword True False),
    (''event_id'', FieldSpec ''event_id'' Keyword False False),
    (''stable_event_id'', FieldSpec ''stable_event_id'' Keyword True False),
    (''event_fingerprint'', FieldSpec ''event_fingerprint'' Keyword True False),
    (''host.name'', FieldSpec ''host.name'' Keyword True False),
    (''user.name'', FieldSpec ''user.name'' Keyword True False),
    (''user.sid'', FieldSpec ''user.sid'' Keyword True False),
    (''artifact.type'', FieldSpec ''artifact.type'' Keyword True False),
    (''artifact.parser'', FieldSpec ''artifact.parser'' Keyword True False),
    (''event.type'', FieldSpec ''event.type'' Keyword True False),
    (''event.action'', FieldSpec ''event.action'' Keyword True False),
    (''risk_score'', FieldSpec ''risk_score'' Numeric False False),
    (''windows.event_id'', FieldSpec ''windows.event_id'' Numeric False False),
    (''windows.channel'', FieldSpec ''windows.channel'' Keyword True True),
    (''windows.provider'', FieldSpec ''windows.provider'' Keyword True True),
    (''windows.logon_type'', FieldSpec ''windows.logon_type'' Keyword True False),
    (''windows.service_name'', FieldSpec ''windows.service_name'' Keyword True True),
    (''windows.task_name'', FieldSpec ''windows.task_name'' Keyword True True),
    (''severity'', FieldSpec ''severity'' Keyword True False),
    (''status'', FieldSpec ''status'' Keyword True False),
    (''process.name'', FieldSpec ''process.name'' Keyword True False),
    (''process.path'', FieldSpec ''process.path'' TextKind True True),
    (''process.command_line'', FieldSpec ''process.command_line'' TextKind True True),
    (''process.parent.name'', FieldSpec ''process.parent.name'' Keyword True False),
    (''process.parent.path'', FieldSpec ''process.parent.path'' TextKind True True),
    (''file.name'', FieldSpec ''file.name'' Keyword True True),
    (''file.path'', FieldSpec ''file.path'' TextKind True True),
    (''file.extension'', FieldSpec ''file.extension'' Keyword True True),
    (''file.size'', FieldSpec ''file.size'' Numeric False False),
    (''folder.path'', FieldSpec ''folder.path'' TextKind True True),
    (''registry.key_path'', FieldSpec ''registry.key_path'' TextKind True True),
    (''registry.value_name'', FieldSpec ''registry.value_name'' Keyword True False),
    (''registry.value_data'', FieldSpec ''registry.value_data'' TextKind True True),
    (''dns.domain'', FieldSpec ''dns.domain'' Keyword True True),
    (''url.full'', FieldSpec ''url.full'' TextKind True True),
    (''url.domain'', FieldSpec ''url.domain'' Keyword True True),
    (''source.ip'', FieldSpec ''source.ip'' Keyword False False),
    (''destination.ip'', FieldSpec ''destination.ip'' Keyword False False),
    (''network.direction'', FieldSpec ''network.direction'' Keyword True False),
    (''email.message_id'', FieldSpec ''email.message_id'' TextKind True True),
    (''email.subject'', FieldSpec ''email.subject'' TextKind True True),
    (''email.from.address'', FieldSpec ''email.from.address'' Keyword True True),
    (''email.from.domain'', FieldSpec ''email.from.domain'' Keyword True True),
    (''email.to.addresses'', FieldSpec ''email.to.addresses'' Keyword True True),
    (''email.attachments.file_name'', FieldSpec ''email.attachments.file_name'' Keyword True True),
    (''ntfs.reason'', FieldSpec ''ntfs.reason'' TextKind True True),
    (''ntfs.zone_id'', FieldSpec ''ntfs.zone_id'' Numeric False False),
    (''ntfs.host_url'', FieldSpec ''ntfs.host_url'' TextKind True True),
    (''ntfs.referrer_url'', FieldSpec ''ntfs.referrer_url'' TextKind True True),
    (''windows_search.indexed_path'', FieldSpec ''windows_search.indexed_path'' TextKind True True),
    (''notification.title'', FieldSpec ''notification.title'' TextKind True True),
    (''notification.body_preview'', FieldSpec ''notification.body_preview'' TextKind True True),
    (''office.alert_text'', FieldSpec ''office.alert_text'' TextKind True True),
    (''office.document_path'', FieldSpec ''office.document_path'' TextKind True True),
    (''rule.id'', FieldSpec ''rule.id'' Keyword True False),
    (''rule.name'', FieldSpec ''rule.name'' TextKind True True),
    (''rule.title'', FieldSpec ''rule.title'' TextKind True True),
    (''detection.source'', FieldSpec ''detection.source'' Keyword True False),
    (''finding.type'', FieldSpec ''finding.type'' Keyword True False),
    (''finding.status'', FieldSpec ''finding.status'' Keyword True False),
    (''finding.severity'', FieldSpec ''finding.severity'' Keyword True False),
    (''network.source_ip'', FieldSpec ''network.source_ip'' Keyword False False),
    (''network.destination_ip'', FieldSpec ''network.destination_ip'' Keyword False False),
    (''network.source_port'', FieldSpec ''network.source_port'' Numeric False False),
    (''network.destination_port'', FieldSpec ''network.destination_port'' Numeric False False),
    (''network.protocol'', FieldSpec ''network.protocol'' Keyword True False),
    (''linux.process'', FieldSpec ''linux.process'' Keyword True False),
    (''linux.username'', FieldSpec ''linux.username'' Keyword True False),
    (''linux.hostname'', FieldSpec ''linux.hostname'' Keyword True False),
    (''linux.source_ip'', FieldSpec ''linux.source_ip'' Keyword False False),
    (''linux.destination_ip'', FieldSpec ''linux.destination_ip'' Keyword False False),
    (''linux.command'', FieldSpec ''linux.command'' TextKind True True),
    (''linux.event_action'', FieldSpec ''linux.event_action'' Keyword True False),
    (''linux.jail'', FieldSpec ''linux.jail'' Keyword True False),
    (''linux.firewall_action'', FieldSpec ''linux.firewall_action'' Keyword True False),
    (''linux.network_protocol'', FieldSpec ''linux.network_protocol'' Keyword True False),
    (''linux.interface_in'', FieldSpec ''linux.interface_in'' Keyword True False),
    (''linux.interface_out'', FieldSpec ''linux.interface_out'' Keyword True False),
    (''linux.web_server'', FieldSpec ''linux.web_server'' Keyword True False),
    (''linux.x_forwarded_for'', FieldSpec ''linux.x_forwarded_for'' Keyword False False),
    (''linux.http_host'', FieldSpec ''linux.http_host'' Keyword True True),
    (''linux.suspicious_indicators'', FieldSpec ''linux.suspicious_indicators'' Keyword True False),
    (''linux.suspicious_url_indicators'', FieldSpec ''linux.suspicious_url_indicators'' Keyword True False),
    (''linux.run_as'', FieldSpec ''linux.run_as'' Keyword True False),
    (''linux.package'', FieldSpec ''linux.package'' Keyword True True),
    (''linux.package_action'', FieldSpec ''linux.package_action'' Keyword True False),
    (''linux.package_version'', FieldSpec ''linux.package_version'' Keyword True True),
    (''linux.terminal'', FieldSpec ''linux.terminal'' Keyword True False),
    (''linux.library_path'', FieldSpec ''linux.library_path'' Keyword True True),
    (''linux.pam_module'', FieldSpec ''linux.pam_module'' Keyword True True),
    (''linux.exe'', FieldSpec ''linux.exe'' Keyword True True),
    (''linux.cwd'', FieldSpec ''linux.cwd'' Keyword True True),
    (''linux.audit_type'', FieldSpec ''linux.audit_type'' Keyword True False),
    (''linux.audit_key'', FieldSpec ''linux.audit_key'' Keyword True False),
    (''linux.syscall'', FieldSpec ''linux.syscall'' Keyword True False),
    (''linux.timestamp_status'', FieldSpec ''linux.timestamp_status'' Keyword True False),
    (''linux.log_format'', FieldSpec ''linux.log_format'' Keyword True False),
    (''linux.db_engine'', FieldSpec ''linux.db_engine'' Keyword True False),
    (''linux.db_name'', FieldSpec ''linux.db_name'' Keyword True True),
    (''linux.db_command'', FieldSpec ''linux.db_command'' Keyword True False),
    (''linux.db_statement'', FieldSpec ''linux.db_statement'' TextKind True True),
    (''linux.db_status'', FieldSpec ''linux.db_status'' Keyword True False),
    (''linux.db_error_code'', FieldSpec ''linux.db_error_code'' Keyword True False),
    (''linux.db_query_time'', FieldSpec ''linux.db_query_time'' Numeric False False),
    (''linux.db_rows_examined'', FieldSpec ''linux.db_rows_examined'' Numeric False False),
    (''linux.vpn_software'', FieldSpec ''linux.vpn_software'' Keyword True False),
    (''linux.vpn_status'', FieldSpec ''linux.vpn_status'' Keyword True False),
    (''linux.vpn_assigned_ip'', FieldSpec ''linux.vpn_assigned_ip'' Keyword True False),
    (''linux.vpn_connection'', FieldSpec ''linux.vpn_connection'' Keyword True True),
    (''linux.vpn_component'', FieldSpec ''linux.vpn_component'' Keyword True False),
    (''linux.sender'', FieldSpec ''linux.sender'' Keyword True True),
    (''linux.recipient'', FieldSpec ''linux.recipient'' Keyword True True),
    (''linux.queue_id'', FieldSpec ''linux.queue_id'' Keyword True False),
    (''linux.smtp_status'', FieldSpec ''linux.smtp_status'' Numeric False False),
    (''linux.helo'', FieldSpec ''linux.helo'' Keyword True True),
    (''linux.message_id'', FieldSpec ''linux.message_id'' Keyword True True),
    (''linux.authentication'', FieldSpec ''linux.authentication'' Keyword True False),
    (''linux.mail_service'', FieldSpec ''linux.mail_service'' Keyword True False),
    (''linux.mail_component'', FieldSpec ''linux.mail_component'' Keyword True False),
    (''linux.mail_status'', FieldSpec ''linux.mail_status'' Keyword True False),
    (''linux.mail_client_host'', FieldSpec ''linux.mail_client_host'' Keyword True True),
    (''linux.mail_relay'', FieldSpec ''linux.mail_relay'' Keyword True True),
    (''linux.k8s_verb'', FieldSpec ''linux.k8s_verb'' Keyword True False),
    (''linux.k8s_resource'', FieldSpec ''linux.k8s_resource'' Keyword True False),
    (''linux.k8s_subresource'', FieldSpec ''linux.k8s_subresource'' Keyword True False),
    (''linux.k8s_namespace'', FieldSpec ''linux.k8s_namespace'' Keyword True False),
    (''linux.k8s_object'', FieldSpec ''linux.k8s_object'' Keyword True True),
    (''linux.k8s_decision'', FieldSpec ''linux.k8s_decision'' Keyword True False),
    (''linux.k8s_groups'', FieldSpec ''linux.k8s_groups'' Keyword True False),
    (''linux.k8s_impersonated'', FieldSpec ''linux.k8s_impersonated'' Keyword True False),
    (''linux.sysmon_event_id'', FieldSpec ''linux.sysmon_event_id'' Numeric False False),
    (''linux.sysmon_event'', FieldSpec ''linux.sysmon_event'' Keyword True False),
    (''linux.container_id'', FieldSpec ''linux.container_id'' Keyword True True),
    (''linux.container_name'', FieldSpec ''linux.container_name'' Keyword True True),
    (''linux.container_image'', FieldSpec ''linux.container_image'' Keyword True True),
    (''linux.container_state'', FieldSpec ''linux.container_state'' Keyword True False),
    (''linux.container_stream'', FieldSpec ''linux.container_stream'' Keyword True False),
    (''linux.container_privileged'', FieldSpec ''linux.container_privileged'' Keyword True False),
    (''linux.container_env_names'', FieldSpec ''linux.container_env_names'' Keyword True False),
    (''linux.container_mounts'', FieldSpec ''linux.container_mounts'' Keyword True True),
    (''linux.network_mode'', FieldSpec ''linux.network_mode'' Keyword True False),
    (''linux.pid_mode'', FieldSpec ''linux.pid_mode'' Keyword True False),
    (''linux.k8s_pod'', FieldSpec ''linux.k8s_pod'' Keyword True True)]"

definition FIELD_SPECS_update :: "(string \<times> field_spec) list" where
  "FIELD_SPECS_update =
   [(''file.sha256'', FieldSpec ''file.sha256'' Keyword False False),
    (''file.sha1'', FieldSpec ''file.sha1'' Keyword False False),
    (''file.md5'', FieldSpec ''file.md5'' Keyword False False)]"

definition FIELD_SPECS :: "(string \<times> field_spec) list" where
  "FIELD_SPECS = fold (\<lambda>(k, v). dict_set k v) FIELD_SPECS_update FIELD_SPECS_table"

definition FIELD_ALIASES :: "(string \<times> string list) list" where
  "FIELD_ALIASES =
   [(''host'', [''host.name'', ''linux.hostname'']),
    (''user'', [''user.name'', ''linux.username'']),
    (''artifact'', [''artifact.type'']),
    (''type'', [''event.type'']),
    (''event'', [''event.type'']),
    (''process'', [''process.name'', ''linux.process'']),
    (''command'', [''process.command_line'']),
    (''file'', [''file.path'', ''file.name'']),
    (''path'', [''file.path'', ''folder.path'', ''process.path'']),
    (''domain'', [''dns.domain'', ''url.domain'', ''email.from.domain'']),
    (''ip'', [''source.ip'', ''destination.ip'', ''network.source_ip'', ''network.destination_ip'', ''linux.source_ip'', ''linux.destination_ip'']),
    (''port'', [''network.source_port'', ''network.destination_port'']),
    (''proto'', [''network.protocol'', ''linux.network_protocol'']),
    (''action'', [''event.action'', ''linux.event_action'']),
    (''verdict'', [''linux.firewall_action'']),
    (''jail'', [''linux.jail'']),
    (''xff'', [''linux.x_forwarded_for'']),
    (''webserver'', [''linux.web_server'']),
    (''indicator'', [''linux.suspicious_indicators'', ''linux.suspicious_url_indicators'']),
    (''runas'', [''linux.run_as'']),
    (''eventid'', [''windows.event_id'']),
    (''channel'', [''windows.channel'']),
    (''provider'', [''windows.provider'']),
    (''logontype'', [''windows.logon_type'']),
    (''service'', [''windows.service_name'']),
    (''task'', [''windows.task_name'']),
    (''package'', [''linux.package'']),
    (''pkgaction'', [''linux.package_action'']),
    (''library'', [''linux.library_path'']),
    (''pam'', [''linux.pam_module'']),
    (''exe'', [''linux.exe'', ''process.path'']),
    (''audit'', [''linux.audit_type'']),
    (''auditkey'', [''linux.audit_key'']),
    (''timequality'', [''linux.timestamp_status'']),
    (''logformat'', [''linux.log_format'']),
    (''verb'', [''linux.k8s_verb'']),
    (''resource'', [''linux.k8s_resource'']),
    (''subresource'', [''linux.k8s_subresource'']),
    (''namespace'', [''linux.k8s_namespace'']),
    (''k8sobject'', [''linux.k8s_object'']),
    (''decision'', [''linux.k8s_decision'']),
    (''sysmon'', [''linux.sysmon_event_id'']),
    (''dbengine'', [''linux.db_engine'']),
    (''database'', [''linux.db_name'']),
    (''dbcommand'', [''linux.db_command'']),
    (''sql'', [''linux.db_statement'']),
    (''dbstatus'', [''linux.db_status'']),
    (''dberror'', [''linux.db_error_code'']),
    (''vpn'', [''linux.vpn_software'']),
    (''vpnstatus'', [''linux.vpn_status'']),
    (''vpnip'', [''linux.vpn_assigned_ip'']),
    (''vpnconn'', [''linux.vpn_connection'']),
    (''sender'', [''linux.sender'', ''email.from.address'']),
    (''recipient'', [''linux.recipient'', ''email.to.addresses'']),
    (''queue'', [''linux.queue_id'']),
    (''mailstatus'', [''linux.mail_status'']),
    (''mailservice'', [''linux.mail_service'']),
    (''relay'', [''linux.mail_relay'']),
    (''container'', [''linux.container_name'', ''linux.container_id'']),
    (''image'', [''linux.container_image'']),
    (''pod'', [''linux.k8s_pod'']),
    (''stream'', [''linux.container_stream'']),
    (''url'', [''url.full'']),
    (''hash'', [''file.sha256'', ''file.sha1'', ''file.md5'']),
    (''rule'', [''rule.name'', ''rule.title'', ''rule.id'']),
    (''source'', [''detection.source'', ''artifact.parser'']),
    (''parser'', [''artifact.parser'']),
    (''risk'', [''risk_score'']),
    (''severity'', [''severity'', ''finding.severity'']),
    (''status'', [''status'', ''finding.status'']),
    (''stable'', [''stable_event_id''])]"

definition resolve_field :: "string \<Rightarrow> query_error + parsed_field" where
  "resolve_field name =
    (let normalized = py_strip name;
         actuals = (case dict_get FIELD_ALIASES normalized of Some xs \<Rightarrow> xs | None \<Rightarrow> [normalized]);
         specs = map (dict_get FIELD_SPECS) actuals in
     if None \<in> set specs then Inl (FieldNotSupported name)
     else Inr \<lparr>pf_name = normalized, pf_specs = map the specs\<rparr>)"

section \<open>Properties of the tables\<close>

lemma FIELD_SPECS_keys: "fst ` set FIELD_SPECS = fst ` set FIELD_SPECS_table \<union> fst ` set FIELD_SPECS_update"
  using pydict.keys_assigns [of FIELD_SPECS_update FIELD_SPECS_table] by (simp add: FIELD_SPECS_def)

text \<open>The position in the table of each field an alias names.\<close>

definition alias_positions :: "nat list list" where
  "alias_positions =
     [[6, 70], [7, 69], [9], [11], [11], [22, 68], [24], [28, 27], [28, 31, 23], [35, 37, 44], [38,
      39, 63, 64, 71, 72], [65, 66], [67, 77], [12, 74], [76], [75], [81], [80], [83, 84], [85],
      [14], [15], [16], [17], [18], [19], [86], [87], [90], [91], [92, 23], [94], [95], [97], [98],
      [124], [125], [126], [127], [128], [129], [132], [99], [100], [101], [102], [103], [104],
      [107], [108], [109], [110], [112, 43], [113, 45], [114], [121], [119], [123], [135, 134],
      [136], [144], [138], [36], [145, 146, 147], [57, 58, 56], [59, 10], [10], [13], [20, 62], [21,
      61], [4]]"

lemma aliases_at_positions:
  "map snd FIELD_ALIASES = map (map (\<lambda>i. map fst (FIELD_SPECS_table @ FIELD_SPECS_update) ! i)) alias_positions"
  by (simp add: alias_positions_def FIELD_ALIASES_def FIELD_SPECS_table_def FIELD_SPECS_update_def)

lemma alias_positions_bound: "\<forall>p \<in> set alias_positions. p \<noteq> [] \<and> (\<forall>i \<in> set p. i < 148)"
  by (simp add: alias_positions_def)

lemma length_field_specs: "length (FIELD_SPECS_table @ FIELD_SPECS_update) = 148"
  by (simp add: FIELD_SPECS_table_def FIELD_SPECS_update_def)

lemma field_aliases_defined:
  assumes "(a, ts) \<in> set FIELD_ALIASES"
  shows "ts \<noteq> []" and "set ts \<subseteq> fst ` set FIELD_SPECS"
proof -
  obtain pos where pos: "ts = map (\<lambda>i. map fst (FIELD_SPECS_table @ FIELD_SPECS_update) ! i) pos"
    "pos \<noteq> []" "\<forall>i \<in> set pos. i < 148"
  proof -
    have "ts \<in> set (map snd FIELD_ALIASES)" using assms by force
    then obtain p where "p \<in> set alias_positions"
        "ts = map (\<lambda>i. map fst (FIELD_SPECS_table @ FIELD_SPECS_update) ! i) p"
      unfolding aliases_at_positions by force
    with alias_positions_bound show ?thesis by (intro that) auto
  qed
  then show "ts \<noteq> []" by simp
  show "set ts \<subseteq> fst ` set FIELD_SPECS"
  proof
    fix t assume "t \<in> set ts"
    then obtain i where "i < 148" "t = map fst (FIELD_SPECS_table @ FIELD_SPECS_update) ! i"
      using pos by auto
    then have "t \<in> set (map fst (FIELD_SPECS_table @ FIELD_SPECS_update))"
      using length_field_specs by (metis length_map nth_mem)
    then show "t \<in> fst ` set FIELD_SPECS" by (auto simp: FIELD_SPECS_keys)
  qed
qed

lemma fs_path_FieldSpec: "fs_path (FieldSpec p k w l) = p"
  by (simp add: FieldSpec_def)

text \<open>Every entry is stored under its own path.\<close>

lemma field_specs_paths: "\<forall>(k, f) \<in> set FIELD_SPECS. fs_path f = k"
proof -
  have "\<forall>(k, f) \<in> set (fold (\<lambda>(k, v). dict_set k v) us d). fs_path f = k"
    if "\<forall>(k, f) \<in> set us. fs_path f = k" "\<forall>(k, f) \<in> set d. fs_path f = k" for us and d :: "(string \<times> field_spec) list"
    using that
  proof (induction us arbitrary: d)
    case (Cons u us)
    have "set (dict_set k v d) \<subseteq> insert (k, v) (set d)" for k v by (induction d) (auto split: if_splits)
    moreover have "fs_path (snd u) = fst u" using Cons.prems(1) by auto
    ultimately have "\<forall>(k, f) \<in> set (dict_set (fst u) (snd u) d). fs_path f = k"
      using Cons.prems(2) by blast
    with Cons show ?case by (simp add: split_beta)
  qed simp
  moreover have "list_all (\<lambda>(k, f). fs_path f = k) FIELD_SPECS_table"
    "list_all (\<lambda>(k, f). fs_path f = k) FIELD_SPECS_update"
    by (simp_all add: FIELD_SPECS_table_def FIELD_SPECS_update_def fs_path_FieldSpec)
  ultimately show ?thesis unfolding FIELD_SPECS_def list_all_iff by blast
qed

lemma resolve_field_paths:
  assumes "resolve_field name = Inr pf"
  shows "pf_specs pf \<noteq> []" and "\<forall>f \<in> set (pf_specs pf). dict_get FIELD_SPECS (fs_path f) = Some f"
proof -
  define actuals where "actuals = (case dict_get FIELD_ALIASES (py_strip name) of Some xs \<Rightarrow> xs | None \<Rightarrow> [py_strip name])"
  have pf: "pf_specs pf = map (the \<circ> map_of FIELD_SPECS) actuals" "None \<notin> set (map (map_of FIELD_SPECS) actuals)"
    using assms by (auto simp: resolve_field_def actuals_def Let_def split: if_splits)
  have "actuals \<noteq> []"
    using field_aliases_defined(1) [OF map_of_SomeD] by (simp add: actuals_def split: option.splits)
  then show "pf_specs pf \<noteq> []" using pf(1) by simp
  show "\<forall>f \<in> set (pf_specs pf). map_of FIELD_SPECS (fs_path f) = Some f"
  proof
    fix f assume "f \<in> set (pf_specs pf)"
    with pf obtain a where "map_of FIELD_SPECS a = Some f" by force
    moreover from this have "fs_path f = a" using field_specs_paths map_of_SomeD [of FIELD_SPECS a f] by blast
    ultimately show "map_of FIELD_SPECS (fs_path f) = Some f" by simp
  qed
qed

end
