(* ===== verification/Python_Values.thy ===== *)
theory Python_Values
  imports Prelude
begin

section \<open>Python values\<close>

text \<open>
  What the components that work on event documents share: JSON values, decimal numerals and
  their text, substring test and split, the word characters of a pattern, and the short-circuit
  \<^verbatim>\<open>any\<close> and \<^verbatim>\<open>all\<close> over tests that may raise.
\<close>

text \<open>A document as the JSON decoder returns it; \<open>'f\<close> is the type of floats.\<close>

datatype 'f json = JNull | JBool bool | JInt int | JFloat 'f | JStr string
  | JList "'f json list" | JObj "(string \<times> 'f json) list"

text \<open>
  \<^verbatim>\<open>int(str)\<close>: blanks around, an optional sign, digits with single underscores between them;
  \<open>None\<close> is \<open>ValueError\<close>, raised for more than 4300 digits as well.
\<close>

fun numeral_digits :: "bool \<Rightarrow> string \<Rightarrow> string option" where
  "numeral_digits after_digit [] = (if after_digit then Some [] else None)"
| "numeral_digits after_digit (c # cs) =
    (if ascii_digit c then map_option ((#) c) (numeral_digits True cs)
     else if c = CHR ''_'' \<and> after_digit then
       (case cs of d # ds \<Rightarrow> if ascii_digit d then numeral_digits False cs else None | [] \<Rightarrow> None)
     else None)"

definition py_int :: "string \<Rightarrow> int option" where
  "py_int s = (let t = py_strip s;
      neg = (t \<noteq> [] \<and> hd t = CHR ''-'');
      body = (if t \<noteq> [] \<and> (hd t = CHR ''-'' \<or> hd t = CHR ''+'') then tl t else t) in
    case numeral_digits False body of
      None \<Rightarrow> None
    | Some ds \<Rightarrow> if length ds > 4300 then None else Some (if neg then - digits_val ds else digits_val ds))"

definition py_str_int :: "int \<Rightarrow> string" where
  "py_str_int n = (if n < 0 then ''-'' @ nat_digits (nat (- n)) else nat_digits (nat n))"

fun py_in :: "string \<Rightarrow> string \<Rightarrow> bool" where
  "py_in needle [] = (needle = [])"
| "py_in needle (c # cs) = (take (length needle) (c # cs) = needle \<or> py_in needle cs)"

text \<open>\<^verbatim>\<open>str.split\<close> with a separator of one character.\<close>

fun py_split :: "char \<Rightarrow> string \<Rightarrow> string list" where
  "py_split d [] = [[]]"
| "py_split d (c # cs) = (if c = d then [] # py_split d cs
     else case py_split d cs of p # ps \<Rightarrow> (c # p) # ps | [] \<Rightarrow> [[c]])"

abbreviation py_split_dot :: "string \<Rightarrow> string list" where
  "py_split_dot \<equiv> py_split (CHR ''.'')"

text \<open>\<^verbatim>\<open>\w\<close> of a Unicode pattern, for code points up to U+00FF.\<close>

definition re_word :: "char \<Rightarrow> bool" where
  "re_word c = (let n = code_point c in
     48 \<le> n \<and> n \<le> 57 \<or> 65 \<le> n \<and> n \<le> 90 \<or> n = 95 \<or> 97 \<le> n \<and> n \<le> 122
     \<or> n \<in> {170, 178, 179, 181, 185, 186, 188, 189, 190} \<or> 192 \<le> n \<and> n \<le> 214 \<or> 216 \<le> n \<and> n \<le> 246 \<or> 248 \<le> n)"

definition line_feed :: char where "line_feed = CHR 0x0A"

text \<open>\<^verbatim>\<open>any\<close> and \<^verbatim>\<open>all\<close> stop at the first decisive element; an exception ends them.\<close>

fun res_any :: "('a \<Rightarrow> 'e + bool) \<Rightarrow> 'a list \<Rightarrow> 'e + bool" where
  "res_any f [] = Inr False"
| "res_any f (x # xs) = res_bind (f x) (\<lambda>b. if b then Inr True else res_any f xs)"

fun res_all :: "('a \<Rightarrow> 'e + bool) \<Rightarrow> 'a list \<Rightarrow> 'e + bool" where
  "res_all f [] = Inr True"
| "res_all f (x # xs) = res_bind (f x) (\<lambda>b. if b then res_all f xs else Inr False)"

lemma res_any_cong [fundef_cong]:
  "xs = ys \<Longrightarrow> (\<And>x. x \<in> set ys \<Longrightarrow> f x = g x) \<Longrightarrow> res_any f xs = res_any g ys"
proof (induction ys arbitrary: xs)
  case (Cons y ys)
  then have "res_any f ys = res_any g ys" "f y = g y" by auto
  with Cons.prems show ?case by (simp cong: if_cong)
qed simp

lemma res_all_cong [fundef_cong]:
  "xs = ys \<Longrightarrow> (\<And>x. x \<in> set ys \<Longrightarrow> f x = g x) \<Longrightarrow> res_all f xs = res_all g ys"
proof (induction ys arbitrary: xs)
  case (Cons y ys)
  then have "res_all f ys = res_all g ys" "f y = g y" by auto
  with Cons.prems show ?case by (simp cong: if_cong)
qed simp

lemma res_any_Inr: "(\<And>x. x \<in> set xs \<Longrightarrow> f x = Inr (g x)) \<Longrightarrow> res_any f xs = Inr (list_ex g xs)"
  by (induction xs) auto

lemma res_all_Inr: "(\<And>x. x \<in> set xs \<Longrightarrow> f x = Inr (g x)) \<Longrightarrow> res_all f xs = Inr (list_all g xs)"
  by (induction xs) auto

end
