(* ===== verification/Query_Syntax.thy ===== *)
theory Query_Syntax
  imports Query_Fields Python_Values
begin

section \<open>The search query language: tokens and syntax tree\<close>

text \<open>
  \<^verbatim>\<open>search/query_syntax.py\<close>: the test for advanced syntax, the tokenizer and the recursive
  descent parser. Positions are 0-based as in the source's tokens; messages add one. The
  parser's state is the remaining tokens and its two counters. Its functions take fuel;
  \<open>parse_tokens\<close> starts with enough of it, and it never runs out
  (\<open>parse_or_fuel\<close>).
\<close>

definition MAX_TOKENS :: nat where "MAX_TOKENS = 128"
definition MAX_OR_TERMS :: nat where "MAX_OR_TERMS = 20"
definition MAX_WILDCARD_CLAUSES :: nat where "MAX_WILDCARD_CLAUSES = 10"
definition MAX_QUERY_TERMS :: nat where "MAX_QUERY_TERMS = 64"

subsection \<open>Characters\<close>

text \<open>\<^verbatim>\<open>str.upper\<close> is used only to recognise the three keywords, for which the ASCII letters decide.\<close>

definition upper_ascii :: "string \<Rightarrow> string" where
  "upper_ascii s = map (\<lambda>c. let n = code_point c in if 97 \<le> n \<and> n \<le> 122 then char_of (n - 32) else c) s"

definition field_start :: "char \<Rightarrow> bool" where
  "field_start c = (let n = code_point c in c = CHR ''@'' \<or> 65 \<le> n \<and> n \<le> 90 \<or> 97 \<le> n \<and> n \<le> 122 \<or> n = 95)"

definition field_char :: "char \<Rightarrow> bool" where
  "field_char c \<longleftrightarrow> re_word c \<or> c \<in> set ''.@-''"

definition wildcard_char :: "char \<Rightarrow> bool" where
  "wildcard_char c \<longleftrightarrow> c = CHR ''*'' \<or> c = CHR ''?''"

subsection \<open>Is this the advanced syntax?\<close>

text \<open>
  The three patterns of \<^verbatim>\<open>query_has_advanced_syntax\<close>. A field name is followed by an operator
  or not; the name's characters are neither blanks nor operators, so a shorter name never
  matches where the longest does not, and a scan of the suffixes finds the matches of
  \<^verbatim>\<open>re.finditer\<close>.
\<close>

fun skip_operator :: "string \<Rightarrow> string option" where
  "skip_operator (c # cs) =
    (if c = CHR '':'' then Some cs
     else if c = CHR ''<'' \<or> c = CHR ''>'' then
       (case cs of d # ds \<Rightarrow> if d = CHR ''='' then Some ds else Some cs | [] \<Rightarrow> Some [])
     else None)"
| "skip_operator [] = None"

lemma skip_operator_length: "skip_operator s = Some r \<Longrightarrow> length r < length s"
  by (cases s) (auto split: if_splits list.splits)

lemma skip_operator_after:
  "skip_operator (dropWhile p (dropWhile q cs)) = Some r \<Longrightarrow> length r < Suc (length cs)"
  using skip_operator_length [of "dropWhile p (dropWhile q cs)" r] length_dropWhile_le [of q cs]
    length_dropWhile_le [of p "dropWhile q cs"] by linarith

function operator_fields :: "string \<Rightarrow> string list" where
  "operator_fields [] = []"
| "operator_fields (c # cs) =
    (if field_start c then
       case skip_operator (dropWhile py_isspace (dropWhile field_char cs)) of
         Some rest \<Rightarrow> (c # takeWhile field_char cs) # operator_fields rest
       | None \<Rightarrow> operator_fields cs
     else operator_fields cs)"
  by pat_completeness auto
termination
  by (relation "measure length") (auto dest: skip_operator_after)

text \<open>\<^verbatim>\<open>(^|\s)(AND|OR|NOT)(\s|$)\<close>, ignoring case, on a text without trailing blanks.\<close>

definition keyword_here :: "string \<Rightarrow> bool" where
  "keyword_here s \<longleftrightarrow> (\<exists>k \<in> {''AND'', ''OR'', ''NOT''}.
     upper_ascii (take (length k) s) = k \<and> (drop (length k) s = [] \<or> py_isspace (hd (drop (length k) s))))"

fun has_keyword :: "bool \<Rightarrow> string \<Rightarrow> bool" where
  "has_keyword at_start [] = False"
| "has_keyword at_start (c # cs) = (at_start \<and> keyword_here (c # cs) \<or> has_keyword (py_isspace c) cs)"

text \<open>\<^verbatim>\<open>\bhas\s*:\s*[@A-Za-z_]\<close>, ignoring case.\<close>

definition has_here :: "string \<Rightarrow> bool" where
  "has_here s \<longleftrightarrow> py_lower (take 3 s) = ''has'' \<and>
    (case dropWhile py_isspace (drop 3 s) of
       d # ds \<Rightarrow> d = CHR '':'' \<and> (case dropWhile py_isspace ds of e # es \<Rightarrow> field_start e | [] \<Rightarrow> False)
     | [] \<Rightarrow> False)"

fun has_exists :: "bool \<Rightarrow> string \<Rightarrow> bool" where
  "has_exists boundary [] = False"
| "has_exists boundary (c # cs) = (boundary \<and> has_here (c # cs) \<or> has_exists (\<not> re_word c) cs)"

definition query_has_advanced_syntax :: "string \<Rightarrow> bool" where
  "query_has_advanced_syntax query =
    (let txt = py_strip query in
     if txt = [] then False
     else if \<exists>f \<in> set (operator_fields txt). f \<in> fst ` set FIELD_SPECS \<or> f \<in> fst ` set FIELD_ALIASES
            \<or> CHR ''.'' \<in> set f \<or> hd f = CHR ''@'' then True
     else has_keyword True txt \<or> has_exists True txt \<or> CHR ''('' \<in> set txt \<or> CHR '')'' \<in> set txt)"

subsection \<open>Tokens\<close>

datatype token_kind = LPar | RPar | OP | STRING | WORD | KwAND | KwOR | KwNOT

record query_token =
  qt_kind :: token_kind
  qt_value :: string
  qt_position :: nat

definition Token :: "token_kind \<Rightarrow> string \<Rightarrow> nat \<Rightarrow> query_token" where
  "Token k v p = \<lparr>qt_kind = k, qt_value = v, qt_position = p\<rparr>"

definition dquote :: char where "dquote = CHR 0x22"
definition bslash :: char where "bslash = CHR 0x5C"

text \<open>The quoted string after its opening quote: its value, the rest and how many characters were read.\<close>

fun scan_quoted :: "string \<Rightarrow> string \<Rightarrow> nat \<Rightarrow> (string \<times> string \<times> nat) option" where
  "scan_quoted [] buffer n = None"
| "scan_quoted (c # cs) buffer n =
    (if c = bslash \<and> cs \<noteq> [] then scan_quoted (tl cs) (buffer @ [hd cs]) (n + 2)
     else if c = dquote then Some (buffer, cs, n + 1)
     else scan_quoted cs (buffer @ [c]) (n + 1))"

lemma scan_quoted_rest: "scan_quoted s b n = Some (v, r, m) \<Longrightarrow> length r < length s \<and> m + length r = n + length s"
proof (induction s b n rule: scan_quoted.induct)
  case (2 c cs b n)
  show ?case
  proof (cases "c = bslash \<and> cs \<noteq> []")
    case True
    then have "length (tl cs) < length cs" by (cases cs) auto
    with True 2 show ?thesis by auto
  qed (use 2 in \<open>auto split: if_splits\<close>)
qed simp

definition word_char :: "char \<Rightarrow> bool" where
  "word_char c \<longleftrightarrow> \<not> py_isspace c \<and> c \<notin> set ''()<>:'' \<and> c \<noteq> dquote"

definition word_token :: "string \<Rightarrow> nat \<Rightarrow> query_token" where
  "word_token w start = (let upper = upper_ascii w in
     if upper = ''AND'' then Token KwAND upper start
     else if upper = ''OR'' then Token KwOR upper start
     else if upper = ''NOT'' then Token KwNOT upper start
     else Token WORD w start)"

function tokenize_loop :: "nat \<Rightarrow> string \<Rightarrow> query_error + query_token list" where
  "tokenize_loop i [] = Inr []"
| "tokenize_loop i (c # cs) =
    (if py_isspace c then tokenize_loop (i + 1) cs
     else if c = CHR ''('' then res_bind (tokenize_loop (i + 1) cs) (\<lambda>ts. Inr (Token LPar [c] i # ts))
     else if c = CHR '')'' then res_bind (tokenize_loop (i + 1) cs) (\<lambda>ts. Inr (Token RPar [c] i # ts))
     else if (c = CHR ''>'' \<or> c = CHR ''<'') \<and> cs \<noteq> [] \<and> hd cs = CHR ''='' then
       res_bind (tokenize_loop (i + 2) (tl cs)) (\<lambda>ts. Inr (Token OP [c, CHR ''=''] i # ts))
     else if c \<in> set '':<>'' then res_bind (tokenize_loop (i + 1) cs) (\<lambda>ts. Inr (Token OP [c] i # ts))
     else if c = dquote then
       (case scan_quoted cs [] 1 of
          None \<Rightarrow> Inl (UnclosedQuote (i + 1))
        | Some (v, rest, n) \<Rightarrow> res_bind (tokenize_loop (i + n) rest) (\<lambda>ts. Inr (Token STRING v i # ts)))
     else let w = takeWhile word_char (c # cs) in
       res_bind (tokenize_loop (i + length w) (dropWhile word_char (c # cs))) (\<lambda>ts. Inr (word_token w i # ts)))"
  by pat_completeness auto
termination
  by (relation "measure (length \<circ> snd)")
    (auto simp: neq_Nil_conv word_char_def le_imp_less_Suc length_dropWhile_le dest: scan_quoted_rest)

definition tokenize :: "string \<Rightarrow> query_error + query_token list" where
  "tokenize query = res_bind (tokenize_loop 0 query) (\<lambda>ts.
     if length ts > MAX_TOKENS then Inl (TooManyTokens (length ts)) else Inr ts)"

subsection \<open>The syntax tree and the parser\<close>

datatype bool_operator = BoolAND | BoolOR

datatype node =
    TextNode string
  | PredicateNode parsed_field string string
  | ExistsNode parsed_field
  | NotNode node
  | BoolNode bool_operator "node list"

record parser_state =
  ps_tokens :: "query_token list"
  ps_wildcard_clauses :: nat
  ps_or_terms :: nat

text \<open>\<^verbatim>\<open>_accept\<close> returns the state after the token, or \<open>None\<close> and leaves the state.\<close>

definition accept :: "token_kind \<Rightarrow> parser_state \<Rightarrow> parser_state option" where
  "accept k st = (case ps_tokens st of
     t # ts \<Rightarrow> if qt_kind t = k then Some (st\<lparr>ps_tokens := ts\<rparr>) else None | [] \<Rightarrow> None)"

definition consume :: "parser_state \<Rightarrow> query_error + query_token \<times> parser_state" where
  "consume st = (case ps_tokens st of
     t # ts \<Rightarrow> Inr (t, st\<lparr>ps_tokens := ts\<rparr>) | [] \<Rightarrow> Inl UnexpectedEnd)"

definition accept_colon :: "parser_state \<Rightarrow> parser_state option" where
  "accept_colon st = (case ps_tokens st of
     t # ts \<Rightarrow> if qt_kind t = OP \<and> qt_value t = '':'' then Some (st\<lparr>ps_tokens := ts\<rparr>) else None | [] \<Rightarrow> None)"

definition parse_exists :: "parser_state \<Rightarrow> query_error + node \<times> parser_state" where
  "parse_exists st = (case accept_colon st of
     None \<Rightarrow> Inl ExpectedColonAfterHas
   | Some st1 \<Rightarrow> res_bind (consume st1) (\<lambda>(t, st2).
       if qt_kind t \<noteq> WORD then Inl ExpectedFieldAfterHas
       else res_bind (resolve_field (qt_value t)) (\<lambda>f. Inr (ExistsNode f, st2))))"

definition parse_predicate :: "parser_state \<Rightarrow> query_error + node \<times> parser_state" where
  "parse_predicate st =
     res_bind (consume st) (\<lambda>(field_token, st1).
     res_bind (resolve_field (qt_value field_token)) (\<lambda>f.
     res_bind (consume st1) (\<lambda>(op_token, st2).
     res_bind (consume st2) (\<lambda>(v, st3).
     if qt_kind v \<notin> {WORD, STRING} then Inl (NearToken (qt_value v) (qt_position v + 1))
     else Inr (PredicateNode f (qt_value op_token) (qt_value v),
               if list_ex wildcard_char (qt_value v)
               then st3\<lparr>ps_wildcard_clauses := ps_wildcard_clauses st3 + 1\<rparr> else st3)))))"

definition parse_atom :: "parser_state \<Rightarrow> query_error + node \<times> parser_state" where
  "parse_atom st = (case ps_tokens st of
     [] \<Rightarrow> Inl MissingExpression
   | t # ts \<Rightarrow>
       if qt_kind t = WORD \<and> py_lower (qt_value t) = ''has'' then parse_exists (st\<lparr>ps_tokens := ts\<rparr>)
       else if qt_kind t = WORD \<and> ts \<noteq> [] \<and> qt_kind (hd ts) = OP then parse_predicate st
       else if qt_kind t \<in> {WORD, STRING} then Inr (TextNode (qt_value t), st\<lparr>ps_tokens := ts\<rparr>)
       else Inl (NearToken (qt_value t) (qt_position t + 1)))"

fun parse_or :: "nat \<Rightarrow> parser_state \<Rightarrow> query_error + node \<times> parser_state"
  and parse_or_loop :: "nat \<Rightarrow> node list \<Rightarrow> parser_state \<Rightarrow> query_error + node list \<times> parser_state"
  and parse_and :: "nat \<Rightarrow> parser_state \<Rightarrow> query_error + node \<times> parser_state"
  and parse_and_loop :: "nat \<Rightarrow> node list \<Rightarrow> parser_state \<Rightarrow> query_error + node list \<times> parser_state"
  and parse_unary :: "nat \<Rightarrow> parser_state \<Rightarrow> query_error + node \<times> parser_state"
  and parse_primary :: "nat \<Rightarrow> parser_state \<Rightarrow> query_error + node \<times> parser_state"
where
  "parse_or 0 st = Inl OutOfFuel"
| "parse_or (Suc f) st =
     res_bind (parse_and f st) (\<lambda>(n, st1).
     res_bind (parse_or_loop f [n] st1) (\<lambda>(nodes, st2).
     Inr (if length nodes = 1 then hd nodes else BoolNode BoolOR nodes, st2)))"
| "parse_or_loop 0 nodes st = Inl OutOfFuel"
| "parse_or_loop (Suc f) nodes st = (case accept KwOR st of
     None \<Rightarrow> Inr (nodes, st)
   | Some st1 \<Rightarrow> res_bind (parse_and f (st1\<lparr>ps_or_terms := ps_or_terms st1 + 1\<rparr>)) (\<lambda>(n, st2).
       parse_or_loop f (nodes @ [n]) st2))"
| "parse_and 0 st = Inl OutOfFuel"
| "parse_and (Suc f) st =
     res_bind (parse_unary f st) (\<lambda>(n, st1).
     res_bind (parse_and_loop f [n] st1) (\<lambda>(nodes, st2).
     if length nodes = 1 then Inr (hd nodes, st2)
     else if length nodes > MAX_QUERY_TERMS then Inl (TooManyClauses (length nodes))
     else Inr (BoolNode BoolAND nodes, st2)))"
| "parse_and_loop 0 nodes st = Inl OutOfFuel"
| "parse_and_loop (Suc f) nodes st = (case accept KwAND st of
     Some st1 \<Rightarrow> res_bind (parse_unary f st1) (\<lambda>(n, st2). parse_and_loop f (nodes @ [n]) st2)
   | None \<Rightarrow>
       if ps_tokens st \<noteq> [] \<and> qt_kind (hd (ps_tokens st)) \<in> {WORD, STRING, KwNOT, LPar}
       then res_bind (parse_unary f st) (\<lambda>(n, st2). parse_and_loop f (nodes @ [n]) st2)
       else Inr (nodes, st))"
| "parse_unary 0 st = Inl OutOfFuel"
| "parse_unary (Suc f) st = (case accept KwNOT st of
     Some st1 \<Rightarrow> res_bind (parse_unary f st1) (\<lambda>(n, st2). Inr (NotNode n, st2))
   | None \<Rightarrow> parse_primary f st)"
| "parse_primary 0 st = Inl OutOfFuel"
| "parse_primary (Suc f) st = (case accept LPar st of
     Some st1 \<Rightarrow> res_bind (parse_or f st1) (\<lambda>(n, st2).
       case accept RPar st2 of Some st3 \<Rightarrow> Inr (n, st3) | None \<Rightarrow> Inl UnclosedParenthesis)
   | None \<Rightarrow> parse_atom st)"

definition parser_fuel :: "query_token list \<Rightarrow> nat" where
  "parser_fuel ts = 4 * length ts + 5"

definition parse_tokens :: "query_token list \<Rightarrow> query_error + node" where
  "parse_tokens ts =
     res_bind (parse_or (parser_fuel ts) \<lparr>ps_tokens = ts, ps_wildcard_clauses = 0, ps_or_terms = 0\<rparr>) (\<lambda>(n, st).
     case ps_tokens st of
       t # _ \<Rightarrow> Inl (NearToken (qt_value t) (qt_position t + 1))
     | [] \<Rightarrow>
         if ps_or_terms st > MAX_OR_TERMS then Inl (TooManyOrClauses (ps_or_terms st))
         else if ps_wildcard_clauses st > MAX_WILDCARD_CLAUSES
           then Inl (TooManyWildcardClauses (ps_wildcard_clauses st))
         else Inr n)"

section \<open>Properties of the parser\<close>

abbreviation left :: "parser_state \<Rightarrow> nat" where
  "left st \<equiv> length (ps_tokens st)"

lemma accept_left: "accept k st = Some st1 \<Longrightarrow> left st = Suc (left st1)"
  by (auto simp: accept_def split: list.splits if_splits)

lemma parse_atom_left: "parse_atom st = Inr (n, st1) \<Longrightarrow> left st1 < left st"
  by (auto simp: parse_atom_def parse_exists_def parse_predicate_def accept_colon_def consume_def res_simps
      split: list.splits if_splits option.splits)

lemma parse_atom_error: "parse_atom st \<noteq> Inl OutOfFuel"
  by (auto simp: parse_atom_def parse_exists_def parse_predicate_def accept_colon_def consume_def res_simps
      resolve_field_def Let_def split: list.splits if_splits option.splits)

lemma parse_left:
  "parse_or f st = Inr (n, st1) \<Longrightarrow> left st1 < left st"
  "parse_or_loop f ns st = Inr (ms, st1) \<Longrightarrow> left st1 \<le> left st"
  "parse_and f st = Inr (n, st1) \<Longrightarrow> left st1 < left st"
  "parse_and_loop f ns st = Inr (ms, st1) \<Longrightarrow> left st1 \<le> left st"
  "parse_unary f st = Inr (n, st1) \<Longrightarrow> left st1 < left st"
  "parse_primary f st = Inr (n, st1) \<Longrightarrow> left st1 < left st"
proof (induction f arbitrary: st n ns ms st1)
  case (Suc f)
  { case 1 then show ?case using Suc by (fastforce simp: res_simps) }
  { case 2 then show ?case using Suc by (fastforce simp: res_simps split: option.splits dest: accept_left) }
  { case 3 then show ?case using Suc by (fastforce simp: res_simps split: if_splits) }
  { case 4 then show ?case using Suc by (fastforce simp: res_simps split: option.splits if_splits dest: accept_left) }
  { case 5 then show ?case using Suc by (fastforce simp: res_simps split: option.splits dest: accept_left) }
  { case 6 then show ?case using Suc
      by (fastforce simp: res_simps split: option.splits dest: accept_left parse_atom_left) }
qed simp_all

lemma parse_fuel:
  "4 * left st + 4 \<le> f \<Longrightarrow> parse_or f st \<noteq> Inl OutOfFuel"
  "4 * left st + 4 \<le> f \<Longrightarrow> parse_or_loop f ns st \<noteq> Inl OutOfFuel"
  "4 * left st + 3 \<le> f \<Longrightarrow> parse_and f st \<noteq> Inl OutOfFuel"
  "4 * left st + 3 \<le> f \<Longrightarrow> parse_and_loop f ns st \<noteq> Inl OutOfFuel"
  "4 * left st + 2 \<le> f \<Longrightarrow> parse_unary f st \<noteq> Inl OutOfFuel"
  "4 * left st + 1 \<le> f \<Longrightarrow> parse_primary f st \<noteq> Inl OutOfFuel"
proof (induction f arbitrary: st ns)
  case (Suc f)
  { case 1
    then have "parse_and f st \<noteq> Inl OutOfFuel" using Suc.IH(3) [of st] by simp
    moreover have "parse_or_loop f [n] st1 \<noteq> Inl OutOfFuel" if "parse_and f st = Inr (n, st1)" for n st1
      using Suc.IH(2) [of st1] parse_left(3) [OF that] 1 by simp
    ultimately show ?case by (auto simp: res_simps) }
  { case 2
    have "parse_and f (st1\<lparr>ps_or_terms := r\<rparr>) \<noteq> Inl OutOfFuel" if "accept KwOR st = Some st1" for st1 r
      using Suc.IH(3) [of "st1\<lparr>ps_or_terms := r\<rparr>"] accept_left [OF that] 2 by simp
    moreover have "parse_or_loop f ms st2 \<noteq> Inl OutOfFuel"
      if "accept KwOR st = Some st1" "parse_and f (st1\<lparr>ps_or_terms := r\<rparr>) = Inr (n, st2)" for st1 st2 r n ms
      using Suc.IH(2) [of st2 ms] accept_left [OF that(1)] parse_left(3) [OF that(2)] 2 by simp
    ultimately show ?case by (auto simp: res_simps split: option.splits) }
  { case 3
    then have "parse_unary f st \<noteq> Inl OutOfFuel" using Suc.IH(5) [of st] by simp
    moreover have "parse_and_loop f [n] st1 \<noteq> Inl OutOfFuel" if "parse_unary f st = Inr (n, st1)" for n st1
      using Suc.IH(4) [of st1] parse_left(5) [OF that] 3 by simp
    ultimately show ?case by (auto simp: res_simps split: if_splits) }
  { case 4
    have step: "res_bind (parse_unary f st1) (\<lambda>(n, st2). parse_and_loop f (ns @ [n]) st2) \<noteq> Inl OutOfFuel"
      if "left st1 \<le> left st" for st1
    proof -
      have "parse_unary f st1 \<noteq> Inl OutOfFuel" using Suc.IH(5) [of st1] that 4 by simp
      moreover have "parse_and_loop f ms st2 \<noteq> Inl OutOfFuel" if "parse_unary f st1 = Inr (n, st2)" for st2 n ms
        using Suc.IH(4) [of st2 ms] \<open>left st1 \<le> left st\<close> parse_left(5) [OF that] 4 by simp
      ultimately show ?thesis by (auto simp: res_simps)
    qed
    moreover have "left st1 \<le> left st" if "accept KwAND st = Some st1" for st1
      using accept_left [OF that] by simp
    ultimately show ?case using step [of st] by (cases "accept KwAND st") simp_all }
  { case 5
    then show ?case using Suc.IH(6) [of st] Suc.IH(5)
      by (auto simp: res_simps split: option.splits dest: accept_left) }
  { case 6
    have "parse_or f st1 \<noteq> Inl OutOfFuel" if "accept LPar st = Some st1" for st1
      using Suc.IH(1) [of st1] accept_left [OF that] 6 by simp
    then show ?case using parse_atom_error by (auto simp: res_simps split: option.splits) }
qed simp_all

lemma parse_or_fuel: "parse_or (parser_fuel ts) \<lparr>ps_tokens = ts, ps_wildcard_clauses = w, ps_or_terms = r\<rparr> \<noteq> Inl OutOfFuel"
  by (rule parse_fuel(1)) (simp add: parser_fuel_def)

lemma parse_tokens_fuel: "parse_tokens ts \<noteq> Inl OutOfFuel"
  using parse_or_fuel by (auto simp: parse_tokens_def res_simps split: list.splits if_splits)

subsection \<open>Printing a tree and reading it back\<close>

text \<open>
  The tokens of a tree: texts and values quoted, operands that are themselves conjunctions or
  disjunctions in parentheses.
\<close>

abbreviation bare :: "query_token \<Rightarrow> token_kind \<times> string" where
  "bare t \<equiv> (qt_kind t, qt_value t)"

fun is_bool :: "node \<Rightarrow> bool" where
  "is_bool (BoolNode _ _) = True"
| "is_bool _ = False"

fun joined :: "'a \<Rightarrow> 'a list list \<Rightarrow> 'a list" where
  "joined sep [] = []"
| "joined sep (xs # xss) = xs @ concat (map (\<lambda>ys. sep # ys) xss)"

fun node_tokens :: "node \<Rightarrow> (token_kind \<times> string) list" where
  "node_tokens (TextNode s) = [(STRING, s)]"
| "node_tokens (PredicateNode f op v) = [(WORD, pf_name f), (OP, op), (STRING, v)]"
| "node_tokens (ExistsNode f) = [(WORD, ''has''), (OP, '':''), (WORD, pf_name f)]"
| "node_tokens (NotNode n) = (KwNOT, ''NOT'') # (if is_bool n then (LPar, ''('') # node_tokens n @ [(RPar, '')'')] else node_tokens n)"
| "node_tokens (BoolNode op ns) = joined (case op of BoolAND \<Rightarrow> (KwAND, ''AND'') | BoolOR \<Rightarrow> (KwOR, ''OR''))
     (map (\<lambda>n. if is_bool n then (LPar, ''('') # node_tokens n @ [(RPar, '')'')] else node_tokens n) ns)"

definition operand_tokens :: "node \<Rightarrow> (token_kind \<times> string) list" where
  "operand_tokens n = (if is_bool n then (LPar, ''('') # node_tokens n @ [(RPar, '')'')] else node_tokens n)"

fun node_ok :: "node \<Rightarrow> bool" where
  "node_ok (TextNode s) = True"
| "node_ok (PredicateNode f op v) = (resolve_field (pf_name f) = Inr f \<and> py_lower (pf_name f) \<noteq> ''has'')"
| "node_ok (ExistsNode f) = (resolve_field (pf_name f) = Inr f)"
| "node_ok (NotNode n) = node_ok n"
| "node_ok (BoolNode op ns) = (2 \<le> length ns \<and> (op = BoolAND \<longrightarrow> length ns \<le> MAX_QUERY_TERMS) \<and> list_all node_ok ns)"

fun wildcard_count :: "node \<Rightarrow> nat" where
  "wildcard_count (PredicateNode f op v) = (if list_ex wildcard_char v then 1 else 0)"
| "wildcard_count (NotNode n) = wildcard_count n"
| "wildcard_count (BoolNode op ns) = sum_list (map wildcard_count ns)"
| "wildcard_count _ = 0"

fun or_count :: "node \<Rightarrow> nat" where
  "or_count (NotNode n) = or_count n"
| "or_count (BoolNode op ns) = (if op = BoolOR then length ns - 1 else 0) + sum_list (map or_count ns)"
| "or_count _ = 0"

text \<open>A token at which an operand, and with it a conjunction, ends.\<close>

definition ends_operand :: "query_token list \<Rightarrow> bool" where
  "ends_operand ts \<longleftrightarrow> ts = [] \<or> qt_kind (hd ts) \<in> {RPar, KwOR}"

abbreviation mk :: "query_token list \<Rightarrow> nat \<Rightarrow> nat \<Rightarrow> parser_state" where
  "mk ts w r \<equiv> \<lparr>ps_tokens = ts, ps_wildcard_clauses = w, ps_or_terms = r\<rparr>"

definition reads_operand :: "node \<Rightarrow> bool" where
  "reads_operand n \<longleftrightarrow> (\<forall>ts rest w r f. map bare ts = operand_tokens n \<longrightarrow> 4 * length ts + 2 \<le> f \<longrightarrow>
     parse_unary f (mk (ts @ rest) w r) = Inr (n, mk rest (w + wildcard_count n) (r + or_count n)))"

lemma reads_operandD:
  "reads_operand n \<Longrightarrow> map bare ts = operand_tokens n \<Longrightarrow> 4 * length ts + 2 \<le> f \<Longrightarrow>
   parse_unary f (mk (ts @ rest) w r) = Inr (n, mk rest (w + wildcard_count n) (r + or_count n))"
  by (simp add: reads_operand_def)

lemma operand_tokens_nonempty: "operand_tokens n \<noteq> []"
  by (cases n) (auto simp: operand_tokens_def)

lemma parse_and_loop_reads:
  assumes "list_all reads_operand ns" "map bare ts = concat (map (\<lambda>n. (KwAND, ''AND'') # operand_tokens n) ns)"
    "ends_operand rest" "4 * length ts + 3 \<le> f"
  shows "parse_and_loop f acc (mk (ts @ rest) w r)
    = Inr (acc @ ns, mk rest (w + sum_list (map wildcard_count ns)) (r + sum_list (map or_count ns)))"
  using assms
proof (induction ns arbitrary: ts f acc w r)
  case Nil
  then obtain f' where "f = Suc f'" by (cases f) auto
  with Nil show ?case by (cases rest) (auto simp: accept_def ends_operand_def)
next
  case (Cons n ns)
  then obtain t us vs where ts: "ts = t # us @ vs" "bare t = (KwAND, ''AND'')" "map bare us = operand_tokens n"
    "map bare vs = concat (map (\<lambda>n. (KwAND, ''AND'') # operand_tokens n) ns)"
    by (auto simp: map_eq_Cons_conv map_eq_append_conv)
  from Cons.prems(4) obtain f' where f: "f = Suc f'" by (cases f) auto
  have "parse_unary f' (mk (us @ vs @ rest) w r)
      = Inr (n, mk (vs @ rest) (w + wildcard_count n) (r + or_count n))"
    using Cons.prems f ts by (intro reads_operandD) auto
  moreover have "parse_and_loop f' (acc @ [n]) (mk (vs @ rest) (w + wildcard_count n) (r + or_count n))
      = Inr ((acc @ [n]) @ ns, mk rest (w + wildcard_count n + sum_list (map wildcard_count ns))
          (r + or_count n + sum_list (map or_count ns)))"
    using Cons.prems f ts by (intro Cons.IH) auto
  ultimately show ?case using f ts by (simp add: accept_def add.assoc)
qed


lemma parse_and_operand:
  assumes "reads_operand n" "map bare ts = operand_tokens n" "ends_operand rest" "4 * length ts + 3 \<le> f"
  shows "parse_and f (mk (ts @ rest) w r) = Inr (n, mk rest (w + wildcard_count n) (r + or_count n))"
proof -
  from assms(4) obtain f' where f: "f = Suc f'" by (cases f) auto
  have "parse_unary f' (mk (ts @ rest) w r) = Inr (n, mk rest (w + wildcard_count n) (r + or_count n))"
    using assms f by (intro reads_operandD) auto
  moreover have "ts \<noteq> []" using assms(2) by (cases n) (auto simp: operand_tokens_def)
  then have "parse_and_loop f' [n] (mk ([] @ rest) w' r') = Inr ([n] @ [], mk rest (w' + 0) (r' + 0))" for w' r'
    using parse_and_loop_reads [of "[]" "[]" rest f' "[n]" w' r'] assms(3,4) f by (cases ts) auto
  ultimately show ?thesis using f by simp
qed

lemma parse_or_loop_reads:
  assumes "list_all reads_operand ns" "map bare ts = concat (map (\<lambda>n. (KwOR, ''OR'') # operand_tokens n) ns)"
    "rest = [] \<or> qt_kind (hd rest) = RPar" "4 * length ts + 1 \<le> f"
  shows "parse_or_loop f acc (mk (ts @ rest) w r)
    = Inr (acc @ ns, mk rest (w + sum_list (map wildcard_count ns)) (r + length ns + sum_list (map or_count ns)))"
  using assms
proof (induction ns arbitrary: ts f acc w r)
  case Nil
  then obtain f' where "f = Suc f'" by (cases f) auto
  with Nil show ?case by (cases rest) (auto simp: accept_def)
next
  case (Cons n ns)
  then obtain t us vs where ts: "ts = t # us @ vs" "bare t = (KwOR, ''OR'')" "map bare us = operand_tokens n"
    "map bare vs = concat (map (\<lambda>n. (KwOR, ''OR'') # operand_tokens n) ns)"
    by (auto simp: map_eq_Cons_conv map_eq_append_conv)
  from Cons.prems(4) obtain f' where f: "f = Suc f'" by (cases f) auto
  have "ends_operand (vs @ rest)"
    using ts(4) Cons.prems(3) by (cases ns; cases vs) (auto simp: ends_operand_def)
  then have "parse_and f' (mk (us @ vs @ rest) w (r + 1))
      = Inr (n, mk (vs @ rest) (w + wildcard_count n) (r + 1 + or_count n))"
    using Cons.prems f ts by (intro parse_and_operand) auto
  moreover have "parse_or_loop f' (acc @ [n]) (mk (vs @ rest) (w + wildcard_count n) (r + 1 + or_count n))
      = Inr ((acc @ [n]) @ ns, mk rest (w + wildcard_count n + sum_list (map wildcard_count ns))
          (r + 1 + or_count n + length ns + sum_list (map or_count ns)))"
    using Cons.prems f ts by (intro Cons.IH) auto
  ultimately show ?case using f ts by (simp add: accept_def ac_simps)
qed

text \<open>A conjunction or disjunction whose operands are read is read up to a closing parenthesis or the end.\<close>

lemma parse_or_reads:
  assumes op: "list_all reads_operand ns" and ok: "node_ok (BoolNode op ns)"
    and ts: "map bare ts = node_tokens (BoolNode op ns)" and rest: "rest = [] \<or> qt_kind (hd rest) = RPar"
    and f: "4 * length ts + 4 \<le> f"
  shows "parse_or f (mk (ts @ rest) w r)
    = Inr (BoolNode op ns, mk rest (w + wildcard_count (BoolNode op ns)) (r + or_count (BoolNode op ns)))"
proof -
  obtain n ms where ns: "ns = n # ms" "ms \<noteq> []" using ok by (cases ns; cases "tl ns") auto
  obtain f1 f2 where f12: "f = Suc f1" "f1 = Suc f2" using f by (cases f; cases "f - 1") auto
  have n: "reads_operand n" "list_all reads_operand ms" using op ns by auto
  have e: "ends_operand rest" using rest by (auto simp: ends_operand_def)
  have L: "parse_or_loop f1 [m] (mk rest w' r') = Inr ([m], mk rest w' r')" for m w' r'
    using parse_or_loop_reads [of "[]" "[]" rest f1 "[m]" w' r'] rest f12 f by simp
  show ?thesis
  proof (cases op)
    case BoolAND
    with ts ns obtain us vs where us: "ts = us @ vs" "map bare us = operand_tokens n"
      "map bare vs = concat (map (\<lambda>n. (KwAND, ''AND'') # operand_tokens n) ms)"
      by (auto simp: map_eq_append_conv operand_tokens_def [symmetric] comp_def)
    obtain m where ne: "length us = Suc m" using us(2) operand_tokens_nonempty [of n] by (cases us) auto
    have "parse_unary f2 (mk (us @ vs @ rest) w r)
        = Inr (n, mk (vs @ rest) (w + wildcard_count n) (r + or_count n))"
      using n us f f12 by (intro reads_operandD) auto
    moreover have "parse_and_loop f2 [n] (mk (vs @ rest) w' r')
        = Inr ([n] @ ms, mk rest (w' + sum_list (map wildcard_count ms)) (r' + sum_list (map or_count ms)))" for w' r'
    proof (rule parse_and_loop_reads [OF n(2) us(3) e])
      show "4 * length vs + 3 \<le> f2" using f ne f12 us(1) by simp
    qed
    ultimately show ?thesis using f12 us ns L ok BoolAND by (simp add: ac_simps MAX_QUERY_TERMS_def)
  next
    case BoolOR
    with ts ns obtain us vs where us: "ts = us @ vs" "map bare us = operand_tokens n"
      "map bare vs = concat (map (\<lambda>n. (KwOR, ''OR'') # operand_tokens n) ms)"
      by (auto simp: map_eq_append_conv operand_tokens_def [symmetric] comp_def)
    have "ends_operand (vs @ rest)" using us(3) ns(2) by (cases ms; cases vs) (auto simp: ends_operand_def)
    then have "parse_and f1 (mk (us @ vs @ rest) w r)
        = Inr (n, mk (vs @ rest) (w + wildcard_count n) (r + or_count n))"
      using n us f f12 by (intro parse_and_operand) auto
    moreover have "parse_or_loop f1 [n] (mk (vs @ rest) w' r')
        = Inr ([n] @ ms, mk rest (w' + sum_list (map wildcard_count ms)) (r' + length ms + sum_list (map or_count ms)))" for w' r'
      using n us rest f f12 by (intro parse_or_loop_reads) auto
    ultimately show ?thesis using f12 us ns BoolOR by (simp add: ac_simps)
  qed
qed

lemma node_ok_reads: "node_ok n \<Longrightarrow> reads_operand n"
proof (induction n)
  case (BoolNode op ns)
  have ops: "list_all reads_operand ns" using BoolNode by (auto simp: list_all_iff)
  show ?case unfolding reads_operand_def
  proof (intro allI impI)
    fix ts rest w r f
    assume ts: "map bare ts = operand_tokens (BoolNode op ns)" and f: "4 * length ts + 2 \<le> f"
    obtain a us b where us: "ts = a # us @ [b]" "bare a = (LPar, ''('')" "bare b = (RPar, '')'')"
      "map bare us = node_tokens (BoolNode op ns)"
      using ts by (auto simp: operand_tokens_def map_eq_Cons_conv map_eq_append_conv simp del: node_tokens.simps)
    obtain f1 f2 where f12: "f = Suc f1" "f1 = Suc f2" using f by (cases f; cases "f - 1") auto
    have "parse_or f2 (mk (us @ b # rest) w r) = Inr (BoolNode op ns,
        mk (b # rest) (w + wildcard_count (BoolNode op ns)) (r + or_count (BoolNode op ns)))"
      using ops BoolNode.prems us f f12 by (intro parse_or_reads) auto
    with us f12 show "parse_unary f (mk (ts @ rest) w r)
        = Inr (BoolNode op ns, mk rest (w + wildcard_count (BoolNode op ns)) (r + or_count (BoolNode op ns)))"
      by (simp add: accept_def)
  qed
next
  case (NotNode n)
  show ?case unfolding reads_operand_def
  proof (intro allI impI)
    fix ts rest w r f
    assume ts: "map bare ts = operand_tokens (NotNode n)" and f: "4 * length ts + 2 \<le> f"
    obtain a us where us: "ts = a # us" "bare a = (KwNOT, ''NOT'')" "map bare us = operand_tokens n"
      using ts by (auto simp: operand_tokens_def map_eq_Cons_conv split: if_splits)
    obtain f1 where f1: "f = Suc f1" using f by (cases f) auto
    have "parse_unary f1 (mk (us @ rest) w r) = Inr (n, mk rest (w + wildcard_count n) (r + or_count n))"
      using NotNode us f f1 by (intro reads_operandD) auto
    with us f1 show "parse_unary f (mk (ts @ rest) w r)
        = Inr (NotNode n, mk rest (w + wildcard_count (NotNode n)) (r + or_count (NotNode n)))"
      by (simp add: accept_def)
  qed
next
  case (PredicateNode fld op v)
  show ?case unfolding reads_operand_def
  proof (intro allI impI)
    fix ts rest w r f
    assume ts: "map bare ts = operand_tokens (PredicateNode fld op v)" and f: "4 * length ts + 2 \<le> f"
    obtain a b c where "ts = [a, b, c]" "bare a = (WORD, pf_name fld)" "bare b = (OP, op)" "bare c = (STRING, v)"
      using ts by (auto simp: operand_tokens_def map_eq_Cons_conv)
    moreover obtain f1 f2 where "f = Suc f1" "f1 = Suc f2" using f by (cases f; cases "f - 1") auto
    ultimately show "parse_unary f (mk (ts @ rest) w r) = Inr (PredicateNode fld op v,
        mk rest (w + wildcard_count (PredicateNode fld op v)) (r + or_count (PredicateNode fld op v)))"
      using PredicateNode by (simp add: accept_def parse_atom_def parse_predicate_def consume_def)
  qed
next
  case (ExistsNode fld)
  show ?case unfolding reads_operand_def
  proof (intro allI impI)
    fix ts rest w r f
    assume ts: "map bare ts = operand_tokens (ExistsNode fld)" and f: "4 * length ts + 2 \<le> f"
    obtain a b c where "ts = [a, b, c]" "bare a = (WORD, ''has'')" "bare b = (OP, '':'')" "bare c = (WORD, pf_name fld)"
      using ts by (auto simp: operand_tokens_def map_eq_Cons_conv)
    moreover obtain f1 f2 where "f = Suc f1" "f1 = Suc f2" using f by (cases f; cases "f - 1") auto
    moreover have "py_lower ''has'' = ''has''" by (simp add: py_lower_def lower_char_def)
    ultimately show "parse_unary f (mk (ts @ rest) w r) = Inr (ExistsNode fld,
        mk rest (w + wildcard_count (ExistsNode fld)) (r + or_count (ExistsNode fld)))"
      using ExistsNode by (simp add: accept_def parse_atom_def parse_exists_def accept_colon_def consume_def)
  qed
next
  case (TextNode s)
  show ?case unfolding reads_operand_def
  proof (intro allI impI)
    fix ts rest w r f
    assume ts: "map bare ts = operand_tokens (TextNode s)" and f: "4 * length ts + 2 \<le> f"
    obtain a where "ts = [a]" "bare a = (STRING, s)"
      using ts by (auto simp: operand_tokens_def map_eq_Cons_conv)
    moreover obtain f1 f2 where "f = Suc f1" "f1 = Suc f2" using f by (cases f; cases "f - 1") auto
    ultimately show "parse_unary f (mk (ts @ rest) w r)
        = Inr (TextNode s, mk rest (w + wildcard_count (TextNode s)) (r + or_count (TextNode s)))"
      by (simp add: accept_def parse_atom_def)
  qed
qed

lemma parse_tokens_node:
  assumes ok: "node_ok n" and ts: "map bare ts = node_tokens n"
    and lim: "or_count n \<le> MAX_OR_TERMS" "wildcard_count n \<le> MAX_WILDCARD_CLAUSES"
  shows "parse_tokens ts = Inr n"
proof -
  let ?f = "parser_fuel ts"
  have "parse_or ?f (mk (ts @ []) 0 0) = Inr (n, mk [] (0 + wildcard_count n) (0 + or_count n))"
  proof (cases "is_bool n")
    case True
    then obtain op ns where n: "n = BoolNode op ns" by (cases n) auto
    have "list_all reads_operand ns" using ok node_ok_reads by (auto simp: n list_all_iff)
    then show ?thesis using ok ts unfolding n by (intro parse_or_reads) (auto simp: parser_fuel_def)
  next
    case False
    then have t: "map bare ts = operand_tokens n" using ts by (simp add: operand_tokens_def)
    obtain f1 where f1: "?f = Suc f1" "4 * length ts + 4 \<le> f1" by (simp add: parser_fuel_def)
    have "parse_and f1 (mk (ts @ []) 0 0) = Inr (n, mk [] (0 + wildcard_count n) (0 + or_count n))"
      using node_ok_reads [OF ok] t f1 by (intro parse_and_operand) (auto simp: ends_operand_def)
    moreover have "parse_or_loop f1 [n] (mk ([] @ []) w r) = Inr ([n] @ [], mk [] w r)" for w r
      using parse_or_loop_reads [of "[]" "[]" "[]" f1 "[n]" w r] f1 by simp
    ultimately show ?thesis using f1 by simp
  qed
  then show ?thesis using lim by (simp add: parse_tokens_def)
qed

subsection \<open>What an accepted query looks like\<close>

text \<open>
  Trees of the shape the parser builds: operators have at least two operands, conjunctions at
  most 64, and every field was resolved.
\<close>

fun node_wf :: "node \<Rightarrow> bool" where
  "node_wf (TextNode s) = True"
| "node_wf (PredicateNode f op v) = (\<exists>name. resolve_field name = Inr f)"
| "node_wf (ExistsNode f) = (\<exists>name. resolve_field name = Inr f)"
| "node_wf (NotNode n) = node_wf n"
| "node_wf (BoolNode op ns) = (2 \<le> length ns \<and> (op = BoolAND \<longrightarrow> length ns \<le> MAX_QUERY_TERMS) \<and> list_all node_wf ns)"

text \<open>The counters grow by what the tree read in between contains.\<close>

definition counted :: "parser_state \<Rightarrow> parser_state \<Rightarrow> nat \<Rightarrow> node list \<Rightarrow> bool" where
  "counted st st1 extra ns \<longleftrightarrow> list_all node_wf ns
     \<and> ps_or_terms st1 = ps_or_terms st + extra + sum_list (map or_count ns)
     \<and> ps_wildcard_clauses st1 = ps_wildcard_clauses st + sum_list (map wildcard_count ns)"

lemma accept_counts:
  "accept k st = Some st1 \<Longrightarrow> ps_or_terms st1 = ps_or_terms st \<and> ps_wildcard_clauses st1 = ps_wildcard_clauses st"
  by (auto simp: accept_def split: list.splits if_splits)

lemma parse_atom_counted: "parse_atom st = Inr (n, st1) \<Longrightarrow> counted st st1 0 [n]"
  by (auto simp: counted_def parse_atom_def parse_exists_def parse_predicate_def accept_colon_def consume_def res_simps
      split: list.splits if_splits option.splits)

lemma parse_counted:
  "parse_or f st = Inr (n, st1) \<Longrightarrow> counted st st1 0 [n]"
  "parse_or_loop f ns st = Inr (ms, st1) \<Longrightarrow> \<exists>ks. ms = ns @ ks \<and> counted st st1 (length ks) ks"
  "parse_and f st = Inr (n, st1) \<Longrightarrow> counted st st1 0 [n]"
  "parse_and_loop f ns st = Inr (ms, st1) \<Longrightarrow> \<exists>ks. ms = ns @ ks \<and> counted st st1 0 ks"
  "parse_unary f st = Inr (n, st1) \<Longrightarrow> counted st st1 0 [n]"
  "parse_primary f st = Inr (n, st1) \<Longrightarrow> counted st st1 0 [n]"
proof (induction f arbitrary: st n ns ms st1)
  case (Suc f)
  { case 1
    then obtain m st2 nodes where m: "parse_and f st = Inr (m, st2)" "parse_or_loop f [m] st2 = Inr (nodes, st1)"
      and n: "n = (if length nodes = 1 then hd nodes else BoolNode BoolOR nodes)" by (auto simp: res_simps)
    obtain ks where ks: "nodes = [m] @ ks" "counted st2 st1 (length ks) ks" using Suc.IH(2) [OF m(2)] by blast
    have "counted st st2 0 [m]" using Suc.IH(3) [OF m(1)] .
    with ks n show ?case by (cases ks) (auto simp: counted_def) }
  { case 2
    show ?case
    proof (cases "accept KwOR st")
      case None
      with 2 show ?thesis by (auto simp: counted_def)
    next
      case (Some st0)
      with 2 obtain m st2 where m: "parse_and f (st0\<lparr>ps_or_terms := ps_or_terms st0 + 1\<rparr>) = Inr (m, st2)"
        "parse_or_loop f (ns @ [m]) st2 = Inr (ms, st1)" by (auto simp: res_simps)
      obtain ks where ks: "ms = (ns @ [m]) @ ks" "counted st2 st1 (length ks) ks" using Suc.IH(2) [OF m(2)] by blast
      then show ?thesis using Suc.IH(3) [OF m(1)] accept_counts [OF Some]
        by (intro exI [of _ "m # ks"]) (auto simp: counted_def)
    qed }
  { case 3
    then obtain m st2 nodes where m: "parse_unary f st = Inr (m, st2)" "parse_and_loop f [m] st2 = Inr (nodes, st1)"
      and n: "n = (if length nodes = 1 then hd nodes else BoolNode BoolAND nodes)"
        "length nodes \<noteq> 1 \<Longrightarrow> length nodes \<le> MAX_QUERY_TERMS" by (auto simp: res_simps split: if_splits)
    obtain ks where ks: "nodes = [m] @ ks" "counted st2 st1 0 ks" using Suc.IH(4) [OF m(2)] by blast
    have "counted st st2 0 [m]" using Suc.IH(5) [OF m(1)] .
    with ks n show ?case by (cases ks) (auto simp: counted_def) }
  { case 4
    have step: "\<exists>ks. ms = ns @ ks \<and> counted st0 st1 0 ks"
      if r: "res_bind (parse_unary f st0) (\<lambda>(n, st2). parse_and_loop f (ns @ [n]) st2) = Inr (ms, st1)" for st0
    proof -
      from r obtain m st2 where m: "parse_unary f st0 = Inr (m, st2)" "parse_and_loop f (ns @ [m]) st2 = Inr (ms, st1)"
        by (auto simp: res_simps)
      obtain ks where ks: "ms = (ns @ [m]) @ ks" "counted st2 st1 0 ks" using Suc.IH(4) [OF m(2)] by blast
      then show ?thesis using Suc.IH(5) [OF m(1)] by (intro exI [of _ "m # ks"]) (auto simp: counted_def)
    qed
    show ?case
    proof (cases "accept KwAND st")
      case None
      with 4 step [of st] show ?thesis by (auto simp: counted_def split: if_splits)
    next
      case (Some st0)
      with 4 step [of st0] accept_counts [OF Some] show ?thesis by (simp add: counted_def)
    qed }
  { case 5
    then show ?case using Suc.IH(5,6)
      by (fastforce simp: res_simps counted_def split: option.splits dest: accept_counts) }
  { case 6
    show ?case
    proof (cases "accept LPar st")
      case None
      with 6 show ?thesis by (simp add: parse_atom_counted)
    next
      case (Some st0)
      with 6 obtain st2 where "parse_or f st0 = Inr (n, st2)" "accept RPar st2 = Some st1"
        by (auto simp: res_simps split: option.splits)
      then show ?thesis using Suc.IH(1) [of st0 n st2] accept_counts [OF Some] accept_counts [of RPar st2 st1]
        by (simp add: counted_def)
    qed }
qed simp_all

lemma parse_tokens_accepts:
  assumes "parse_tokens ts = Inr n"
  shows "node_wf n" "or_count n \<le> MAX_OR_TERMS" "wildcard_count n \<le> MAX_WILDCARD_CLAUSES"
proof -
  from assms obtain m st where m: "parse_or (parser_fuel ts) (mk ts 0 0) = Inr (m, st)"
    by (auto simp: parse_tokens_def res_simps)
  with assms have st: "parse_or (parser_fuel ts) (mk ts 0 0) = Inr (n, st)"
    "ps_or_terms st \<le> MAX_OR_TERMS" "ps_wildcard_clauses st \<le> MAX_WILDCARD_CLAUSES"
    by (cases "ps_tokens st"; auto simp: parse_tokens_def split: if_splits)+
  from parse_counted(1) [OF st(1)] st(2,3) show "node_wf n" "or_count n \<le> MAX_OR_TERMS"
    "wildcard_count n \<le> MAX_WILDCARD_CLAUSES" by (auto simp: counted_def)
qed

end
