(* ===== verification/Query_Eval.thy ===== *)
theory Query_Eval
  imports Query_Syntax
begin

section \<open>The search query language: queries and evaluation\<close>

text \<open>
  \<^verbatim>\<open>search/query_syntax.py\<close>: coercion of values, the OpenSearch query of a tree, and the
  evaluation of a tree on an event. The source calls \<^verbatim>\<open>dateutil\<close> for timestamps, which is a
  parameter, as is the arithmetic of floats (\<open>externals\<close>): \<open>date_parse\<close> is
  \<^verbatim>\<open>date_parser.parse\<close> (\<open>None\<close> when it raises), \<open>utc_isoformat\<close> the conversion to UTC
  and its ISO text (\<open>None\<close> when the conversion overflows), \<open>float_parse\<close>, \<open>float_str\<close>
  and \<open>float_trunc\<close> are \<^verbatim>\<open>float(str)\<close>, \<^verbatim>\<open>str(float)\<close> and \<^verbatim>\<open>int(float)\<close>, and
  \<open>container_str\<close> is \<^verbatim>\<open>str\<close> of a list or dict.
\<close>

datatype 'f py_num = PyInt int | PyFloat 'f

record ('d, 'f) externals =
  date_parse :: "string \<Rightarrow> 'd option"
  utc_isoformat :: "'d \<Rightarrow> string option"
  float_parse :: "string \<Rightarrow> 'f option"
  float_str :: "'f \<Rightarrow> string"
  float_trunc :: "'f \<Rightarrow> int option"
  num_less :: "'f py_num \<Rightarrow> 'f py_num \<Rightarrow> bool"
  num_less_eq :: "'f py_num \<Rightarrow> 'f py_num \<Rightarrow> bool"
  container_str :: "'f json \<Rightarrow> string"

subsection \<open>Coercion\<close>

datatype 'f coerced = CoNum "'f py_num" | CoStr string

definition normalize_string :: "('d, 'f) externals \<Rightarrow> 'f json \<Rightarrow> string" where
  "normalize_string X v = (case v of
     JNull \<Rightarrow> [] | JStr s \<Rightarrow> s | JBool b \<Rightarrow> (if b then ''True'' else ''False'')
   | JInt n \<Rightarrow> py_str_int n | JFloat x \<Rightarrow> float_str X x | _ \<Rightarrow> container_str X v)"

definition str_number :: "('d, 'f) externals \<Rightarrow> string \<Rightarrow> 'f py_num option" where
  "str_number X v = (if CHR ''.'' \<in> set v then map_option PyFloat (float_parse X v) else map_option PyInt (py_int v))"

definition coerce_value :: "('d, 'f) externals \<Rightarrow> field_spec \<Rightarrow> string \<Rightarrow> query_error + 'f coerced" where
  "coerce_value X spec v = (case fs_kind spec of
     Numeric \<Rightarrow> (case str_number X v of Some n \<Rightarrow> Inr (CoNum n) | None \<Rightarrow> Inl (NotNumeric v (fs_path spec)))
   | Date \<Rightarrow> (case date_parse X v of
       None \<Rightarrow> Inl (NotTimestamp v (fs_path spec))
     | Some d \<Rightarrow> (case utc_isoformat X d of None \<Rightarrow> Inl DateOverflowError | Some stamp \<Rightarrow> Inr (CoStr stamp)))
   | _ \<Rightarrow> Inr (CoStr v))"

subsection \<open>The OpenSearch query\<close>

text \<open>
  The request body's dictionaries by shape; \<open>'q\<close> is what the caller's
  \<^verbatim>\<open>text_query_builder\<close> returns. \<open>QShould\<close> carries \<^verbatim>\<open>minimum_should_match: 1\<close>.
\<close>

datatype ('f, 'q) es_query =
    QText 'q
  | QRange string string "'f coerced"
  | QTerm string "'f coerced"
  | QWildcard string string
  | QMatchPhrase string string
  | QExists string
  | QShould "('f, 'q) es_query list"
  | QMust "('f, 'q) es_query list"
  | QMustNot "('f, 'q) es_query list"

definition range_name :: "string \<Rightarrow> string option" where
  "range_name operator = map_of [(''>'', ''gt''), (''>='', ''gte''), (''<'', ''lt''), (''<='', ''lte'')] operator"

definition query_for_spec ::
  "('d, 'f) externals \<Rightarrow> string \<Rightarrow> string \<Rightarrow> field_spec \<Rightarrow> query_error + ('f, 'q) es_query" where
  "query_for_spec X operator v spec =
     res_bind (coerce_value X spec v) (\<lambda>coerced.
     case range_name operator of
       Some rn \<Rightarrow>
         if fs_kind spec \<notin> {Numeric, Date} then Inl (OperatorNotSupportedFor operator (fs_path spec))
         else Inr (QRange (fs_path spec) rn coerced)
     | None \<Rightarrow>
         if operator \<noteq> '':'' then Inl (OperatorNotSupported operator)
         else if fs_kind spec \<in> {Numeric, Date} then Inr (QTerm (fs_path spec) coerced)
         else if list_ex wildcard_char v then
           if \<not> fs_wildcard spec then Inl (WildcardsNotSupported (fs_path spec))
           else if hd v = CHR ''*'' \<and> \<not> fs_leading_wildcard spec then Inl (LeadingWildcardsNotSupported (fs_path spec))
           else Inr (QWildcard (fs_path spec) v)
         else if fs_kind spec = TextKind then Inr (QMatchPhrase (fs_path spec) v)
         else Inr (QTerm (fs_path spec) (CoStr v)))"

record query_filter =
  qf_field :: string
  qf_operator :: string
  qf_value :: string

fun collect_filters :: "node \<Rightarrow> query_filter list" where
  "collect_filters (PredicateNode f op v) = [\<lparr>qf_field = pf_name f, qf_operator = op, qf_value = v\<rparr>]"
| "collect_filters (ExistsNode f) = [\<lparr>qf_field = pf_name f, qf_operator = ''has'', qf_value = []\<rparr>]"
| "collect_filters (NotNode n) = collect_filters n"
| "collect_filters (BoolNode op ns) = concat (map collect_filters ns)"
| "collect_filters (TextNode s) = []"

fun has_text_terms :: "node \<Rightarrow> bool" where
  "has_text_terms (TextNode s) = True"
| "has_text_terms (NotNode n) = has_text_terms n"
| "has_text_terms (BoolNode op ns) = list_ex has_text_terms ns"
| "has_text_terms _ = False"

fun build_query :: "('d, 'f) externals \<Rightarrow> (string \<Rightarrow> 'q) \<Rightarrow> node \<Rightarrow> query_error + ('f, 'q) es_query" where
  "build_query X tqb (TextNode s) = Inr (QText (tqb s))"
| "build_query X tqb (ExistsNode f) = Inr (case pf_specs f of
     [spec] \<Rightarrow> QExists (fs_path spec) | specs \<Rightarrow> QShould (map (\<lambda>spec. QExists (fs_path spec)) specs))"
| "build_query X tqb (PredicateNode f op v) =
     res_bind (res_map (query_for_spec X op v) (pf_specs f)) (\<lambda>clauses.
     Inr (case clauses of [c] \<Rightarrow> c | _ \<Rightarrow> QShould clauses))"
| "build_query X tqb (NotNode n) = res_bind (build_query X tqb n) (\<lambda>q. Inr (QMustNot [q]))"
| "build_query X tqb (BoolNode BoolOR ns) = res_bind (res_map (build_query X tqb) ns) (\<lambda>qs. Inr (QShould qs))"
| "build_query X tqb (BoolNode BoolAND ns) = res_bind (res_map (build_query X tqb) ns) (\<lambda>qs. Inr (QMust qs))"

subsection \<open>Evaluation on an event\<close>

fun json_step :: "string \<Rightarrow> 'f json \<Rightarrow> 'f json list" where
  "json_step part (JObj d) = (case map_of d part of
     None \<Rightarrow> [] | Some JNull \<Rightarrow> [] | Some (JList xs) \<Rightarrow> xs | Some v \<Rightarrow> [v])"
| "json_step part (JList xs) = xs"
| "json_step part _ = []"

fun flatten_item :: "'f json \<Rightarrow> 'f json list" where
  "flatten_item (JList xs) = xs"
| "flatten_item v = [v]"

definition iter_values :: "'f json \<Rightarrow> string \<Rightarrow> 'f json list" where
  "iter_values payload path = concat (map flatten_item
     (foldl (\<lambda>current part. concat (map (json_step part) current)) [payload] (py_split_dot path)))"

text \<open>
  The pattern of \<^verbatim>\<open>_match_string\<close>: \<open>*\<close> is \<^verbatim>\<open>.*\<close>, \<open>?\<close> is \<^verbatim>\<open>.\<close>, any other
  character itself ignoring case; the dot does not match a line feed, and the final \<^verbatim>\<open>$\<close>
  matches before a line feed that ends the text.
\<close>

fun match_string :: "string \<Rightarrow> string \<Rightarrow> bool" where
  "match_string s [] = (s = [] \<or> s = [line_feed])"
| "match_string [] (p # ps) = (p = CHR ''*'' \<and> match_string [] ps)"
| "match_string (c # cs) (p # ps) =
    (if p = CHR ''*'' then match_string (c # cs) ps \<or> c \<noteq> line_feed \<and> match_string cs (p # ps)
     else if p = CHR ''?'' then c \<noteq> line_feed \<and> match_string cs ps
     else lower_char c = lower_char p \<and> match_string cs ps)"

definition candidate_number :: "('d, 'f) externals \<Rightarrow> 'f json \<Rightarrow> 'f py_num option" where
  "candidate_number X v = (case v of
     JStr s \<Rightarrow> str_number X s
   | JBool b \<Rightarrow> Some (PyInt (if b then 1 else 0))
   | JInt n \<Rightarrow> Some (PyInt n)
   | JFloat x \<Rightarrow> if CHR ''.'' \<in> set (float_str X x) then Some (PyFloat x) else map_option PyInt (float_trunc X x)
   | _ \<Rightarrow> None)"

text \<open>The four comparisons of numbers and of strings (ISO timestamps, by code point).\<close>

fun str_less :: "string \<Rightarrow> string \<Rightarrow> bool" where
  "str_less s [] = False"
| "str_less [] (d # ds) = True"
| "str_less (c # cs) (d # ds) = (code_point c < code_point d \<or> c = d \<and> str_less cs ds)"

definition compare_num :: "('d, 'f) externals \<Rightarrow> string \<Rightarrow> 'f py_num \<Rightarrow> 'f py_num \<Rightarrow> bool" where
  "compare_num X operator a b =
    (if operator = ''>'' then num_less X b a else if operator = ''>='' then num_less_eq X b a
     else if operator = ''<'' then num_less X a b else num_less_eq X a b)"

definition compare_str :: "string \<Rightarrow> string \<Rightarrow> string \<Rightarrow> bool" where
  "compare_str operator a b =
    (if operator = ''>'' then str_less b a else if operator = ''>='' then \<not> str_less a b
     else if operator = ''<'' then str_less a b else \<not> str_less b a)"

definition evaluate_spec ::
  "('d, 'f) externals \<Rightarrow> field_spec \<Rightarrow> string \<Rightarrow> string \<Rightarrow> 'f json \<Rightarrow> query_error + bool" where
  "evaluate_spec X spec operator expected candidate =
    (if candidate = JNull then Inr False
     else if range_name operator \<noteq> None then
       res_bind (coerce_value X spec expected) (\<lambda>expected_value.
       if fs_kind spec = Date then
         (case date_parse X (normalize_string X candidate) of
            None \<Rightarrow> Inr False
          | Some d \<Rightarrow> (case utc_isoformat X d of
              None \<Rightarrow> Inl DateOverflowError
            | Some stamp \<Rightarrow> (case expected_value of
                CoStr e \<Rightarrow> Inr (compare_str operator stamp e) | CoNum _ \<Rightarrow> Inl TypeErrorRaised)))
       else
         (case candidate_number X candidate of
            None \<Rightarrow> Inr False
          | Some n \<Rightarrow> (case expected_value of
              CoNum e \<Rightarrow> Inr (compare_num X operator n e) | CoStr _ \<Rightarrow> Inl TypeErrorRaised)))
     else let candidate_text = normalize_string X candidate in
       if list_ex wildcard_char expected then Inr (match_string candidate_text expected)
       else if fs_kind spec \<noteq> Numeric then Inr (py_lower candidate_text = py_lower expected)
       else Inr (candidate_text = expected))"

fun evaluate :: "('d, 'f) externals \<Rightarrow> 'f json \<Rightarrow> string \<Rightarrow> node \<Rightarrow> query_error + bool" where
  "evaluate X payload haystack (TextNode s) = Inr (py_in (py_lower s) haystack)"
| "evaluate X payload haystack (ExistsNode f) =
     Inr (list_ex (\<lambda>spec. iter_values payload (fs_path spec) \<noteq> []) (pf_specs f))"
| "evaluate X payload haystack (PredicateNode f op v) =
     res_any (\<lambda>spec. res_any (evaluate_spec X spec op v) (iter_values payload (fs_path spec))) (pf_specs f)"
| "evaluate X payload haystack (NotNode n) = res_bind (evaluate X payload haystack n) (\<lambda>b. Inr (\<not> b))"
| "evaluate X payload haystack (BoolNode BoolOR ns) = res_any (evaluate X payload haystack) ns"
| "evaluate X payload haystack (BoolNode BoolAND ns) = res_all (evaluate X payload haystack) ns"

subsection \<open>The two entry points\<close>

record ('f, 'q) query_info =
  qi_mode :: string
  qi_normalized_query :: string
  qi_applied_filters :: "query_filter list"
  qi_ast :: "node option"
  qi_query :: "('f, 'q) es_query"

definition analyze_query_syntax ::
  "('d, 'f) externals \<Rightarrow> string \<Rightarrow> (string \<Rightarrow> 'q) \<Rightarrow> query_error + ('f, 'q) query_info" where
  "analyze_query_syntax X query tqb =
    (let txt = py_strip query in
     if txt = [] then Inr \<lparr>qi_mode = ''plain'', qi_normalized_query = [], qi_applied_filters = [],
         qi_ast = None, qi_query = QText (tqb [])\<rparr>
     else if \<not> query_has_advanced_syntax txt then Inr \<lparr>qi_mode = ''plain'', qi_normalized_query = txt,
         qi_applied_filters = [], qi_ast = None, qi_query = QText (tqb txt)\<rparr>
     else
       res_bind (tokenize txt) (\<lambda>tokens.
       res_bind (parse_tokens tokens) (\<lambda>ast.
       let filters = collect_filters ast;
           mode = (if has_text_terms ast \<and> filters \<noteq> [] then ''mixed'' else ''advanced'') in
       res_bind (build_query X tqb ast) (\<lambda>q.
       Inr \<lparr>qi_mode = mode, qi_normalized_query = txt, qi_applied_filters = filters,
            qi_ast = Some ast, qi_query = q\<rparr>))))"

definition evaluate_query_syntax ::
  "('d, 'f) externals \<Rightarrow> ('f, 'q) query_info \<Rightarrow> 'f json \<Rightarrow> string \<Rightarrow> query_error + bool" where
  "evaluate_query_syntax X info payload haystack = (case qi_ast info of
     None \<Rightarrow> (let t = py_lower (py_strip (qi_normalized_query info)) in Inr (t = [] \<or> py_in t haystack))
   | Some ast \<Rightarrow> evaluate X payload haystack ast)"

section \<open>Properties of queries and evaluation\<close>

subsection \<open>One Boolean meaning\<close>

text \<open>
  The Boolean function of a tree over the truth of its texts, existence tests and predicates
  (a predicate holds when one of its fields does).
\<close>

fun denote :: "(string \<Rightarrow> bool) \<Rightarrow> (field_spec \<Rightarrow> bool) \<Rightarrow> (field_spec \<Rightarrow> string \<Rightarrow> string \<Rightarrow> bool) \<Rightarrow> node \<Rightarrow> bool" where
  "denote T E P (TextNode s) = T s"
| "denote T E P (ExistsNode f) = list_ex E (pf_specs f)"
| "denote T E P (PredicateNode f op v) = list_ex (\<lambda>spec. P spec op v) (pf_specs f)"
| "denote T E P (NotNode n) = (\<not> denote T E P n)"
| "denote T E P (BoolNode BoolOR ns) = list_ex (denote T E P) ns"
| "denote T E P (BoolNode BoolAND ns) = list_all (denote T E P) ns"

text \<open>The meaning OpenSearch documents for Boolean clauses, over a truth value of the leaf queries.\<close>

fun es_sat :: "(('f, 'q) es_query \<Rightarrow> bool) \<Rightarrow> ('f, 'q) es_query \<Rightarrow> bool" where
  "es_sat v (QShould qs) = list_ex (es_sat v) qs"
| "es_sat v (QMust qs) = list_all (es_sat v) qs"
| "es_sat v (QMustNot qs) = (\<not> list_ex (es_sat v) qs)"
| "es_sat v q = v q"

definition spec_sat :: "('d, 'f) externals \<Rightarrow> (('f, 'q) es_query \<Rightarrow> bool) \<Rightarrow> field_spec \<Rightarrow> string \<Rightarrow> string \<Rightarrow> bool" where
  "spec_sat X v spec op val = (case query_for_spec X op val spec of Inr q \<Rightarrow> es_sat v q | Inl e \<Rightarrow> False)"

lemma res_map_list_ex:
  assumes "res_map f xs = Inr ys"
  shows "list_ex P ys \<longleftrightarrow> list_ex (\<lambda>x. case f x of Inr y \<Rightarrow> P y | Inl e \<Rightarrow> False) xs"
  using assms by (induction xs arbitrary: ys) (auto simp: res_simps)

lemma res_map_list_all:
  assumes "res_map f xs = Inr ys"
  shows "list_all P ys \<longleftrightarrow> list_all (\<lambda>x. case f x of Inr y \<Rightarrow> P y | Inl e \<Rightarrow> False) xs"
  using assms by (induction xs arbitrary: ys) (auto simp: res_simps)

lemma res_map_Inr_ex: "res_map f xs = Inr ys \<Longrightarrow> x \<in> set xs \<Longrightarrow> \<exists>y. f x = Inr y"
  by (auto simp: res_map_eq_Inr list_all2_conv_all_nth in_set_conv_nth)

lemma build_query_denotes:
  assumes "build_query X tqb n = Inr q"
  shows "es_sat v q \<longleftrightarrow> denote (\<lambda>s. v (QText (tqb s))) (\<lambda>spec. v (QExists (fs_path spec))) (spec_sat X v) n"
  using assms
proof (induction X tqb n arbitrary: q rule: build_query.induct)
  case (2 X tqb f)
  then show ?case by (auto simp: list_ex_iff split: list.splits)
next
  case (3 X tqb f op val)
  then obtain cs where cs: "res_map (query_for_spec X op val) (pf_specs f) = Inr cs"
    "q = (case cs of [c] \<Rightarrow> c | _ \<Rightarrow> QShould cs)" by (auto simp: res_simps)
  have "es_sat v q \<longleftrightarrow> list_ex (es_sat v) cs" by (auto simp: cs(2) split: list.splits)
  with res_map_list_ex [OF cs(1), of "es_sat v"] show ?case by (simp add: spec_sat_def)
next
  case (5 X tqb ns)
  then obtain qs where qs: "res_map (build_query X tqb) ns = Inr qs" "q = QShould qs" by (auto simp: res_simps)
  have "(case build_query X tqb n of Inr y \<Rightarrow> es_sat v y | Inl e \<Rightarrow> False)
      = denote (\<lambda>s. v (QText (tqb s))) (\<lambda>spec. v (QExists (fs_path spec))) (spec_sat X v) n" if n: "n \<in> set ns" for n
  proof -
    have "\<exists>y. build_query X tqb n = Inr y" using qs(1) n by (rule res_map_Inr_ex)
    with "5.IH" [OF n] show ?thesis by auto
  qed
  with res_map_list_ex [OF qs(1), of "es_sat v"] qs(2) show ?case by (simp add: list_ex_iff)
next
  case (6 X tqb ns)
  then obtain qs where qs: "res_map (build_query X tqb) ns = Inr qs" "q = QMust qs" by (auto simp: res_simps)
  have "(case build_query X tqb n of Inr y \<Rightarrow> es_sat v y | Inl e \<Rightarrow> False)
      = denote (\<lambda>s. v (QText (tqb s))) (\<lambda>spec. v (QExists (fs_path spec))) (spec_sat X v) n" if n: "n \<in> set ns" for n
  proof -
    have "\<exists>y. build_query X tqb n = Inr y" using qs(1) n by (rule res_map_Inr_ex)
    with "6.IH" [OF n] show ?thesis by auto
  qed
  with res_map_list_all [OF qs(1), of "es_sat v"] qs(2) show ?case by (simp add: list_all_iff)
qed (auto simp: res_simps)

subsection \<open>An analysed query can be evaluated\<close>

text \<open>The converted candidates are dates the calendar can express in UTC.\<close>

definition dates_convert :: "('d, 'f) externals \<Rightarrow> bool" where
  "dates_convert X \<longleftrightarrow> (\<forall>s d. date_parse X s = Some d \<longrightarrow> utc_isoformat X d \<noteq> None)"

definition spec_holds :: "('d, 'f) externals \<Rightarrow> 'f json \<Rightarrow> field_spec \<Rightarrow> string \<Rightarrow> string \<Rightarrow> bool" where
  "spec_holds X payload spec op v \<longleftrightarrow>
     list_ex (\<lambda>c. evaluate_spec X spec op v c = Inr True) (iter_values payload (fs_path spec))"

lemma evaluate_spec_total:
  assumes "query_for_spec X op v spec = Inr q" "dates_convert X"
  shows "\<exists>b. evaluate_spec X spec op v c = Inr b"
proof (cases "range_name op")
  case None
  then show ?thesis by (auto simp: evaluate_spec_def Let_def)
next
  case (Some rn)
  from assms(1) obtain co where co: "coerce_value X spec v = Inr co" "fs_kind spec = Numeric \<or> fs_kind spec = Date"
    using Some by (auto simp: query_for_spec_def res_simps split: if_splits)
  then have "fs_kind spec = Numeric \<and> (\<exists>n. co = CoNum n) \<or> fs_kind spec = Date \<and> (\<exists>s. co = CoStr s)"
    by (auto simp: coerce_value_def split: option.splits)
  moreover have "utc_isoformat X d \<noteq> None" if "date_parse X (normalize_string X c) = Some d" for d
    using assms(2) that by (simp add: dates_convert_def)
  ultimately show ?thesis using co(1) Some
    by (fastforce simp: evaluate_spec_def split: option.splits)
qed

lemma evaluate_denotes:
  assumes "build_query X tqb n = Inr q" "dates_convert X"
  shows "evaluate X payload haystack n
    = Inr (denote (\<lambda>s. py_in (py_lower s) haystack) (\<lambda>spec. iter_values payload (fs_path spec) \<noteq> [])
        (spec_holds X payload) n)"
  using assms
proof (induction X tqb n arbitrary: q rule: build_query.induct)
  case (3 X tqb f op v)
  then obtain cs where cs: "res_map (query_for_spec X op v) (pf_specs f) = Inr cs"
    and "q = (case cs of [c] \<Rightarrow> c | _ \<Rightarrow> QShould cs)" by (auto simp: res_simps)
  have spec: "evaluate_spec X spec op v c = Inr (evaluate_spec X spec op v c = Inr True)"
    if m: "spec \<in> set (pf_specs f)" for spec c
  proof -
    obtain b where "evaluate_spec X spec op v c = Inr b"
      using evaluate_spec_total [OF _ "3.prems"(2)] res_map_Inr_ex [OF cs m] by blast
    then show ?thesis by simp
  qed
  then have "res_any (evaluate_spec X spec op v) (iter_values payload (fs_path spec))
      = Inr (spec_holds X payload spec op v)" if "spec \<in> set (pf_specs f)" for spec
    unfolding spec_holds_def using that by (intro res_any_Inr)
  then show ?case by (simp add: res_any_Inr [where g = "\<lambda>spec. spec_holds X payload spec op v"])
next
  case (4 X tqb n)
  then show ?case by (auto simp: res_simps)
next
  case (5 X tqb ns)
  then obtain qs where qs: "res_map (build_query X tqb) ns = Inr qs" by (auto simp: res_simps)
  have "evaluate X payload haystack n = Inr (denote (\<lambda>s. py_in (py_lower s) haystack)
      (\<lambda>spec. iter_values payload (fs_path spec) \<noteq> []) (spec_holds X payload) n)" if "n \<in> set ns" for n
    using "5.IH" [OF that _ "5.prems"(2)] res_map_Inr_ex [OF qs that] by blast
  then show ?case by (simp add: res_any_Inr)
next
  case (6 X tqb ns)
  then obtain qs where qs: "res_map (build_query X tqb) ns = Inr qs" by (auto simp: res_simps)
  have "evaluate X payload haystack n = Inr (denote (\<lambda>s. py_in (py_lower s) haystack)
      (\<lambda>spec. iter_values payload (fs_path spec) \<noteq> []) (spec_holds X payload) n)" if "n \<in> set ns" for n
    using "6.IH" [OF that _ "6.prems"(2)] res_map_Inr_ex [OF qs that] by blast
  then show ?case by (simp add: res_all_Inr)
qed auto

subsection \<open>What a wildcard pattern matches\<close>

text \<open>One pattern character against the piece of text it consumes.\<close>

definition piece :: "char \<Rightarrow> string \<Rightarrow> bool" where
  "piece p t \<longleftrightarrow>
    (if p = CHR ''*'' then line_feed \<notin> set t
     else if p = CHR ''?'' then \<exists>c. t = [c] \<and> c \<noteq> line_feed
     else \<exists>c. t = [c] \<and> lower_char c = lower_char p)"

definition matches :: "string \<Rightarrow> string \<Rightarrow> bool" where
  "matches s p \<longleftrightarrow> (\<exists>ts. list_all2 piece p ts \<and> (s = concat ts \<or> s = concat ts @ [line_feed]))"

lemma matchesI:
  "list_all2 piece p ts \<Longrightarrow> s = concat ts \<or> s = concat ts @ [line_feed] \<Longrightarrow> matches s p"
  by (auto simp: matches_def)

lemma matches_ConsE:
  assumes "matches s (p # ps)"
  obtains t ts where "piece p t" "list_all2 piece ps ts" "s = t @ concat ts \<or> s = (t @ concat ts) @ [line_feed]"
  using assms by (auto simp: matches_def list_all2_Cons1)

lemma matches_star:
  assumes star: "p = CHR ''*''"
  shows "matches (c # cs) (p # ps) \<longleftrightarrow> matches (c # cs) ps \<or> c \<noteq> line_feed \<and> matches cs (p # ps)" (is "?L \<longleftrightarrow> ?R")
proof
  assume ?L
  then obtain t ts where t: "piece p t" "list_all2 piece ps ts"
    "c # cs = t @ concat ts \<or> c # cs = (t @ concat ts) @ [line_feed]" by (rule matches_ConsE)
  show ?R
  proof (cases t)
    case Nil
    with t show ?thesis by (auto intro: matchesI)
  next
    case (Cons d t')
    with t star have "piece p t'" "c \<noteq> line_feed" by (auto simp: piece_def)
    moreover from t Cons have "cs = concat (t' # ts) \<or> cs = concat (t' # ts) @ [line_feed]" by auto
    ultimately show ?thesis using t(2) matchesI [of "p # ps" "t' # ts" cs] by auto
  qed
next
  assume ?R
  then show ?L
  proof
    assume "matches (c # cs) ps"
    then obtain ts where "list_all2 piece ps ts" "c # cs = concat ts \<or> c # cs = concat ts @ [line_feed]"
      by (auto simp: matches_def)
    with star show ?L using matchesI [of "p # ps" "[] # ts" "c # cs"] by (simp add: piece_def)
  next
    assume "c \<noteq> line_feed \<and> matches cs (p # ps)"
    then obtain t ts where "c \<noteq> line_feed" "piece p t" "list_all2 piece ps ts"
      "cs = t @ concat ts \<or> cs = (t @ concat ts) @ [line_feed]" by (auto elim: matches_ConsE)
    with star show ?L using matchesI [of "p # ps" "(c # t) # ts" "c # cs"] by (auto simp: piece_def)
  qed
qed

lemma matches_char:
  assumes nostar: "p \<noteq> CHR ''*''"
  shows "matches (c # cs) (p # ps) \<longleftrightarrow> piece p [c] \<and> matches cs ps" (is "?L \<longleftrightarrow> ?R")
proof
  assume ?L
  then obtain t ts where t: "piece p t" "list_all2 piece ps ts"
    "c # cs = t @ concat ts \<or> c # cs = (t @ concat ts) @ [line_feed]" by (rule matches_ConsE)
  moreover from t(1) nostar obtain d where "t = [d]" by (auto simp: piece_def split: if_splits)
  ultimately show ?R by (auto intro: matchesI)
next
  assume ?R
  then obtain ts where "piece p [c]" "list_all2 piece ps ts" "cs = concat ts \<or> cs = concat ts @ [line_feed]"
    by (auto simp: matches_def)
  then show ?L using matchesI [of "p # ps" "[c] # ts" "c # cs"] by auto
qed

lemma match_string_matches: "match_string s p \<longleftrightarrow> matches s p"
proof (induction s p rule: match_string.induct)
  case (1 s)
  then show ?case by (simp add: matches_def)
next
  case (2 p ps)
  have "matches [] (p # ps) \<longleftrightarrow> piece p [] \<and> matches [] ps"
  proof
    assume "piece p [] \<and> matches [] ps"
    then obtain ts where "list_all2 piece (p # ps) ([] # ts)" "[] = concat ([] # ts)" by (auto simp: matches_def)
    then show "matches [] (p # ps)" by (rule matchesI [OF _ disjI1])
  qed (auto elim!: matches_ConsE intro: matchesI)
  moreover have "piece p [] \<longleftrightarrow> p = CHR ''*''" by (auto simp: piece_def)
  ultimately show ?case using 2 by auto
next
  case (3 c cs p ps)
  show ?case
  proof (cases "p = CHR ''*''")
    case True
    with 3 show ?thesis by (simp add: matches_star)
  next
    case False
    have "piece p [c] \<longleftrightarrow> (if p = CHR ''?'' then c \<noteq> line_feed else lower_char c = lower_char p)"
      using False by (simp add: piece_def)
    with False 3 show ?thesis by (cases "p = CHR ''?''") (simp_all add: matches_char)
  qed
qed

end
