(* ===== verification/Query_Properties.thy ===== *)
theory Query_Properties
  imports Query_Eval
begin

section \<open>What the query language guarantees\<close>

text \<open>
  The properties of \<^verbatim>\<open>search/query_syntax.py\<close>, each with a concrete instance. The instances
  use the field \<^verbatim>\<open>case_id\<close> and an interpretation of the external functions on exact
  decimal-free numbers.
\<close>

lemma FIELD_SPECS_lookup:
  "map_of FIELD_SPECS k = (case map_of (rev FIELD_SPECS_update) k of
     None \<Rightarrow> map_of FIELD_SPECS_table k | Some f \<Rightarrow> Some f)"
  using pydict.look_assigns [of FIELD_SPECS_update FIELD_SPECS_table k] by (simp add: FIELD_SPECS_def)

definition example_field :: parsed_field where
  "example_field = \<lparr>pf_name = ''case_id'', pf_specs = [FieldSpec ''case_id'' Keyword True False]\<rparr>"

lemma example_field_resolves: "resolve_field ''case_id'' = Inr example_field"
proof -
  have "py_strip ''case_id'' = ''case_id''" by (simp add: py_strip_def py_rstrip_def py_isspace_def)
  moreover have "map_of FIELD_ALIASES ''case_id'' = None" by (simp add: FIELD_ALIASES_def)
  moreover have "map_of FIELD_SPECS ''case_id'' = Some (FieldSpec ''case_id'' Keyword True False)"
    by (simp add: FIELD_SPECS_lookup FIELD_SPECS_update_def FIELD_SPECS_table_def)
  ultimately show ?thesis by (simp add: resolve_field_def example_field_def Let_def)
qed

definition example_node :: node where
  "example_node = BoolNode BoolOR [PredicateNode example_field '':'' ''a*'', NotNode (BoolNode BoolAND [TextNode ''x'', ExistsNode example_field])]"

definition example_tokens :: "query_token list" where
  "example_tokens = map (\<lambda>(k, v). Token k v 0) (node_tokens example_node)"

lemma example_node_ok: "node_ok example_node" "map bare example_tokens = node_tokens example_node"
    "or_count example_node \<le> MAX_OR_TERMS" "wildcard_count example_node \<le> MAX_WILDCARD_CLAUSES"
  using example_field_resolves
  by (simp_all add: example_node_def example_tokens_def example_field_def MAX_QUERY_TERMS_def MAX_OR_TERMS_def
      MAX_WILDCARD_CLAUSES_def py_lower_def lower_char_def Token_def wildcard_char_def)



text \<open>C5: The parser reads the tokens of any printable syntax tree back, at any token positions, when the tree respects the limits on clauses.\<close>

theorem query_parse_roundtrip:
  assumes "node_ok n" and "map bare ts = node_tokens n"
    and "or_count n \<le> MAX_OR_TERMS" and "wildcard_count n \<le> MAX_WILDCARD_CLAUSES"
  shows "parse_tokens ts = Inr n"
  using parse_tokens_node assms .

theorem query_parse_roundtrip_witness: "parse_tokens example_tokens = Inr example_node"
  using query_parse_roundtrip example_node_ok by blast

text \<open>C7: An accepted query has at most 20 OR operators and 10 wildcard clauses, conjunctions of at most 64 operands, operators with at least two operands, and only resolved fields.\<close>

theorem query_parser_limits:
  assumes "parse_tokens ts = Inr n"
  shows "node_wf n \<and> or_count n \<le> 20 \<and> wildcard_count n \<le> 10"
  using parse_tokens_accepts [OF assms] by (simp add: MAX_OR_TERMS_def MAX_WILDCARD_CLAUSES_def)

theorem query_parser_limits_witness: "node_wf example_node \<and> or_count example_node \<le> 20 \<and> wildcard_count example_node \<le> 10"
  using query_parser_limits parse_tokens_node [OF example_node_ok] by blast

text \<open>C8: Parsing ends on every token list: the recursion depth the model allows is never exhausted, so the outcome is a tree or one of the language's errors.\<close>

theorem query_parser_terminates: "parse_tokens ts \<noteq> Inl OutOfFuel"
  by (rule parse_tokens_fuel)





text \<open>C9: Wildcard matching is exact: a text matches a pattern iff it splits into pieces, one per pattern character, where a star takes any text without a line feed, a question mark one such character and any other character itself up to case; one final line feed of the text is ignored.\<close>

theorem wildcard_match_exact:
  "match_string s p \<longleftrightarrow> (\<exists>ts. list_all2 piece p ts \<and> (s = concat ts \<or> s = concat ts @ [line_feed]))"
  by (simp add: match_string_matches matches_def)

text \<open>C10: Every field shortcut resolves to at least one field of the table, each stored under its own path.\<close>

theorem field_aliases_resolve:
  assumes "dict_get FIELD_ALIASES (py_strip name) = Some ts"
  shows "\<exists>pf. resolve_field name = Inr pf \<and> map fs_path (pf_specs pf) = ts \<and> ts \<noteq> []"
proof -
  have mem: "(py_strip name, ts) \<in> set FIELD_ALIASES" using assms by (rule map_of_SomeD)
  have known: "map_of FIELD_SPECS t \<noteq> None" if "t \<in> set ts" for t
    using field_aliases_defined(2) [OF mem] that by (auto simp: map_of_eq_None_iff)
  then have "None \<notin> set (map (map_of FIELD_SPECS) ts)" by (force simp: image_iff)
  with assms have r: "resolve_field name = Inr \<lparr>pf_name = py_strip name, pf_specs = map (the \<circ> map_of FIELD_SPECS) ts\<rparr>"
    by (simp add: resolve_field_def Let_def)
  have "fs_path (the (map_of FIELD_SPECS t)) = t" if "t \<in> set ts" for t
    using known [OF that] field_specs_paths map_of_SomeD [of FIELD_SPECS t] by auto
  then have "map fs_path (map (the \<circ> map_of FIELD_SPECS) ts) = ts" by (simp add: map_idI)
  with r field_aliases_defined(1) [OF mem] show ?thesis by simp
qed

theorem field_aliases_resolve_witness:
  "\<exists>pf. resolve_field ''host'' = Inr pf \<and> map fs_path (pf_specs pf) = [''host.name'', ''linux.hostname'']"
proof -
  have "py_strip ''host'' = ''host''" by (simp add: py_strip_def py_rstrip_def py_isspace_def)
  then have "map_of FIELD_ALIASES (py_strip ''host'') = Some [''host.name'', ''linux.hostname'']"
    by (simp add: FIELD_ALIASES_def)
  from field_aliases_resolve [OF this] show ?thesis by (elim exE conjE) (intro exI conjI)
qed

end
