(* ===== verification/Ext_Journal.thy ===== *)
theory Ext_Journal
  imports Byte_Source
begin

section \<open>The ext3/ext4 journal\<close>

text \<open>
  \<^verbatim>\<open>disk_images/ext_journal.py\<close>, class \<^verbatim>\<open>ExtJournal\<close>: the superblock, the index of the journal's
  block copies, directory blocks, and inodes. The volume's reader and the journal file's
  \<^verbatim>\<open>read_random\<close> (of pytsk3) are arguments; \<open>printable\<close> is \<^verbatim>\<open>str.isprintable\<close> on one code point
  above U+00FF. Names are lists of code points. Writing the JSON cache of the index is not
  modelled; what an earlier run left there is an argument.
\<close>

type_synonym journal_reader = "nat \<Rightarrow> nat \<Rightarrow> lvm_exc + bytes"
type_synonym cps = "nat list"

definition EXT_MAGIC :: nat where "EXT_MAGIC = 0xEF53"
definition JBD2_MAGIC :: nat where "JBD2_MAGIC = 0xC03B3998"
definition EXTENT_MAGIC :: nat where "EXTENT_MAGIC = 0xF30A"
definition EXTENTS_FL :: nat where "EXTENTS_FL = 0x80000"

subsection \<open>The superblock and the volume\<close>

record ext_super =
  inode_count :: nat
  block_size :: nat
  first_data_block :: nat
  blocks_per_group :: nat
  inodes_per_group :: nat
  inode_size :: nat
  desc_size :: nat
  journal_inum :: nat

definition parse_superblock :: "bytes \<Rightarrow> lvm_exc + ext_super" where
  "parse_superblock sb =
    (if length sb < 1024 \<or> le_field sb 0x38 2 \<noteq> EXT_MAGIC then Inl ValueError
     else let revision = le_field sb 0x4C 4;
              incompat = le_field sb 0x60 4;
              ds = (if has_flag incompat 0x80 then le_field sb 0xFE 2 else 32) in
       Inr \<lparr>inode_count = le_field sb 0 4, block_size = push_bit (le_field sb 0x18 4) 1024,
            first_data_block = le_field sb 0x14 4, blocks_per_group = le_field sb 0x20 4,
            inodes_per_group = le_field sb 0x28 4,
            inode_size = (if revision \<ge> 1 then le_field sb 0x58 2 else 128),
            desc_size = (if ds = 0 then 32 else ds), journal_inum = le_field sb 0xE0 4\<rparr>)"

definition volume_block :: "byte_reader \<Rightarrow> ext_super \<Rightarrow> int \<Rightarrow> lvm_exc + bytes" where
  "volume_block read sb number = read (number * int (block_size sb)) (int (block_size sb))"

definition group_descriptor :: "byte_reader \<Rightarrow> ext_super \<Rightarrow> int \<Rightarrow> lvm_exc + bytes" where
  "group_descriptor read sb grp =
    (let gdt_block = int (first_data_block sb) + 1;
         off = gdt_block * int (block_size sb) + grp * int (desc_size sb) in
     read off (int (desc_size sb)))"

definition desc_block :: "ext_super \<Rightarrow> bytes \<Rightarrow> nat \<Rightarrow> nat \<Rightarrow> lvm_exc + nat" where
  "desc_block sb desc lo hi =
     res_bind (unpack_le 4 desc lo) (\<lambda>v.
     if desc_size sb \<ge> 64 then res_bind (unpack_le 4 desc hi) (\<lambda>h. Inr (v OR push_bit 32 h)) else Inr v)"

definition inode_location :: "byte_reader \<Rightarrow> ext_super \<Rightarrow> int \<Rightarrow> lvm_exc + nat \<times> nat" where
  "inode_location read sb inode =
    (if inodes_per_group sb = 0 then Inl ZeroDivisionError
     else let grp = (inode - 1) div int (inodes_per_group sb);
              index = nat ((inode - 1) mod int (inodes_per_group sb)) in
       res_bind (group_descriptor read sb grp) (\<lambda>desc.
       res_bind (desc_block sb desc 0x8 0x28) (\<lambda>table.
       Inr (table + index * inode_size sb div block_size sb, index * inode_size sb mod block_size sb))))"

definition block_allocated :: "byte_reader \<Rightarrow> ext_super \<Rightarrow> nat \<Rightarrow> lvm_exc + bool" where
  "block_allocated read sb number =
    (if blocks_per_group sb = 0 then Inl ZeroDivisionError
     else let rel = int number - int (first_data_block sb);
              grp = rel div int (blocks_per_group sb);
              index = nat (rel mod int (blocks_per_group sb)) in
       res_bind (group_descriptor read sb grp) (\<lambda>desc.
       res_bind (desc_block sb desc 0 0x20) (\<lambda>bitmap_block.
       res_bind (volume_block read sb (int bitmap_block)) (\<lambda>bitmap.
       if index div 8 < length bitmap then Inr (bit (bitmap ! (index div 8)) (index mod 8))
       else Inl IndexError))))"

subsection \<open>The journal index\<close>

record journal_copy =
  copy_seq :: nat
  copy_journal_block :: nat
  copy_escaped :: bool

type_synonym dir_entry = "cps \<times> nat \<times> nat \<times> bool"
type_synonym dir_copy = "nat \<times> nat option \<times> dir_entry list"

record journal_index =
  jbs :: nat
  copies :: "(nat \<times> journal_copy list) list"
  commit_times :: "(nat \<times> nat) list"
  dir_copies :: "(nat \<times> dir_copy list) list"

text \<open>\<^verbatim>\<open>d.setdefault(k, []).append(v)\<close>.\<close>

definition dict_append :: "'k \<Rightarrow> 'v \<Rightarrow> ('k \<times> 'v list) list \<Rightarrow> ('k \<times> 'v list) list" where
  "dict_append k v d = dict_set k ((case dict_get d k of None \<Rightarrow> [] | Some vs \<Rightarrow> vs) @ [v]) d"

definition journal_read :: "journal_reader \<Rightarrow> nat \<Rightarrow> nat \<Rightarrow> nat \<Rightarrow> lvm_exc + bytes" where
  "journal_read jread bs block count = jread (block * bs) (count * bs)"

definition tag_fields :: "bytes \<Rightarrow> nat \<Rightarrow> nat \<Rightarrow> nat \<times> nat \<times> nat" where
  "tag_fields descriptor off tag_size =
    (if tag_size = 16 then (be_field descriptor off 4, be_field descriptor (off + 4) 4, be_field descriptor (off + 8) 4)
     else (be_field descriptor off 4, be_field descriptor (off + 6) 2,
           if tag_size = 12 then be_field descriptor (off + 8) 4 else 0))"

function tags_loop :: "bytes \<Rightarrow> nat \<Rightarrow> nat \<Rightarrow> nat \<Rightarrow> (nat \<times> bool) list" where
  "tags_loop descriptor tag_size tail off =
    (if off + tag_size + tail \<le> length descriptor \<and> 0 < tag_size then
       let (low, flags, high) = tag_fields descriptor off tag_size;
           tag = (push_bit 32 high OR low, has_flag flags 1);
           next = off + tag_size + (if has_flag flags 2 then 0 else 16) in
       if has_flag flags 8 then [tag] else tag # tags_loop descriptor tag_size tail next
     else [])"
  by pat_completeness auto
termination
  by (relation "measure (\<lambda>(d, ts, tl, off). length d - off)") auto

declare tags_loop.simps [simp del]

definition tags :: "bytes \<Rightarrow> nat \<Rightarrow> nat \<Rightarrow> (nat \<times> bool) list" where
  "tags descriptor tag_size tail = tags_loop descriptor tag_size tail 12"

text \<open>The tags of one descriptor block, added to the index.\<close>

definition add_copies :: "nat \<Rightarrow> nat \<Rightarrow> nat \<Rightarrow> (nat \<times> bool) list \<Rightarrow> (nat \<times> journal_copy list) list
    \<Rightarrow> (nat \<times> journal_copy list) list" where
  "add_copies maxlen seq base ts d = fold (\<lambda>(number, fs_block, escaped) d.
      let journal_block = base + number in
      if journal_block < maxlen
      then dict_append fs_block \<lparr>copy_seq = seq, copy_journal_block = journal_block, copy_escaped = escaped\<rparr> d
      else d) (zip [1..<length ts + 1] ts) d"

function scan_chunk :: "nat \<Rightarrow> nat \<Rightarrow> nat \<Rightarrow> bytes \<Rightarrow> nat \<Rightarrow> nat \<Rightarrow> nat \<Rightarrow> journal_index \<Rightarrow> lvm_exc + nat \<times> journal_index" where
  "scan_chunk maxlen tag_size tail data block count index ix =
    (if index < count then
       let position = index * jbs ix in
       if length data < position + 12 then Inl StructError
       else let magic = be_field data position 4; blocktype = be_field data (position + 4) 4;
                seq = be_field data (position + 8) 4 in
         if magic \<noteq> JBD2_MAGIC then scan_chunk maxlen tag_size tail data block count (index + 1) ix
         else if blocktype = 2 then
           res_bind (unpack_be 8 data (position + 0x30)) (\<lambda>seconds.
           scan_chunk maxlen tag_size tail data block count (index + 1)
             (if seconds \<noteq> 0 then ix\<lparr>commit_times := dict_set seq seconds (commit_times ix)\<rparr> else ix))
         else if blocktype \<noteq> 1 then scan_chunk maxlen tag_size tail data block count (index + 1) ix
         else let ts = tags (slice data position (position + jbs ix)) tag_size tail in
           scan_chunk maxlen tag_size tail data block count (index + 1 + length ts)
             (ix\<lparr>copies := add_copies maxlen seq (block + index) ts (copies ix)\<rparr>)
     else Inr (index, ix))"
  by pat_completeness auto
termination
  by (relation "measure (\<lambda>(maxlen, tag_size, tail, data, block, count, index, ix). count - index)") auto

declare scan_chunk.simps [simp del]

function scan_loop :: "journal_reader \<Rightarrow> nat \<Rightarrow> nat \<Rightarrow> nat \<Rightarrow> nat \<Rightarrow> journal_index \<Rightarrow> lvm_exc + journal_index" where
  "scan_loop jread maxlen tag_size tail block ix =
    (if block < maxlen then
       let count = min 1024 (maxlen - block) in
       res_bind (journal_read jread (jbs ix) block count) (\<lambda>data.
       res_bind (scan_chunk maxlen tag_size tail data block count 0 ix) (\<lambda>(index, ix').
       scan_loop jread maxlen tag_size tail (block + (if index > count then index else count)) ix'))
     else Inr ix)"
  by pat_completeness auto
termination
  by (relation "measure (\<lambda>(jread, maxlen, tag_size, tail, block, ix). maxlen - block)") auto

declare scan_loop.simps [simp del]

definition sort_values :: "('v \<Rightarrow> nat) \<Rightarrow> ('k \<times> 'v list) list \<Rightarrow> ('k \<times> 'v list) list" where
  "sort_values key d = map (\<lambda>(k, vs). (k, sort_key key vs)) d"

definition scan :: "journal_reader \<Rightarrow> nat \<Rightarrow> nat \<Rightarrow> nat \<Rightarrow> journal_index \<Rightarrow> lvm_exc + journal_index" where
  "scan jread maxlen first incompat ix =
    (let tag_size = (if has_flag incompat 0x10 then 16 else if has_flag incompat 0x2 then 12 else 8);
         tail = (if has_flag incompat 0x18 then 4 else 0) in
     res_bind (scan_loop jread maxlen tag_size tail first ix) (\<lambda>ix'.
     Inr (ix'\<lparr>copies := sort_values copy_seq (copies ix')\<rparr>)))"

subsection \<open>Directory blocks\<close>

text \<open>\<^verbatim>\<open>str.isprintable\<close>: exact up to U+00FF, the parameter above.\<close>

definition py_isprintable :: "(nat \<Rightarrow> bool) \<Rightarrow> cps \<Rightarrow> bool" where
  "py_isprintable pr name \<longleftrightarrow> (\<forall>n \<in> set name.
     if n < 256 then 32 \<le> n \<and> n \<le> 126 \<or> 161 \<le> n \<and> n \<noteq> 173 else pr n)"

text \<open>The entry at one offset, if it is plausible: inode, type and name.\<close>

definition dirent_at :: "(nat \<Rightarrow> bool) \<Rightarrow> ext_super \<Rightarrow> bytes \<Rightarrow> nat \<Rightarrow> (nat \<times> nat \<times> cps) option" where
  "dirent_at pr sb data off =
    (let inode = le_field data off 4; rec_len = le_field data (off + 4) 2;
         name_len = le_field data (off + 6) 1; file_type = le_field data (off + 7) 1;
         raw = slice data (off + 8) (off + 8 + name_len) in
     if inode = 0 \<or> inode > inode_count sb \<or> name_len = 0 \<or> file_type > 7 then None
     else if rec_len < 8 + name_len \<or> rec_len mod 4 \<noteq> 0 \<or> off + rec_len > length data then None
     else if 0 \<in> set raw \<or> 0x2F \<in> set raw then None
     else case utf8_decode (map unat raw) of
       None \<Rightarrow> None
     | Some name \<Rightarrow> if \<not> py_isprintable pr name \<or> name \<in> {[0x2E], [0x2E, 0x2E]} then None
         else Some (inode, file_type, name))"

text \<open>\<^verbatim>\<open>range(0, size - 8, 4)\<close>.\<close>

definition dirent_offsets :: "nat \<Rightarrow> nat list" where
  "dirent_offsets sz = map (\<lambda>i. 4 * i) [0..<(sz - 8 + 3) div 4]"

definition dirents :: "(nat \<Rightarrow> bool) \<Rightarrow> ext_super \<Rightarrow> bytes \<Rightarrow> (nat \<times> nat \<times> cps) list" where
  "dirents pr sb data = List.map_filter (dirent_at pr sb data) (dirent_offsets (length data))"

function directory_chain :: "bytes \<Rightarrow> nat \<Rightarrow> bool" where
  "directory_chain data off =
    (if off < length data then
       if off + 8 > length data then False
       else let rec_len = le_field data (off + 4) 2; name_len = le_field data (off + 6) 1 in
         if rec_len < 8 \<or> rec_len mod 4 \<noteq> 0 \<or> off + rec_len > length data \<or> name_len + 8 > rec_len then False
         else directory_chain data (off + rec_len)
     else off = length data)"
  by pat_completeness auto
termination
  by (relation "measure (\<lambda>(data, off). length data - off)") auto

declare directory_chain.simps [simp del]

definition looks_like_directory_block :: "bytes \<Rightarrow> bool" where
  "looks_like_directory_block data = directory_chain data 0"

definition directory_owner :: "bytes \<Rightarrow> lvm_exc + nat option" where
  "directory_owner data =
    (if length data < 8 then Inl StructError
     else Inr (if le_field data 6 1 = 1 \<and> slice data 8 9 = [0x2E] then Some (le_field data 0 4) else None))"

function live_dirents_loop :: "bytes \<Rightarrow> nat \<Rightarrow> (cps \<times> nat) list" where
  "live_dirents_loop data off =
    (if off + 8 \<le> length data then
       let inode = le_field data off 4; rec_len = le_field data (off + 4) 2; name_len = le_field data (off + 6) 1 in
       if rec_len < 8 then []
       else (if inode \<noteq> 0 \<and> name_len \<noteq> 0 then
               (case utf8_decode (map unat (slice data (off + 8) (off + 8 + name_len))) of
                  Some name \<Rightarrow> [(name, inode)] | None \<Rightarrow> []) else [])
         @ live_dirents_loop data (off + rec_len)
     else [])"
  by pat_completeness auto
termination
  by (relation "measure (\<lambda>(data, off). length data - off)") auto

declare live_dirents_loop.simps [simp del]

definition live_dirents :: "bytes \<Rightarrow> (cps \<times> nat) set" where
  "live_dirents data = set (live_dirents_loop data 0)"

subsection \<open>Indexing the directory copies\<close>

definition unescape :: "bool \<Rightarrow> bytes \<Rightarrow> bytes" where
  "unescape escaped raw = (if escaped then [0xC0, 0x3B, 0x39, 0x98] @ drop 4 raw else raw)"

definition copy_targets :: "(nat \<times> journal_copy list) list \<Rightarrow> (nat \<times> (nat \<times> journal_copy)) list" where
  "copy_targets d = fold (\<lambda>(k, v). dict_set k v)
     (concat (map (\<lambda>(fs_block, cs). map (\<lambda>c. (copy_journal_block c, (fs_block, c))) cs) d)) []"

definition index_copy :: "(nat \<Rightarrow> bool) \<Rightarrow> ext_super \<Rightarrow> bytes \<Rightarrow> nat \<Rightarrow> nat \<Rightarrow> nat \<times> journal_copy
    \<Rightarrow> journal_index \<Rightarrow> lvm_exc + journal_index" where
  "index_copy pr sb data start journal_block target ix =
    (let (fs_block, copy) = target;
         raw = unescape (copy_escaped copy)
           (slice data ((journal_block - start) * jbs ix) ((journal_block - start + 1) * jbs ix)) in
     if length raw \<noteq> jbs ix \<or> \<not> looks_like_directory_block raw then Inr ix
     else let live = live_dirents raw;
              entries = map (\<lambda>(inode, file_type, name). (name, inode, file_type, (name, inode) \<in> live)) (dirents pr sb raw) in
       res_bind (directory_owner raw) (\<lambda>owner.
       Inr (ix\<lparr>dir_copies := dict_append fs_block (copy_seq copy, owner, entries) (dir_copies ix)\<rparr>)))"

fun index_wanted :: "(nat \<Rightarrow> bool) \<Rightarrow> ext_super \<Rightarrow> bytes \<Rightarrow> nat \<Rightarrow> (nat \<times> (nat \<times> journal_copy)) list
    \<Rightarrow> nat list \<Rightarrow> journal_index \<Rightarrow> lvm_exc + journal_index" where
  "index_wanted pr sb data start targets [] ix = Inr ix"
| "index_wanted pr sb data start targets (jb # rest) ix =
    (case dict_get targets jb of
       None \<Rightarrow> index_wanted pr sb data start targets rest ix
     | Some target \<Rightarrow> res_bind (index_copy pr sb data start jb target ix) (index_wanted pr sb data start targets rest))"

fun index_chunks :: "(nat \<Rightarrow> bool) \<Rightarrow> ext_super \<Rightarrow> journal_reader \<Rightarrow> nat \<Rightarrow> (nat \<times> (nat \<times> journal_copy)) list
    \<Rightarrow> nat list \<Rightarrow> journal_index \<Rightarrow> lvm_exc + journal_index" where
  "index_chunks pr sb jread maxlen targets [] ix = Inr ix"
| "index_chunks pr sb jread maxlen targets (start # rest) ix =
    (let wanted = filter (\<lambda>b. dict_get targets b \<noteq> None) [start..<min (start + 1024) maxlen] in
     if wanted = [] then index_chunks pr sb jread maxlen targets rest ix
     else res_bind (journal_read jread (jbs ix) start (min 1024 (maxlen - start))) (\<lambda>data.
       res_bind (index_wanted pr sb data start targets wanted ix) (index_chunks pr sb jread maxlen targets rest)))"

definition index_directories :: "(nat \<Rightarrow> bool) \<Rightarrow> ext_super \<Rightarrow> journal_reader \<Rightarrow> nat \<Rightarrow> journal_index \<Rightarrow> lvm_exc + journal_index" where
  "index_directories pr sb jread maxlen ix =
     res_bind (index_chunks pr sb jread maxlen (copy_targets (copies ix))
       (map (\<lambda>i. 1024 * i) [0..<(maxlen + 1023) div 1024]) ix) (\<lambda>ix'.
     Inr (ix'\<lparr>dir_copies := sort_values fst (dir_copies ix')\<rparr>))"

definition empty_index :: journal_index where
  "empty_index = \<lparr>jbs = 0, copies = [], commit_times = [], dir_copies = []\<rparr>"

text \<open>
  \<open>cached\<close> is what the JSON cache of an earlier run holds, when there is one of the current
  version that can be read; its block size always comes from the journal's header.
\<close>

definition load_index :: "(nat \<Rightarrow> bool) \<Rightarrow> ext_super \<Rightarrow> journal_reader \<Rightarrow> journal_index option \<Rightarrow> lvm_exc + journal_index" where
  "load_index pr sb jread cached =
     res_bind (jread 0 1024) (\<lambda>header.
     if length header < 12 then Inl StructError
     else let magic = be_field header 0 4; blocktype = be_field header 4 4 in
       if magic \<noteq> JBD2_MAGIC \<or> blocktype \<notin> {3, 4} then Inr empty_index
       else if length header < 24 then Inl StructError
       else let bs = be_field header 0xC 4; maxlen = be_field header 0x10 4; first = be_field header 0x14 4 in
         res_bind (if blocktype = 4 then unpack_be 4 header 0x28 else Inr 0) (\<lambda>incompat.
         case cached of
           Some c \<Rightarrow> Inr (c\<lparr>jbs := bs\<rparr>)
         | None \<Rightarrow> res_bind (scan jread maxlen first incompat (empty_index\<lparr>jbs := bs\<rparr>)) (index_directories pr sb jread maxlen)))"

text \<open>\<^verbatim>\<open>__init__\<close>: \<open>jopen\<close> is the journal inode's file, opened through pytsk3.\<close>

definition ExtJournal :: "(nat \<Rightarrow> bool) \<Rightarrow> byte_reader \<Rightarrow> (nat \<Rightarrow> journal_reader) \<Rightarrow> journal_index option \<Rightarrow> lvm_exc + ext_super \<times> journal_index" where
  "ExtJournal pr read jopen cached =
     res_bind (read 1024 1024) (\<lambda>raw.
     res_bind (parse_superblock raw) (\<lambda>sb.
     if journal_inum sb = 0 then Inr (sb, empty_index)
     else res_bind (load_index pr sb (jopen (journal_inum sb)) cached) (\<lambda>ix. Inr (sb, ix))))"

subsection \<open>Copies of a block and past names\<close>

definition copy_data :: "journal_reader \<Rightarrow> journal_index \<Rightarrow> journal_copy \<Rightarrow> lvm_exc + bytes" where
  "copy_data jread ix copy =
     res_bind (journal_read jread (jbs ix) (copy_journal_block copy) 1) (\<lambda>data. Inr (unescape (copy_escaped copy) data))"

definition copies_of :: "journal_index \<Rightarrow> nat \<Rightarrow> journal_copy list" where
  "copies_of ix number = (case dict_get (copies ix) number of None \<Rightarrow> [] | Some cs \<Rightarrow> cs)"

definition block_as_of :: "byte_reader \<Rightarrow> journal_reader \<Rightarrow> ext_super \<Rightarrow> journal_index \<Rightarrow> nat \<Rightarrow> nat option \<Rightarrow> lvm_exc + bytes" where
  "block_as_of read jread sb ix number max_seq =
    (case find (\<lambda>c. case max_seq of None \<Rightarrow> True | Some m \<Rightarrow> copy_seq c \<le> m) (rev (copies_of ix number)) of
       Some copy \<Rightarrow> copy_data jread ix copy
     | None \<Rightarrow> volume_block read sb (int number))"

record past_name =
  pn_kind :: string
  pn_first_seq :: "nat option"
  pn_last_seq :: "nat option"
  pn_gone_seq :: "nat option"

definition FILE_TYPES :: "nat \<Rightarrow> string" where
  "FILE_TYPES t = (case map_of [(1, ''file''), (2, ''dir''), (7, ''symlink'')] t of Some k \<Rightarrow> k | None \<Rightarrow> ''other'')"

text \<open>One entry of one copy: the name is added, or its sequence bounds widened.\<close>

definition note_entry :: "nat \<Rightarrow> dir_entry \<Rightarrow> ((cps \<times> nat) \<times> past_name) list \<Rightarrow> ((cps \<times> nat) \<times> past_name) list" where
  "note_entry seq e found =
    (let (name, inode, file_type, is_live) = e;
         item = (case dict_get found (name, inode) of
           Some item \<Rightarrow> item
         | None \<Rightarrow> \<lparr>pn_kind = FILE_TYPES file_type, pn_first_seq = None, pn_last_seq = None, pn_gone_seq = None\<rparr>) in
     dict_set (name, inode)
       (if is_live then item\<lparr>pn_first_seq := Some (case pn_first_seq item of None \<Rightarrow> seq | Some f \<Rightarrow> min f seq),
                             pn_last_seq := Some (case pn_last_seq item of None \<Rightarrow> seq | Some l \<Rightarrow> max l seq)\<rparr>
        else item) found)"

definition live_names :: "dir_entry list \<Rightarrow> (cps \<times> nat) set" where
  "live_names es = set (map (\<lambda>(name, inode, _, _). (name, inode)) (filter (\<lambda>(_, _, _, is_live). is_live) es))"

definition mark_gone :: "(nat \<times> (cps \<times> nat) set) list \<Rightarrow> (cps \<times> nat) \<times> past_name \<Rightarrow> (cps \<times> nat) \<times> past_name" where
  "mark_gone history kv = (let (key, item) = kv in
     case pn_last_seq item of
       None \<Rightarrow> kv
     | Some l \<Rightarrow> (let later = map fst (filter (\<lambda>(seq, live). l < seq \<and> key \<notin> live) history) in
         if later = [] then kv else (key, item\<lparr>pn_gone_seq := Some (Min (set later))\<rparr>)))"

definition past_names_block :: "journal_index \<Rightarrow> nat \<Rightarrow> ((cps \<times> nat) \<times> past_name) list \<Rightarrow> ((cps \<times> nat) \<times> past_name) list" where
  "past_names_block ix number found =
    (let cs = (case dict_get (dir_copies ix) number of None \<Rightarrow> [] | Some cs \<Rightarrow> cs) in
     map (mark_gone (map (\<lambda>(seq, _, es). (seq, live_names es)) cs))
       (fold (\<lambda>(seq, _, es). fold (note_entry seq) es) cs found))"

record reported_name =
  rn_item :: past_name
  rn_last_seen :: "nat option"
  rn_gone_by :: "nat option"

definition past_names :: "journal_index \<Rightarrow> nat list \<Rightarrow> ((cps \<times> nat) \<times> reported_name) list" where
  "past_names ix blocks = map (\<lambda>(key, item). (key, \<lparr>rn_item = item,
       rn_last_seen = Option.bind (pn_last_seq item) (dict_get (commit_times ix)),
       rn_gone_by = (case pn_gone_seq item of None \<Rightarrow> None
          | Some g \<Rightarrow> if g = 0 then None else dict_get (commit_times ix) g)\<rparr>))
     (fold (past_names_block ix) blocks [])"

definition journaled_directory_blocks :: "journal_index \<Rightarrow> (nat \<times> nat option \<times> dir_entry list) list" where
  "journaled_directory_blocks ix = map (\<lambda>(number, cs). (number,
     case List.map_filter (\<lambda>(_, owner, _). owner) cs of [] \<Rightarrow> None | o' # _ \<Rightarrow> Some o',
     concat (map (\<lambda>(_, _, es). es) cs))) (dir_copies ix)"

subsection \<open>Inodes\<close>

record ext_inode =
  i_mode :: nat
  i_uid :: nat
  i_gid :: nat
  i_size :: nat
  i_atime :: nat
  i_ctime :: nat
  i_mtime :: nat
  i_crtime :: nat
  i_dtime :: nat
  i_links :: nat
  i_flags :: nat
  i_block :: bytes
  i_generation :: nat

definition parse_inode :: "bytes \<Rightarrow> lvm_exc + ext_inode" where
  "parse_inode raw =
    (if length raw < 0x70 then Inl StructError
     else Inr \<lparr>i_mode = le_field raw 0 2, i_uid = le_field raw 2 2, i_gid = le_field raw 24 2,
       i_size = le_field raw 4 4 OR push_bit 32 (le_field raw 0x6C 4),
       i_atime = le_field raw 8 4, i_ctime = le_field raw 12 4, i_mtime = le_field raw 16 4,
       i_crtime = (if length raw \<ge> 0x94 then le_field raw 0x90 4 else 0),
       i_dtime = le_field raw 20 4, i_links = le_field raw 26 2, i_flags = le_field raw 0x20 4,
       i_block = slice raw 0x28 (0x28 + 60), i_generation = le_field raw 0x64 4\<rparr>)"

definition inode_on_disk :: "byte_reader \<Rightarrow> ext_super \<Rightarrow> int \<Rightarrow> lvm_exc + ext_inode" where
  "inode_on_disk read sb inode =
     res_bind (inode_location read sb inode) (\<lambda>(block, off).
     res_bind (volume_block read sb (int block)) (\<lambda>data. parse_inode (slice data off (off + inode_size sb))))"

type_synonym run = "nat \<times> nat \<times> nat"

text \<open>\<^verbatim>\<open>struct.unpack(f"<{n}I", data)\<close>: exactly \<open>n\<close> words.\<close>

definition unpack_words :: "nat \<Rightarrow> bytes \<Rightarrow> lvm_exc + nat list" where
  "unpack_words n data = (if length data \<noteq> 4 * n then Inl StructError
     else Inr (map (\<lambda>i. le_field data (4 * i) 4) [0..<n]))"

text \<open>
  The indirect blocks of one level, reading each block as it was at transaction \<open>seq\<close>
  (\<open>blk\<close> is \<^verbatim>\<open>block_as_of\<close> at that transaction); the state is the next logical block and the
  runs so far. Level 0 is the loop body over direct pointers and the entries of a
  last-level block.
\<close>

fun indirect_runs :: "(nat \<Rightarrow> lvm_exc + bytes) \<Rightarrow> nat \<Rightarrow> nat \<Rightarrow> nat \<Rightarrow> nat \<times> run list \<Rightarrow> lvm_exc + nat \<times> run list" where
  "indirect_runs blk per_block 0 pointer (logical, runs) =
     Inr (logical + 1, if pointer \<noteq> 0 then runs @ [(logical, pointer, 1)] else runs)"
| "indirect_runs blk per_block (Suc level) pointer (logical, runs) =
    (if pointer = 0 then Inr (logical + per_block ^ Suc level, runs)
     else res_bind (blk pointer) (\<lambda>data.
       res_bind (unpack_words per_block data) (\<lambda>entries.
       fold_res (indirect_runs blk per_block level) entries (logical, runs))))"

definition extent_leaf :: "bytes \<Rightarrow> nat \<Rightarrow> run list" where
  "extent_leaf node off =
    (let logical = le_field node off 4; len = le_field node (off + 4) 2;
         start_hi = le_field node (off + 6) 2; start_lo = le_field node (off + 8) 4 in
     if len > 32768 then [] else [(logical, push_bit 32 start_hi OR start_lo, len)])"

definition extent_child :: "bytes \<Rightarrow> nat \<Rightarrow> nat" where
  "extent_child node off = push_bit 32 (le_field node (off + 8) 2) OR le_field node (off + 4) 4"

text \<open>The offsets of the entries that lie inside the node: the loop stops at the first that does not.\<close>

definition extent_offsets :: "bytes \<Rightarrow> nat \<Rightarrow> nat list" where
  "extent_offsets node entries = takeWhile (\<lambda>off. off + 12 \<le> length node) (map (\<lambda>i. 12 + i * 12) [0..<entries])"

text \<open>\<open>levels\<close> counts down what \<^verbatim>\<open>depth_guard\<close> counts up to 5: six levels are read, a seventh is not.\<close>

fun extent_runs :: "(nat \<Rightarrow> lvm_exc + bytes) \<Rightarrow> nat \<Rightarrow> bytes \<Rightarrow> run list \<Rightarrow> lvm_exc + run list" where
  "extent_runs blk 0 node runs = (if length node < 8 then Inl StructError else Inr runs)"
| "extent_runs blk (Suc levels) node runs =
    (if length node < 8 then Inl StructError
     else if le_field node 0 2 \<noteq> EXTENT_MAGIC then Inr runs
     else if le_field node 6 2 = 0
       then Inr (runs @ concat (map (extent_leaf node) (extent_offsets node (le_field node 2 2))))
     else fold_res (\<lambda>off rs. res_bind (blk (extent_child node off)) (\<lambda>child. extent_runs blk levels child rs))
            (extent_offsets node (le_field node 2 2)) runs)"

definition block_map :: "(nat \<Rightarrow> lvm_exc + bytes) \<Rightarrow> ext_super \<Rightarrow> ext_inode \<Rightarrow> lvm_exc + run list" where
  "block_map blk sb info =
    (if has_flag (i_flags info) EXTENTS_FL then extent_runs blk 6 (i_block info) []
     else if length (i_block info) < 60 then Inl StructError
     else let pointers = map (\<lambda>i. le_field (i_block info) (4 * i) 4) [0..<15];
              per_block = block_size sb div 4 in
       res_bind (fold_res (indirect_runs blk per_block 0) (take 12 pointers) (0, [])) (\<lambda>st.
       res_bind (fold_res (\<lambda>(level, pointer). indirect_runs blk per_block level pointer)
                  (zip [1..<4] (drop 12 pointers)) st) (\<lambda>(_, runs).
       Inr runs)))"

record recovered =
  rec_info :: ext_inode
  rec_runs :: "run list"
  rec_seq :: nat
  rec_committed :: "nat option"
  rec_blocks :: nat
  rec_blocks_reused :: nat

definition run_blocks :: "run list \<Rightarrow> nat list" where
  "run_blocks runs = concat (map (\<lambda>(_, start, len). [start..<start + len]) runs)"

fun count_allocated :: "byte_reader \<Rightarrow> ext_super \<Rightarrow> nat list \<Rightarrow> lvm_exc + nat" where
  "count_allocated read sb [] = Inr 0"
| "count_allocated read sb (b # bs) = res_bind (block_allocated read sb b) (\<lambda>a.
     res_bind (count_allocated read sb bs) (\<lambda>n. Inr (if a then n + 1 else n)))"

text \<open>A live regular file with content, of the wanted generation.\<close>

definition usable_inode :: "nat option \<Rightarrow> ext_inode \<Rightarrow> bool" where
  "usable_inode generation info \<longleftrightarrow> (i_mode info AND 0xF000) = 0x8000 \<and> i_links info \<noteq> 0 \<and> i_dtime info = 0
     \<and> i_size info \<noteq> 0 \<and> (case generation of None \<Rightarrow> True | Some g \<Rightarrow> i_generation info = g)"

fun recover_loop :: "byte_reader \<Rightarrow> journal_reader \<Rightarrow> ext_super \<Rightarrow> journal_index \<Rightarrow> nat option \<Rightarrow> nat option \<Rightarrow> nat option
    \<Rightarrow> nat \<Rightarrow> journal_copy list \<Rightarrow> lvm_exc + recovered option" where
  "recover_loop read jread sb ix min_seq max_seq generation off [] = Inr None"
| "recover_loop read jread sb ix min_seq max_seq generation off (c # cs) =
    (if (case max_seq of Some m \<Rightarrow> copy_seq c > m | None \<Rightarrow> False)
     then recover_loop read jread sb ix min_seq max_seq generation off cs
     else if (case min_seq of Some m \<Rightarrow> copy_seq c < m | None \<Rightarrow> False) then Inr None
     else res_bind (copy_data jread ix c) (\<lambda>data.
       res_bind (parse_inode (slice data off (off + inode_size sb))) (\<lambda>info.
       if \<not> usable_inode generation info then recover_loop read jread sb ix min_seq max_seq generation off cs
       else res_bind (block_map (\<lambda>b. block_as_of read jread sb ix b (Some (copy_seq c))) sb info) (\<lambda>runs.
         if runs = [] then recover_loop read jread sb ix min_seq max_seq generation off cs
         else res_bind (count_allocated read sb (run_blocks runs)) (\<lambda>reused.
           Inr (Some \<lparr>rec_info = info, rec_runs = runs, rec_seq = copy_seq c,
             rec_committed = dict_get (commit_times ix) (copy_seq c),
             rec_blocks = sum_list (map (\<lambda>(_, _, len). len) runs), rec_blocks_reused = reused\<rparr>))))))"

definition recover :: "byte_reader \<Rightarrow> journal_reader \<Rightarrow> ext_super \<Rightarrow> journal_index \<Rightarrow> int
    \<Rightarrow> nat option \<Rightarrow> nat option \<Rightarrow> nat option \<Rightarrow> lvm_exc + recovered option" where
  "recover read jread sb ix inode min_seq max_seq generation =
     res_bind (inode_location read sb inode) (\<lambda>(block, off).
     recover_loop read jread sb ix min_seq max_seq generation off (rev (copies_of ix block)))"

subsection \<open>Content\<close>

text \<open>The mapping of logical to physical blocks: later runs override earlier ones.\<close>

definition content_mapping :: "run list \<Rightarrow> (nat \<times> nat) list" where
  "content_mapping runs = fold (\<lambda>(k, v). dict_set k v)
     (concat (map (\<lambda>(logical, start, len). map (\<lambda>i. (logical + i, start + i)) [0..<len]) runs)) []"

function run_count :: "(nat \<Rightarrow> nat option) \<Rightarrow> nat \<Rightarrow> nat \<Rightarrow> nat \<Rightarrow> nat \<Rightarrow> nat" where
  "run_count mp chunk_blocks logical physical count =
    (if count < chunk_blocks \<and> mp (logical + count) = Some (physical + count)
     then run_count mp chunk_blocks logical physical (count + 1) else count)"
  by pat_completeness auto
termination
  by (relation "measure (\<lambda>(mp, cb, l, p, c). cb - c)") auto

declare run_count.simps [simp del]

lemma content_progress: "p < sz \<Longrightarrow> raw \<noteq> [] \<Longrightarrow> sz - (p + min (length raw) (sz - p)) < sz - p" for p sz :: nat
  by (cases raw) auto

text \<open>The generator: the chunks it yields, and the exception that ended it, if any.\<close>

function content_loop :: "byte_reader \<Rightarrow> ext_super \<Rightarrow> (nat \<Rightarrow> nat option) \<Rightarrow> nat \<Rightarrow> nat \<Rightarrow> nat \<Rightarrow> nat \<Rightarrow> bytes list \<times> lvm_exc option" where
  "content_loop read sb mp chunk_blocks sz logical produced =
    (if produced < sz then
       let (count, res) = (case mp logical of
             None \<Rightarrow> (1, Inr (replicate (block_size sb) 0))
           | Some physical \<Rightarrow> (let count = run_count mp chunk_blocks logical physical 1 in
               (count, read (int (physical * block_size sb)) (int (count * block_size sb))))) in
       case res of
         Inl e \<Rightarrow> ([], Some e)
       | Inr raw \<Rightarrow> (let data = take (sz - produced) raw in
           if data = [] then ([], None)
           else (let (chunks, e) = content_loop read sb mp chunk_blocks sz (logical + count) (produced + length data)
                 in (data # chunks, e)))
     else ([], None))"
  by pat_completeness auto
termination
  by (relation "measure (\<lambda>(read, sb, mp, cb, sz, l, p). sz - p)") (auto intro: content_progress)

declare content_loop.simps [simp del]

definition iter_content :: "byte_reader \<Rightarrow> ext_super \<Rightarrow> recovered \<Rightarrow> nat \<Rightarrow> bytes list \<times> lvm_exc option" where
  "iter_content read sb r chunk_blocks =
     content_loop read sb (dict_get (content_mapping (rec_runs r))) chunk_blocks (i_size (rec_info r)) 0 0"

end
