(* ===== verification/Ext_Recovery.thy ===== *)
theory Ext_Recovery
  imports Ext_Journal Volume_Access
begin

section \<open>What the journal index guarantees\<close>

text \<open>
  Lemmas on the index of \<^verbatim>\<open>ExtJournal\<close>: where its copies lie and how they are ordered, which
  copy a block is read from, what a recovered inode satisfies, and that the content
  generator refines the file's block map.
\<close>

subsection \<open>The index after a scan\<close>

text \<open>Every copy of a block lies in the log, after the descriptor that names it.\<close>

definition copies_in_log :: "nat \<Rightarrow> nat \<Rightarrow> (nat \<times> journal_copy list) list \<Rightarrow> bool" where
  "copies_in_log first maxlen d \<longleftrightarrow> distinct (map fst d)
     \<and> (\<forall>(k, cs) \<in> set d. \<forall>c \<in> set cs. first < copy_journal_block c \<and> copy_journal_block c < maxlen)"

lemma dict_set_member: "(k', v') \<in> set (dict_set k v d) \<Longrightarrow> k' = k \<and> v' = v \<or> (k', v') \<in> set d"
  by (induction d) (auto split: if_splits)

lemma dict_append_member:
  "(k', cs) \<in> set (dict_append k c d) \<Longrightarrow>
    (k', cs) \<in> set d \<or> (\<exists>cs0. cs = cs0 @ [c] \<and> (cs0 = [] \<or> (k, cs0) \<in> set d))"
  by (auto simp: dict_append_def split: option.splits dest!: dict_set_member dest: map_of_SomeD)

lemma dict_append_distinct: "distinct (map fst d) \<Longrightarrow> distinct (map fst (dict_append k c d))"
  by (simp add: dict_append_def dict_set_distinct)

lemma dict_append_in_log:
  assumes "copies_in_log first maxlen d" "first < copy_journal_block c" "copy_journal_block c < maxlen"
  shows "copies_in_log first maxlen (dict_append k c d)"
  using assms by (fastforce simp: copies_in_log_def dict_append_distinct dest!: dict_append_member)

lemma add_copies_in_log:
  assumes "copies_in_log first maxlen d" "first \<le> base"
  shows "copies_in_log first maxlen (add_copies maxlen seq base ts d)"
proof -
  define step where "step = (\<lambda>(number, fs_block :: nat, escaped) d.
      let journal_block = base + number in
      if journal_block < maxlen
      then dict_append fs_block \<lparr>copy_seq = seq, copy_journal_block = journal_block, copy_escaped = escaped\<rparr> d
      else d)"
  have "copies_in_log first maxlen (fold step xs d)" if "\<forall>n \<in> fst ` set xs. 0 < n" for xs
    using that assms(1)
  proof (induction xs arbitrary: d)
    case (Cons x xs)
    then have "copies_in_log first maxlen (step x d)"
      using assms(2) by (auto simp: step_def Let_def intro!: dict_append_in_log split: prod.splits)
    with Cons show ?case by simp
  qed simp
  moreover have "set (map fst (zip [1..<length ts + 1] ts)) \<subseteq> set [1..<length ts + 1]"
    unfolding map_fst_zip_take by (rule set_take_subset)
  then have "\<forall>n \<in> fst ` set (zip [1..<length ts + 1] ts). 0 < n" unfolding set_map set_upt by fastforce
  ultimately show ?thesis by (simp add: add_copies_def step_def)
qed

text \<open>One round of the inner loop moves on, with the index as it was or with one record added.\<close>

lemma scan_chunk_step:
  assumes "scan_chunk maxlen tag_size tail data block count index ix = Inr r" "index < count"
  obtains j seq ts t where "index < j"
    "scan_chunk maxlen tag_size tail data block count j
      (ix\<lparr>copies := add_copies maxlen seq (block + index) ts (copies ix), commit_times := t\<rparr>) = Inr r"
proof -
  have nil: "ix = ix\<lparr>copies := add_copies maxlen 0 (block + index) [] (copies ix), commit_times := commit_times ix\<rparr>"
    by (simp add: add_copies_def)
  have ct: "ix\<lparr>commit_times := t\<rparr> = ix\<lparr>copies := add_copies maxlen 0 (block + index) [] (copies ix), commit_times := t\<rparr>" for t
    by (simp add: add_copies_def)
  have cs: "ix\<lparr>copies := d\<rparr> = ix\<lparr>copies := d, commit_times := commit_times ix\<rparr>" for d by simp
  from assms consider "scan_chunk maxlen tag_size tail data block count (index + 1) ix = Inr r"
    | t where "scan_chunk maxlen tag_size tail data block count (index + 1) (ix\<lparr>commit_times := t\<rparr>) = Inr r"
    | seq ts where "scan_chunk maxlen tag_size tail data block count (index + 1 + length ts)
        (ix\<lparr>copies := add_copies maxlen seq (block + index) ts (copies ix)\<rparr>) = Inr r"
    by (subst (asm) scan_chunk.simps) (auto simp: Let_def res_simps split: if_splits)
  then show ?thesis
  proof cases
    case 1
    then show ?thesis by (intro that [where j = "index + 1" and seq = 0 and ts = "[]" and t = "commit_times ix"]) (simp_all flip: nil)
  next
    case (2 t)
    then show ?thesis by (intro that [where j = "index + 1" and seq = 0 and ts = "[]" and t = t]) (simp_all flip: ct)
  next
    case (3 seq ts)
    then show ?thesis by (intro that [where j = "index + 1 + length ts" and seq = seq and ts = ts and t = "commit_times ix"]) (simp_all flip: cs)
  qed
qed

lemma scan_chunk_in_log:
  assumes "scan_chunk maxlen tag_size tail data block count index ix = Inr (index', ix')"
    and "copies_in_log first maxlen (copies ix)" "first \<le> block"
  shows "copies_in_log first maxlen (copies ix') \<and> jbs ix' = jbs ix \<and> dir_copies ix' = dir_copies ix"
  using assms
proof (induction "count - index" arbitrary: index ix rule: less_induct)
  case less
  show ?case
  proof (cases "index < count")
    case True
    obtain j seq ts t where j: "index < j" and
      sc: "scan_chunk maxlen tag_size tail data block count j
        (ix\<lparr>copies := add_copies maxlen seq (block + index) ts (copies ix), commit_times := t\<rparr>) = Inr (index', ix')"
      using less.prems(1) True by (rule scan_chunk_step)
    have "count - j < count - index" using j True by simp
    from less.hyps [OF this sc] less.prems show ?thesis by (simp add: add_copies_in_log)
  next
    case False
    with less.prems show ?thesis by (subst (asm) scan_chunk.simps) simp
  qed
qed

lemma scan_loop_in_log:
  assumes "scan_loop jread maxlen tag_size tail block ix = Inr ix'"
    and "copies_in_log first maxlen (copies ix)" "first \<le> block"
  shows "copies_in_log first maxlen (copies ix') \<and> jbs ix' = jbs ix \<and> dir_copies ix' = dir_copies ix"
  using assms
proof (induction jread maxlen tag_size tail block ix rule: scan_loop.induct)
  case (1 jread maxlen tag_size tail block ix)
  show ?case
  proof (cases "block < maxlen")
    case True
    with "1.prems"(1) obtain data index ix1 where
      d: "journal_read jread (jbs ix) block (min 1024 (maxlen - block)) = Inr data"
      and c: "scan_chunk maxlen tag_size tail data block (min 1024 (maxlen - block)) 0 ix = Inr (index, ix1)"
      and l: "scan_loop jread maxlen tag_size tail
        (block + (if index > min 1024 (maxlen - block) then index else min 1024 (maxlen - block))) ix1 = Inr ix'"
      by (subst (asm) scan_loop.simps) (auto simp: Let_def res_simps)
    show ?thesis
      using "1.IH" [OF True refl d c refl l] scan_chunk_in_log [OF c "1.prems"(2,3)] "1.prems"(3) by auto
  next
    case False
    with "1.prems" show ?thesis by (subst (asm) scan_loop.simps) simp
  qed
qed

definition copies_sorted :: "(nat \<times> journal_copy list) list \<Rightarrow> bool" where
  "copies_sorted d \<longleftrightarrow> (\<forall>(k, cs) \<in> set d. sorted (map copy_seq cs))"

lemma sort_values_keys [simp]: "map fst (sort_values key d) = map fst d"
  by (auto simp: sort_values_def split: prod.splits)

lemma sort_values_member: "(k, cs) \<in> set (sort_values key d) \<longleftrightarrow> (\<exists>cs0. (k, cs0) \<in> set d \<and> cs = sort_key key cs0)"
  by (auto simp: sort_values_def image_iff split: prod.splits)

lemma sort_values_in_log: "copies_in_log first maxlen d \<Longrightarrow> copies_in_log first maxlen (sort_values key d)"
  by (fastforce simp: copies_in_log_def sort_values_member)

lemma sort_values_sorted: "copies_sorted (sort_values copy_seq d)"
  by (auto simp: copies_sorted_def sort_values_member)

lemma scan_index:
  assumes "scan jread maxlen first incompat ix = Inr ix'" "copies ix = []"
  shows "copies_in_log first maxlen (copies ix') \<and> copies_sorted (copies ix') \<and> jbs ix' = jbs ix
    \<and> dir_copies ix' = dir_copies ix"
proof -
  have "copies_in_log first maxlen (copies ix)" by (simp add: assms(2) copies_in_log_def)
  with assms(1) show ?thesis
    by (auto simp: scan_def Let_def res_simps sort_values_in_log sort_values_sorted dest!: scan_loop_in_log)
qed

text \<open>The pass over the directory copies leaves the copies alone.\<close>

lemma index_copy_frame:
  "index_copy pr sb data start jb target ix = Inr ix' \<Longrightarrow> copies ix' = copies ix \<and> commit_times ix' = commit_times ix \<and> jbs ix' = jbs ix"
  by (auto simp: index_copy_def Let_def res_simps split: prod.splits if_splits)

lemma index_wanted_frame:
  "index_wanted pr sb data start targets bs ix = Inr ix' \<Longrightarrow> copies ix' = copies ix \<and> commit_times ix' = commit_times ix \<and> jbs ix' = jbs ix"
  by (induction bs arbitrary: ix) (auto simp: res_simps split: option.splits dest!: index_copy_frame)

lemma index_chunks_frame:
  "index_chunks pr sb jread maxlen targets starts ix = Inr ix' \<Longrightarrow> copies ix' = copies ix \<and> commit_times ix' = commit_times ix \<and> jbs ix' = jbs ix"
  by (induction starts arbitrary: ix)
     (auto simp: Let_def res_simps split: if_splits dest!: index_wanted_frame)

lemma index_directories_frame:
  "index_directories pr sb jread maxlen ix = Inr ix' \<Longrightarrow> copies ix' = copies ix \<and> commit_times ix' = commit_times ix \<and> jbs ix' = jbs ix"
  by (auto simp: index_directories_def res_simps dest!: index_chunks_frame)

lemma load_index_copies:
  assumes "load_index pr sb jread None = Inr ix"
  shows "(\<exists>first maxlen. copies_in_log first maxlen (copies ix)) \<and> copies_sorted (copies ix)"
proof -
  have e: "copies_in_log 0 0 (copies empty_index)" "copies_sorted (copies empty_index)" "copies (empty_index\<lparr>jbs := b\<rparr>) = []" for b
    by (simp_all add: copies_in_log_def copies_sorted_def empty_index_def)
  from assms consider "ix = empty_index"
    | ix1 maxlen first incompat bs where "scan jread maxlen first incompat (empty_index\<lparr>jbs := bs\<rparr>) = Inr ix1"
        "index_directories pr sb jread maxlen ix1 = Inr ix"
    by (auto simp: load_index_def Let_def res_simps split: if_splits)
  then show ?thesis
  proof cases
    case 2
    show ?thesis using scan_index [OF 2(1) e(3)] index_directories_frame [OF 2(2)] by auto
  qed (use e in auto)
qed

subsection \<open>Choosing a copy\<close>

lemma sorted_find_last:
  assumes "sorted (map f xs)" "find P (rev xs) = Some x" "y \<in> set xs" "P y"
  shows "f y \<le> f x"
proof -
  obtain i where i: "i < length xs" "x = rev xs ! i" "\<forall>j < i. \<not> P (rev xs ! j)"
    using assms(2) by (auto simp: find_Some_iff)
  obtain k where k: "k < length xs" "y = xs ! k" using assms(3) by (auto simp: in_set_conv_nth)
  have "rev xs ! (length xs - Suc k) = y" using k by (simp add: rev_nth)
  with i(3) assms(4) have "i \<le> length xs - Suc k" by (metis not_le)
  then have "k \<le> length xs - Suc i" using k(1) i(1) by simp
  then have "map f xs ! k \<le> map f xs ! (length xs - Suc i)"
    using assms(1) i(1) by (intro sorted_nth_mono) auto
  then show ?thesis using i k by (simp add: rev_nth)
qed

text \<open>The copies a transaction limit admits.\<close>

definition admitted :: "nat option \<Rightarrow> journal_copy \<Rightarrow> bool" where
  "admitted max_seq c \<longleftrightarrow> (case max_seq of None \<Rightarrow> True | Some m \<Rightarrow> copy_seq c \<le> m)"

lemma copies_of_sorted: "copies_sorted (copies ix) \<Longrightarrow> sorted (map copy_seq (copies_of ix number))"
  by (auto simp: copies_sorted_def copies_of_def split: option.splits dest!: map_of_SomeD)

lemma block_as_of_admitted: "block_as_of read jread sb ix number max_seq
    = (case find (admitted max_seq) (rev (copies_of ix number)) of
         Some copy \<Rightarrow> copy_data jread ix copy | None \<Rightarrow> volume_block read sb (int number))"
  by (simp add: block_as_of_def admitted_def [abs_def])

lemma block_as_of_cases:
  assumes "copies_sorted (copies ix)"
  obtains (journal) c where "c \<in> set (copies_of ix number)" "admitted max_seq c"
      "\<forall>c' \<in> set (copies_of ix number). admitted max_seq c' \<longrightarrow> copy_seq c' \<le> copy_seq c"
      "block_as_of read jread sb ix number max_seq = copy_data jread ix c"
  | (disk) "\<forall>c \<in> set (copies_of ix number). \<not> admitted max_seq c"
      "block_as_of read jread sb ix number max_seq = volume_block read sb (int number)"
proof (cases "find (admitted max_seq) (rev (copies_of ix number))")
  case None
  then have "\<forall>c \<in> set (copies_of ix number). \<not> admitted max_seq c" by (auto simp: find_None_iff)
  then show ?thesis by (rule disk) (simp add: block_as_of_admitted None)
next
  case (Some c)
  show ?thesis
    using sorted_find_last [OF copies_of_sorted [OF assms] Some] Some find_SomeD [OF Some]
    by (intro journal [of c]) (auto simp: block_as_of_admitted)
qed

lemma count_allocated_le: "count_allocated read sb bs = Inr n \<Longrightarrow> n \<le> length bs"
  by (induction bs arbitrary: n) (auto simp: res_simps split: if_splits intro: le_SucI)

lemma length_run_blocks: "length (run_blocks runs) = sum_list (map (\<lambda>(_, _, len). len) runs)"
  by (induction runs) (auto simp: run_blocks_def)

subsection \<open>The window of an inode's copies\<close>

definition in_window :: "nat option \<Rightarrow> nat option \<Rightarrow> journal_copy \<Rightarrow> bool" where
  "in_window min_seq max_seq c \<longleftrightarrow> admitted max_seq c \<and> (case min_seq of None \<Rightarrow> True | Some m \<Rightarrow> m \<le> copy_seq c)"

text \<open>What one copy of the inode alone gives.\<close>

definition candidate :: "byte_reader \<Rightarrow> journal_reader \<Rightarrow> ext_super \<Rightarrow> journal_index \<Rightarrow> nat option \<Rightarrow> nat \<Rightarrow> journal_copy
    \<Rightarrow> lvm_exc + recovered option" where
  "candidate read jread sb ix generation off c = recover_loop read jread sb ix None None generation off [c]"

fun first_candidate :: "('a \<Rightarrow> 'e + 'b option) \<Rightarrow> 'a list \<Rightarrow> 'e + 'b option" where
  "first_candidate f [] = Inr None"
| "first_candidate f (c # cs) = res_bind (f c) (\<lambda>r. case r of Some x \<Rightarrow> Inr (Some x) | None \<Rightarrow> first_candidate f cs)"

lemma recover_loop_Cons:
  "recover_loop read jread sb ix min_seq max_seq generation off (c # cs) =
    (if \<not> admitted max_seq c then recover_loop read jread sb ix min_seq max_seq generation off cs
     else if \<not> in_window min_seq max_seq c then Inr None
     else res_bind (candidate read jread sb ix generation off c) (\<lambda>r. case r of Some x \<Rightarrow> Inr (Some x)
       | None \<Rightarrow> recover_loop read jread sb ix min_seq max_seq generation off cs))"
  by (auto simp: candidate_def admitted_def in_window_def res_bind_def split: option.splits sum.splits)

text \<open>Stopping at the lower bound is filtering, because the copies are in transaction order.\<close>

lemma recover_loop_window:
  assumes "sorted (map copy_seq (rev cs))"
  shows "recover_loop read jread sb ix min_seq max_seq generation off cs
    = first_candidate (candidate read jread sb ix generation off) (filter (in_window min_seq max_seq) cs)"
  using assms
proof (induction cs)
  case (Cons c cs)
  then have IH: "recover_loop read jread sb ix min_seq max_seq generation off cs
    = first_candidate (candidate read jread sb ix generation off) (filter (in_window min_seq max_seq) cs)"
    and le: "\<forall>x \<in> set cs. copy_seq x \<le> copy_seq c"
    by (simp_all add: sorted_append)
  have none: "filter (in_window min_seq max_seq) cs = []" if "admitted max_seq c" "\<not> in_window min_seq max_seq c"
    using le that by (fastforce simp: in_window_def filter_empty_conv split: option.splits)
  have "in_window min_seq max_seq c \<Longrightarrow> admitted max_seq c" by (simp add: in_window_def)
  then show ?case unfolding recover_loop_Cons IH using none by auto
qed simp

lemma first_candidate_Some:
  "first_candidate f cs = Inr (Some x) \<Longrightarrow> \<exists>pre c post. cs = pre @ c # post \<and> f c = Inr (Some x) \<and> (\<forall>c' \<in> set pre. f c' = Inr None)"
proof (induction cs)
  case (Cons c cs)
  show ?case
  proof (cases "f c = Inr None")
    case True
    with Cons obtain pre c1 post where "cs = pre @ c1 # post" "f c1 = Inr (Some x)" "\<forall>c' \<in> set pre. f c' = Inr None" by auto
    with True show ?thesis by (intro exI [of _ "c # pre"]) auto
  next
    case False
    with Cons.prems show ?thesis by (intro exI [of _ "[]"]) (auto simp: res_simps split: option.splits)
  qed
qed simp

lemma first_candidate_None: "first_candidate f cs = Inr None \<longleftrightarrow> (\<forall>c \<in> set cs. f c = Inr None)"
  by (induction cs) (auto simp: res_simps split: option.splits)

lemma first_candidate_newest:
  assumes "sorted (map copy_seq cs)" "first_candidate f (filter P (rev cs)) = Inr (Some x)"
  shows "\<exists>c \<in> set cs. P c \<and> f c = Inr (Some x) \<and> (\<forall>c' \<in> set cs. P c' \<longrightarrow> copy_seq c < copy_seq c' \<longrightarrow> f c' = Inr None)"
proof -
  obtain pre c post where s: "filter P (rev cs) = pre @ c # post" "f c = Inr (Some x)" "\<forall>c' \<in> set pre. f c' = Inr None"
    using first_candidate_Some [OF assms(2)] by blast
  have r: "rev (filter P (rev cs)) = filter P cs" by (simp add: rev_filter)
  have "sorted (map copy_seq (filter P cs))" using assms(1) by (rule sorted_filter)
  then have "sorted (map copy_seq (rev (pre @ c # post)))" by (simp only: r [symmetric] s(1))
  then have le: "\<forall>c' \<in> set post. copy_seq c' \<le> copy_seq c" by (simp add: sorted_append)
  have m: "set (pre @ c # post) = {c \<in> set cs. P c}" using s(1) by (metis set_filter set_rev)
  have "c \<in> set cs" "P c" using m by auto
  moreover have "f c' = Inr None" if "c' \<in> set cs" "P c'" "copy_seq c < copy_seq c'" for c'
  proof -
    have "c' \<in> set (pre @ c # post)" using m that(1,2) by blast
    then show ?thesis using le that(3) s(3) by fastforce
  qed
  ultimately show ?thesis using s(2) by blast
qed

lemma candidate_sound:
  assumes "candidate read jread sb ix generation off c = Inr (Some r)"
  shows "rec_seq r = copy_seq c" "usable_inode generation (rec_info r)" "rec_runs r \<noteq> []"
    "res_bind (copy_data jread ix c) (\<lambda>data. parse_inode (slice data off (off + inode_size sb))) = Inr (rec_info r)"
    "block_map (\<lambda>b. block_as_of read jread sb ix b (Some (copy_seq c))) sb (rec_info r) = Inr (rec_runs r)"
    "rec_blocks_reused r \<le> rec_blocks r"
  using assms by (auto simp: candidate_def res_simps length_run_blocks [symmetric] split: if_splits dest: count_allocated_le)

subsection \<open>Names and the transactions that listed them\<close>

definition listings :: "dir_copy list \<Rightarrow> ((cps \<times> nat) \<times> nat) set" where
  "listings cs = {((name, inode), seq) |name inode seq owner es t. (seq, owner, es) \<in> set cs \<and> (name, inode, t, True) \<in> set es}"

definition seen_at :: "((cps \<times> nat) \<times> past_name) list \<Rightarrow> cps \<times> nat \<Rightarrow> nat \<Rightarrow> bool" where
  "seen_at found key seq \<longleftrightarrow> (\<exists>item f l. map_of found key = Some item
     \<and> pn_first_seq item = Some f \<and> pn_last_seq item = Some l \<and> f \<le> seq \<and> seq \<le> l)"

definition seen_within :: "((cps \<times> nat) \<times> past_name) list \<Rightarrow> ((cps \<times> nat) \<times> nat) set \<Rightarrow> bool" where
  "seen_within found L \<longleftrightarrow> (\<forall>x \<in> L. seen_at found (fst x) (snd x))"

lemma seen_within_mono: "seen_within found L \<Longrightarrow> L' \<subseteq> L \<Longrightarrow> seen_within found L'"
  by (auto simp: seen_within_def)

lemma note_entry_keeps: "seen_at found key seq \<Longrightarrow> seen_at (note_entry seq' e found) key seq"
  by (cases e) (auto simp: seen_at_def note_entry_def Let_def dict_set_get split: option.splits)

lemma note_entry_adds: "seen_at (note_entry seq (name, inode, t, True) found) (name, inode) seq"
  by (auto simp: seen_at_def note_entry_def Let_def dict_set_get split: option.splits)

lemma note_entry_seen:
  assumes "seen_within found L"
  shows "seen_within (note_entry seq (name, inode, t, is_live) found) (L \<union> (if is_live then {((name, inode), seq)} else {}))"
  using assms by (auto simp: seen_within_def note_entry_keeps note_entry_adds)

lemma note_entries_seen:
  assumes "seen_within found L"
  shows "seen_within (fold (note_entry seq) es found) (L \<union> {((name, inode), seq) |name inode t. (name, inode, t, True) \<in> set es})"
  using assms
proof (induction es arbitrary: found L)
  case (Cons e es)
  obtain name inode t is_live where e: "e = (name, inode, t, is_live)" by (cases e)
  have "seen_within (fold (note_entry seq) es (note_entry seq e found))
     (L \<union> (if is_live then {((name, inode), seq)} else {}) \<union> {((name, inode), seq) |name inode t. (name, inode, t, True) \<in> set es})"
    unfolding e by (intro Cons.IH note_entry_seen Cons.prems)
  then show ?case unfolding fold_Cons comp_def by (rule seen_within_mono) (auto simp: e)
qed simp

lemma note_copies_seen:
  assumes "seen_within found L"
  shows "seen_within (fold (\<lambda>(seq, _, es). fold (note_entry seq) es) cs found) (L \<union> listings cs)"
  using assms
proof (induction cs arbitrary: found L)
  case Nil
  then show ?case by (simp add: listings_def)
next
  case (Cons c cs)
  obtain seq owner es where c: "c = (seq, owner, es)" by (cases c)
  have u: "L \<union> listings (c # cs) = (L \<union> {((name, inode), seq) |name inode t. (name, inode, t, True) \<in> set es}) \<union> listings cs"
    unfolding listings_def c by (intro set_eqI iffI) (auto; blast)+
  show ?case unfolding u unfolding c fold_Cons comp_def prod.case by (intro Cons.IH note_entries_seen Cons.prems)
qed

lemma mark_gone_key: "fst (mark_gone h kv) = fst kv"
  by (auto simp: mark_gone_def Let_def split: prod.splits option.splits)

lemma mark_gone_bounds: "pn_first_seq (snd (mark_gone h kv)) = pn_first_seq (snd kv) \<and> pn_last_seq (snd (mark_gone h kv)) = pn_last_seq (snd kv)"
  by (auto simp: mark_gone_def Let_def split: prod.splits option.splits)

lemma map_of_map_pairs: "(\<And>kv. fst (g kv) = fst kv) \<Longrightarrow> map_of (map g d) k = map_option (\<lambda>v. snd (g (k, v))) (map_of d k)"
proof (induction d)
  case (Cons kv d)
  then show ?case by (cases kv; cases "g kv") (metis (no_types, lifting) fst_conv list.simps(9) map_of_Cons_code(2) option.simps(9) snd_conv)
qed simp

lemma mark_gone_seen: "seen_within found L \<Longrightarrow> seen_within (map (mark_gone h) found) L"
  by (auto simp: seen_within_def seen_at_def map_of_map_pairs mark_gone_key mark_gone_bounds)

lemma past_names_block_seen:
  assumes "seen_within found L"
  shows "seen_within (past_names_block ix number found)
    (L \<union> listings (case map_of (dir_copies ix) number of None \<Rightarrow> [] | Some cs \<Rightarrow> cs))"
  unfolding past_names_block_def Let_def by (intro mark_gone_seen note_copies_seen assms)

lemma past_names_blocks_seen:
  assumes "seen_within found L"
  shows "seen_within (fold (past_names_block ix) blocks found)
    (L \<union> (\<Union>number \<in> set blocks. listings (case map_of (dir_copies ix) number of None \<Rightarrow> [] | Some cs \<Rightarrow> cs)))"
  using assms
proof (induction blocks arbitrary: found L)
  case (Cons b blocks)
  from Cons.IH [OF past_names_block_seen [OF Cons.prems]] show ?case by (simp add: Un_assoc)
qed simp

subsection \<open>The content generator\<close>

text \<open>
  The abstract file: logical block \<open>l\<close> is the volume block it maps to, or zeros; the file's
  first \<open>n\<close> blocks one after the other.
\<close>

definition file_block :: "bytes \<Rightarrow> nat \<Rightarrow> (nat \<Rightarrow> nat option) \<Rightarrow> nat \<Rightarrow> bytes" where
  "file_block vol bs mp l = (case mp l of None \<Rightarrow> replicate bs 0 | Some p \<Rightarrow> slice vol (p * bs) (p * bs + bs))"

definition file_blocks :: "bytes \<Rightarrow> nat \<Rightarrow> (nat \<Rightarrow> nat option) \<Rightarrow> nat \<Rightarrow> nat \<Rightarrow> bytes" where
  "file_blocks vol bs mp l n = concat (map (file_block vol bs mp) [l..<l + n])"

text \<open>Every mapped block lies in the volume.\<close>

definition blocks_in_volume :: "bytes \<Rightarrow> nat \<Rightarrow> (nat \<Rightarrow> nat option) \<Rightarrow> bool" where
  "blocks_in_volume vol bs mp \<longleftrightarrow> (\<forall>p \<in> ran mp. (p + 1) * bs \<le> length vol)"

lemma file_blocks_add: "file_blocks vol bs mp l (m + n) = file_blocks vol bs mp l m @ file_blocks vol bs mp (l + m) n"
  using upt_add_eq_append [of l "l + m" n] by (simp add: file_blocks_def add.assoc)

lemma file_blocks_0 [simp]: "file_blocks vol bs mp l 0 = []"
  by (simp add: file_blocks_def)

lemma length_file_block: "blocks_in_volume vol bs mp \<Longrightarrow> length (file_block vol bs mp l) = bs"
  by (auto simp: file_block_def blocks_in_volume_def ran_def length_slice split: option.splits)

lemma length_file_blocks: "blocks_in_volume vol bs mp \<Longrightarrow> length (file_blocks vol bs mp l n) = n * bs"
proof (induction n)
  case (Suc n)
  then show ?case using file_blocks_add [of vol bs mp l n 1] by (simp add: file_blocks_def length_file_block)
qed simp

lemma run_count_run:
  assumes "\<forall>i < c. mp (l + i) = Some (p + i)" "0 < c" "n = run_count mp cb l p c"
  shows "c \<le> n \<and> (\<forall>i < n. mp (l + i) = Some (p + i))"
  using assms
proof (induction mp cb l p c arbitrary: n rule: run_count.induct)
  case (1 mp cb l p c)
  show ?case
  proof (cases "c < cb \<and> mp (l + c) = Some (p + c)")
    case True
    moreover from True "1.prems"(1) have "\<forall>i < c + 1. mp (l + i) = Some (p + i)" by (auto simp: less_Suc_eq)
    ultimately show ?thesis using "1.IH" [OF True] "1.prems"(3) by (subst (asm) run_count.simps) force
  next
    case False
    with "1.prems" show ?thesis by (subst (asm) run_count.simps) auto
  qed
qed

text \<open>A physically contiguous run is one slice of the volume.\<close>

lemma file_blocks_run:
  "\<forall>i < n. mp (l + i) = Some (p + i) \<Longrightarrow> file_blocks vol bs mp l n = slice vol (p * bs) ((p + n) * bs)"
proof (induction n)
  case (Suc n)
  then have "file_blocks vol bs mp l n = slice vol (p * bs) ((p + n) * bs)" by simp
  moreover have "file_blocks vol bs mp (l + n) 1 = slice vol ((p + n) * bs) ((p + n) * bs + bs)"
    using Suc.prems by (simp add: file_blocks_def file_block_def)
  ultimately show ?case
    using file_blocks_add [of vol bs mp l n 1] slice_append_slice [of "p * bs" "(p + n) * bs" "(p + n) * bs + bs" vol]
    by (simp add: algebra_simps)
qed simp

text \<open>One round of the generator reads some number of blocks at once.\<close>

definition content_chunk :: "byte_reader \<Rightarrow> ext_super \<Rightarrow> (nat \<Rightarrow> nat option) \<Rightarrow> nat \<Rightarrow> nat \<Rightarrow> nat \<times> (lvm_exc + bytes)" where
  "content_chunk read sb mp cb l = (case mp l of
      None \<Rightarrow> (1, Inr (replicate (block_size sb) 0))
    | Some p \<Rightarrow> (let count = run_count mp cb l p 1 in
        (count, read (int (p * block_size sb)) (int (count * block_size sb)))))"

lemma content_loop_chunk: "content_loop read sb mp cb sz l produced =
    (if produced < sz then
       (case content_chunk read sb mp cb l of
          (count, Inl e) \<Rightarrow> ([], Some e)
        | (count, Inr raw) \<Rightarrow> (let data = take (sz - produced) raw in
           if data = [] then ([], None)
           else (let (chunks, e) = content_loop read sb mp cb sz (l + count) (produced + length data)
                 in (data # chunks, e))))
     else ([], None))"
  by (subst content_loop.simps) (simp add: content_chunk_def Let_def split: option.split prod.split sum.split)

context exact_reader
begin

lemma content_chunk_exact:
  assumes "blocks_in_volume content (block_size sb) mp"
  shows "\<exists>n > 0. content_chunk rd sb mp cb l = (n, Inr (file_blocks content (block_size sb) mp l n))"
proof (cases "mp l")
  case None
  then show ?thesis by (intro exI [of _ 1]) (simp add: content_chunk_def file_blocks_def file_block_def)
next
  case (Some p)
  define n where "n = run_count mp cb l p 1"
  have nc: "run_count mp cb l p (Suc 0) = n" by (simp add: n_def)
  have n: "1 \<le> n" "\<forall>i < n. mp (l + i) = Some (p + i)"
    using run_count_run [of 1 mp l p n cb] Some n_def by auto
  have "n - 1 < n" using n(1) by simp
  with n(2) have "mp (l + (n - 1)) = Some (p + (n - 1))" by blast
  then have "p + (n - 1) \<in> ran mp" by (rule ranI)
  then have "(p + (n - 1) + 1) * block_size sb \<le> length content"
    using assms unfolding blocks_in_volume_def by blast
  moreover have "p + (n - 1) + 1 = p + n" using n by simp
  ultimately have "p * block_size sb + n * block_size sb \<le> length content" by (simp only: add_mult_distrib)
  then have "rd (int (p * block_size sb)) (int (n * block_size sb))
      = Inr (slice content (p * block_size sb) (p * block_size sb + n * block_size sb))"
    by (subst read_within) (simp_all flip: of_nat_add of_nat_mult)
  then have "content_chunk rd sb mp cb l = (n, Inr (file_blocks content (block_size sb) mp l n))"
    using Some file_blocks_run [OF n(2)] by (simp add: content_chunk_def nc add_mult_distrib)
  then show ?thesis using n(1) by (intro exI [of _ n]) simp
qed

lemma content_loop_exact:
  assumes "blocks_in_volume content (block_size sb) mp" "0 < block_size sb"
    and "sz - produced \<le> n * block_size sb"
  shows "\<exists>chunks. content_loop rd sb mp cb sz l produced = (chunks, None)
    \<and> concat chunks = take (sz - produced) (file_blocks content (block_size sb) mp l n)"
  using assms(3)
proof (induction "sz - produced" arbitrary: produced l n rule: less_induct)
  case less
  show ?case
  proof (cases "produced < sz")
    case True
    obtain k where k: "0 < k" "content_chunk rd sb mp cb l = (k, Inr (file_blocks content (block_size sb) mp l k))"
      using content_chunk_exact [OF assms(1)] by blast
    define data where "data = take (sz - produced) (file_blocks content (block_size sb) mp l k)"
    have len: "length data = min (k * block_size sb) (sz - produced)"
      by (simp add: data_def length_file_blocks [OF assms(1)])
    then have pos: "0 < length data" using True k(1) assms(2) by simp
    then have ne: "data \<noteq> []" by auto
    let ?p = "produced + length data"
    have lt: "sz - ?p < sz - produced" using pos True by arith
    have bd: "sz - ?p \<le> (n - k) * block_size sb"
      using less.prems len by (auto simp: diff_mult_distrib min_def)
    obtain chunks where c: "content_loop rd sb mp cb sz (l + k) ?p = (chunks, None)"
      "concat chunks = take (sz - ?p) (file_blocks content (block_size sb) mp (l + k) (n - k))"
      using less.hyps [OF lt bd] by blast
    have "content_loop rd sb mp cb sz l produced = (data # chunks, None)"
      by (subst content_loop_chunk) (simp only: True k(2) if_True prod.case sum.case Let_def data_def [symmetric] ne if_False c(1))
    moreover have "concat (data # chunks) = take (sz - produced) (file_blocks content (block_size sb) mp l n)"
    proof (cases "k * block_size sb \<le> sz - produced")
      case True
      then have "k * block_size sb \<le> n * block_size sb" using less.prems by (rule le_trans)
      then have "n = k + (n - k)" using assms(2) mult_le_cancel2 [of k "block_size sb" n] by simp
      then have "file_blocks content (block_size sb) mp l n
          = file_blocks content (block_size sb) mp l k @ file_blocks content (block_size sb) mp (l + k) (n - k)"
        using file_blocks_add [of content "block_size sb" mp l k "n - k"] by simp
      then show ?thesis
        using True c(2) len by (simp add: data_def length_file_blocks [OF assms(1)])
    next
      case False
      then have "sz - ?p = 0" using len by simp
      then have "concat chunks = []" using c(2) by simp
      moreover have "data = take (sz - produced) (file_blocks content (block_size sb) mp l (min k n))"
        using False less.prems file_blocks_add [of content "block_size sb" mp l "min k n" "k - min k n"]
        by (auto simp: data_def length_file_blocks [OF assms(1)] min_def split: if_splits)
      moreover have "take (sz - produced) (file_blocks content (block_size sb) mp l (min k n))
          = take (sz - produced) (file_blocks content (block_size sb) mp l n)"
        using False less.prems file_blocks_add [of content "block_size sb" mp l "min k n" "n - min k n"]
        by (auto simp: length_file_blocks [OF assms(1)] min_def split: if_splits)
      ultimately show ?thesis by simp
    qed
    ultimately show ?thesis by blast
  next
    case False
    then show ?thesis by (subst content_loop_chunk) simp
  qed
qed

end

end
