(* ===== verification/Ext_Directory.thy ===== *)
theory Ext_Directory
  imports Ext_Journal
begin

section \<open>Directory blocks as lists of records\<close>

text \<open>
  The format the directory functions of \<^verbatim>\<open>ExtJournal\<close> decode, as an encoder: a block is the
  concatenation of records, each with its name and the slack its length hides.
  A block looks like a directory block exactly when it is such a concatenation, its live
  names are those of the records, and the search at every aligned offset finds all of them.
\<close>

record raw_dirent =
  rd_inode :: nat
  rd_type :: nat
  rd_name :: bytes
  rd_slack :: bytes

definition rec_len :: "raw_dirent \<Rightarrow> nat" where
  "rec_len e = 8 + length (rd_name e) + length (rd_slack e)"

definition encode_dirent :: "raw_dirent \<Rightarrow> bytes" where
  "encode_dirent e = le_bytes 4 (rd_inode e) @ le_bytes 2 (rec_len e) @ le_bytes 1 (length (rd_name e))
     @ le_bytes 1 (rd_type e) @ rd_name e @ rd_slack e"

definition dirent_ok :: "raw_dirent \<Rightarrow> bool" where
  "dirent_ok e \<longleftrightarrow> rd_inode e < 2 ^ 32 \<and> rd_type e < 256 \<and> length (rd_name e) < 256 \<and> rec_len e < 65536 \<and> rec_len e mod 4 = 0"

definition encode_block :: "raw_dirent list \<Rightarrow> bytes" where
  "encode_block es = concat (map encode_dirent es)"

text \<open>The name a record lists, if it is in use and its name is UTF-8.\<close>

definition listed_name :: "raw_dirent \<Rightarrow> (cps \<times> nat) option" where
  "listed_name e = (if rd_inode e = 0 \<or> rd_name e = [] then None
     else map_option (\<lambda>name. (name, rd_inode e)) (utf8_decode (map unat (rd_name e))))"

lemma length_encode_dirent [simp]: "length (encode_dirent e) = rec_len e"
  by (simp add: encode_dirent_def rec_len_def)

text \<open>The fields of a record read back at its offset.\<close>

lemma dirent_fields:
  assumes "dirent_ok e" and d: "data = pre @ encode_dirent e @ post" and o: "off = length pre"
  shows "le_field data off 4 = rd_inode e" "le_field data (off + 4) 2 = rec_len e"
    "le_field data (off + 6) 1 = length (rd_name e)" "le_field data (off + 7) 1 = rd_type e"
    "slice data (off + 8) (off + 8 + length (rd_name e)) = rd_name e"
proof -
  have b: "rd_inode e < 256 ^ 4" "rec_len e < 256 ^ 2" "length (rd_name e) < 256 ^ 1" "rd_type e < 256 ^ 1"
    using assms(1) by (simp_all add: dirent_ok_def)
  note enc = d [unfolded encode_dirent_def append_assoc]
  show "le_field data off 4 = rd_inode e"
    using le_field_at [of off pre 4 "le_bytes 4 (rd_inode e)"] le_uint_le_bytes [OF b(1)]
    unfolding enc by (simp add: o del: le_bytes.simps)
  show "le_field data (off + 4) 2 = rec_len e"
    using le_field_at [of "off + 4" "pre @ le_bytes 4 (rd_inode e)" 2 "le_bytes 2 (rec_len e)"] le_uint_le_bytes [OF b(2)]
    unfolding enc by (simp add: o del: le_bytes.simps)
  show "le_field data (off + 6) 1 = length (rd_name e)"
    using le_field_at [of "off + 6" "pre @ le_bytes 4 (rd_inode e) @ le_bytes 2 (rec_len e)" 1 "le_bytes 1 (length (rd_name e))"]
      le_uint_le_bytes [OF b(3)]
    unfolding enc by (simp add: o del: le_bytes.simps)
  show "le_field data (off + 7) 1 = rd_type e"
    using le_field_at [of "off + 7" "pre @ le_bytes 4 (rd_inode e) @ le_bytes 2 (rec_len e) @ le_bytes 1 (length (rd_name e))" 1
        "le_bytes 1 (rd_type e)"] le_uint_le_bytes [OF b(4)]
    unfolding enc by (simp add: o del: le_bytes.simps)
  show "slice data (off + 8) (off + 8 + length (rd_name e)) = rd_name e"
    using slice_at [of "off + 8" "pre @ le_bytes 4 (rd_inode e) @ le_bytes 2 (rec_len e) @ le_bytes 1 (length (rd_name e))
        @ le_bytes 1 (rd_type e)" "off + 8 + length (rd_name e)" "rd_name e" "rd_slack e @ post"]
    unfolding enc by (simp add: o del: le_bytes.simps)
qed

text \<open>Conversely, a record-sized piece of a block is a record.\<close>

definition dirent_of :: "bytes \<Rightarrow> nat \<Rightarrow> raw_dirent" where
  "dirent_of data off = (let n = le_field data (off + 6) 1 in
     \<lparr>rd_inode = le_field data off 4, rd_type = le_field data (off + 7) 1,
      rd_name = slice data (off + 8) (off + 8 + n),
      rd_slack = slice data (off + 8 + n) (off + le_field data (off + 4) 2)\<rparr>)"

lemma dirent_of_piece:
  assumes "8 \<le> le_field data (off + 4) 2" "le_field data (off + 4) 2 mod 4 = 0"
    "off + le_field data (off + 4) 2 \<le> length data" "le_field data (off + 6) 1 + 8 \<le> le_field data (off + 4) 2"
  shows "dirent_ok (dirent_of data off)" "rec_len (dirent_of data off) = le_field data (off + 4) 2"
    "encode_dirent (dirent_of data off) = slice data off (off + le_field data (off + 4) 2)"
proof -
  define r n where "r = le_field data (off + 4) 2" and "n = le_field data (off + 6) 1"
  have le: "8 \<le> r" "off + r \<le> length data" "n + 8 \<le> r" using assms by (simp_all add: r_def n_def)
  have ln: "length (rd_name (dirent_of data off)) = n"
    using le by (simp add: dirent_of_def Let_def length_slice n_def [symmetric, simplified])
  show rl: "rec_len (dirent_of data off) = le_field data (off + 4) 2"
    using le by (simp add: rec_len_def dirent_of_def Let_def length_slice n_def [symmetric, simplified] r_def [symmetric])
  show "dirent_ok (dirent_of data off)"
    using le_field_bound [of data off 4] le_field_bound [of data "off + 7" 1] le_field_bound [of data "off + 6" 1]
      le_field_bound [of data "off + 4" 2] assms(2)
    unfolding dirent_ok_def rl ln by (simp add: n_def) (simp add: dirent_of_def Let_def)
  have "encode_dirent (dirent_of data off)
      = slice data off (off + 4) @ slice data (off + 4) (off + 6) @ slice data (off + 6) (off + 7) @ slice data (off + 7) (off + 8)
        @ slice data (off + 8) (off + 8 + n) @ slice data (off + 8 + n) (off + r)"
    using le le_bytes_le_field [of off 4 data] le_bytes_le_field [of "off + 4" 2 data]
      le_bytes_le_field [of "off + 6" 1 data] le_bytes_le_field [of "off + 7" 1 data]
    unfolding encode_dirent_def rl ln unfolding r_def n_def dirent_of_def Let_def
    by (simp add: add.commute del: le_bytes.simps)
  also have "\<dots> = slice data off (off + r)" using le by (simp add: slice_append_slice)
  finally show "encode_dirent (dirent_of data off) = slice data off (off + le_field data (off + 4) 2)" by (simp add: r_def)
qed

subsection \<open>The chain of records\<close>

lemma directory_chain_encode:
  assumes "\<forall>e \<in> set es. dirent_ok e"
  shows "directory_chain (pre @ encode_block es) (length pre)"
  using assms
proof (induction es arbitrary: pre)
  case Nil
  then show ?case by (subst directory_chain.simps) (simp add: encode_block_def)
next
  case (Cons e es)
  let ?d = "pre @ encode_dirent e @ encode_block es"
  note f = dirent_fields [OF _ refl refl, of e pre "encode_block es"]
  have "directory_chain ((pre @ encode_dirent e) @ encode_block es) (length (pre @ encode_dirent e))"
    using Cons by (intro Cons.IH) simp
  then have "directory_chain ?d (length pre)"
    using f Cons.prems by (subst directory_chain.simps) (simp add: Let_def dirent_ok_def rec_len_def)
  then show ?case by (simp add: encode_block_def)
qed

lemma directory_chain_records:
  "directory_chain data off \<Longrightarrow> \<exists>es. (\<forall>e \<in> set es. dirent_ok e) \<and> drop off data = encode_block es"
proof (induction data off rule: directory_chain.induct)
  case (1 data off)
  show ?case
  proof (cases "off < length data")
    case True
    let ?r = "le_field data (off + 4) 2"
    from "1.prems" True have c: "\<not> off + 8 > length data" "\<not> (?r < 8 \<or> ?r mod 4 \<noteq> 0 \<or> off + ?r > length data \<or> le_field data (off + 6) 1 + 8 > ?r)"
      and rest: "directory_chain data (off + ?r)"
      by (subst (asm) directory_chain.simps; simp add: Let_def split: if_splits)+
    then have p: "8 \<le> ?r" "?r mod 4 = 0" "off + ?r \<le> length data" "le_field data (off + 6) 1 + 8 \<le> ?r" by auto
    obtain es where es: "\<forall>e \<in> set es. dirent_ok e" "drop (off + ?r) data = encode_block es"
      using "1.IH" [OF True c(1) refl refl c(2) rest] by blast
    have "drop off data = slice data off (off + ?r) @ drop (off + ?r) data"
      by (simp add: slice_def) (metis append_take_drop_id drop_drop add.commute)
    then show ?thesis using es dirent_of_piece [OF p]
      by (intro exI [of _ "dirent_of data off # es"]) (simp add: encode_block_def)
  next
    case False
    with "1.prems" show ?thesis by (intro exI [of _ "[]"]) (simp add: encode_block_def)
  qed
qed

lemma live_dirents_loop_encode:
  assumes "\<forall>e \<in> set es. dirent_ok e"
  shows "live_dirents_loop (pre @ encode_block es) (length pre) = List.map_filter listed_name es"
  using assms
proof (induction es arbitrary: pre)
  case Nil
  then show ?case by (subst live_dirents_loop.simps) (simp add: encode_block_def)
next
  case (Cons e es)
  let ?d = "pre @ encode_dirent e @ encode_block es"
  note f = dirent_fields [OF _ refl refl, of e pre "encode_block es"]
  have "live_dirents_loop ((pre @ encode_dirent e) @ encode_block es) (length (pre @ encode_dirent e))
      = List.map_filter listed_name es"
    using Cons by (intro Cons.IH) simp
  then have "live_dirents_loop ?d (length pre) = List.map_filter listed_name (e # es)"
    using f Cons.prems
    by (subst live_dirents_loop.simps)
       (auto simp: Let_def rec_len_def listed_name_def map_filter_simps split: option.splits)
  then show ?case by (simp add: encode_block_def)
qed

lemma directory_block_iff:
  "looks_like_directory_block data \<longleftrightarrow> (\<exists>es. (\<forall>e \<in> set es. dirent_ok e) \<and> data = encode_block es)"
  using directory_chain_records [of data 0] directory_chain_encode [of _ "[]"]
  by (auto simp: looks_like_directory_block_def)

lemma live_dirents_encode:
  "\<forall>e \<in> set es. dirent_ok e \<Longrightarrow> live_dirents (encode_block es) = set (List.map_filter listed_name es)"
  using live_dirents_loop_encode [of es "[]"] by (simp add: live_dirents_def)

subsection \<open>The search at every aligned offset\<close>

text \<open>What the search asks of a record beyond its shape.\<close>

definition plausible :: "(nat \<Rightarrow> bool) \<Rightarrow> ext_super \<Rightarrow> raw_dirent \<Rightarrow> cps \<Rightarrow> bool" where
  "plausible pr sb e name \<longleftrightarrow> rd_inode e \<noteq> 0 \<and> rd_inode e \<le> inode_count sb \<and> rd_name e \<noteq> [] \<and> rd_type e \<le> 7
     \<and> 0 \<notin> set (rd_name e) \<and> 0x2F \<notin> set (rd_name e) \<and> utf8_decode (map unat (rd_name e)) = Some name
     \<and> py_isprintable pr name \<and> name \<noteq> [0x2E] \<and> name \<noteq> [0x2E, 0x2E]"

lemma encode_block_aligned: "\<forall>e \<in> set es. dirent_ok e \<Longrightarrow> length (encode_block es) mod 4 = 0"
  by (induction es) (auto simp: encode_block_def dirent_ok_def mod_eq_0_iff_dvd)

lemma dirent_offsets_mem: "off mod 4 = 0 \<Longrightarrow> off + 8 < sz \<Longrightarrow> off \<in> set (dirent_offsets sz)"
  by (auto simp: dirent_offsets_def image_iff intro!: bexI [of _ "off div 4"])

lemma dirents_complete:
  assumes ok: "\<forall>e \<in> set (es1 @ e # es2). dirent_ok e" and p: "plausible pr sb e name"
  shows "(rd_inode e, rd_type e, name) \<in> set (dirents pr sb (encode_block (es1 @ e # es2)))"
proof -
  define data off where "data = encode_block (es1 @ e # es2)" and "off = length (encode_block es1)"
  have d: "data = encode_block es1 @ encode_dirent e @ encode_block es2"
    by (simp add: data_def encode_block_def)
  have e: "dirent_ok e" using ok by simp
  note f = dirent_fields [OF e d refl, folded off_def]
  have len: "off + rec_len e \<le> length data" by (simp add: d off_def)
  have "0 < length (rd_name e)" using p by (simp add: plausible_def)
  then have lt: "8 < rec_len e" by (simp add: rec_len_def)
  have "dirent_at pr sb data off = Some (rd_inode e, rd_type e, name)"
    using p e len unfolding dirent_at_def f Let_def
    by (auto simp: plausible_def dirent_ok_def rec_len_def)
  moreover have "off \<in> set (dirent_offsets (length data))"
    using encode_block_aligned [of es1] ok len lt by (intro dirent_offsets_mem) (auto simp: off_def)
  ultimately show ?thesis by (force simp: dirents_def data_def [symmetric] map_filter_def)
qed

end
