(* ===== verification/Ext_Properties.thy ===== *)
theory Ext_Properties
  imports Ext_Recovery Ext_Directory
begin

section \<open>What the ext journal guarantees\<close>

text \<open>
  The properties of \<^verbatim>\<open>disk_images/ext_journal.py\<close>, each with a concrete instance: a journal
  of three 128-byte blocks, a superblock, a descriptor with one tag and the copy of file
  system block 3 it announces, which holds inode 1, a file of 200 bytes in blocks 4 and 5.
\<close>

definition example_super :: ext_super where
  "example_super = \<lparr>inode_count = 64, block_size = 128, first_data_block = 0, blocks_per_group = 8,
     inodes_per_group = 1, inode_size = 128, desc_size = 32, journal_inum = 8\<rparr>"

definition example_inode :: bytes where
  "example_inode = [0, 0x80, 0, 0, 200, 0, 0, 0] @ replicate 18 0 @ [1, 0] @ replicate 12 0
     @ [4, 0, 0, 0, 5, 0, 0, 0] @ replicate 80 0"

definition example_journal :: bytes where
  "example_journal =
     ([0xC0, 0x3B, 0x39, 0x98, 0, 0, 0, 3, 0, 0, 0, 0, 0, 0, 0, 128, 0, 0, 0, 3, 0, 0, 0, 1] @ replicate 104 0)
     @ ([0xC0, 0x3B, 0x39, 0x98, 0, 0, 0, 1, 0, 0, 0, 7, 0, 0, 0, 3, 0, 0, 0, 8, 0, 0, 0, 0] @ replicate 104 0)
     @ example_inode"

definition example_jread :: journal_reader where
  "example_jread off n = Inr (slice example_journal off (off + n))"

definition example_copy :: journal_copy where
  "example_copy = \<lparr>copy_seq = 7, copy_journal_block = 2, copy_escaped = False\<rparr>"

definition example_index :: journal_index where
  "example_index = \<lparr>jbs = 128, copies = [(3, [example_copy])], commit_times = [], dir_copies = []\<rparr>"

lemmas decode_simps = le_field_def be_field_def be_uint_def slice_def

lemma length_example_inode [simp]: "length example_inode = 128"
  by (simp add: example_inode_def)

lemma example_inode_slice: "slice example_journal 256 384 = example_inode"
  by (simp add: slice_def example_journal_def)

lemma example_tags: "tags (slice example_journal 128 256) 8 0 = [(3, False)]"
  by (simp add: tags_def tags_loop.simps tag_fields_def decode_simps example_journal_def)

lemma example_chunk:
  "scan_chunk 3 8 0 (slice example_journal 128 384) 1 2 0 (empty_index\<lparr>jbs := 128\<rparr>) = Inr (2, example_index)"
proof -
  let ?d = "slice example_journal 128 384"
  have f: "be_field ?d 0 4 = JBD2_MAGIC" "be_field ?d 4 4 = 1" "be_field ?d 8 4 = 7" "length ?d = 256"
    by (simp_all add: decode_simps example_journal_def JBD2_MAGIC_def)
  have t: "tags (slice ?d 0 128) 8 0 = [(3, False)]"
    using example_tags by (simp add: slice_def)
  have "scan_chunk 3 8 0 ?d 1 2 0 (empty_index\<lparr>jbs := 128\<rparr>)
      = scan_chunk 3 8 0 ?d 1 2 2 ((empty_index\<lparr>jbs := 128\<rparr>)\<lparr>copies := add_copies 3 7 1 [(3, False)] []\<rparr>)"
    using f t by (subst scan_chunk.simps) (simp add: empty_index_def numeral_2_eq_2)
  also have "\<dots> = Inr (2, example_index)"
    by (subst scan_chunk.simps) (simp add: add_copies_def empty_index_def example_index_def example_copy_def dict_append_def)
  finally show ?thesis .
qed

lemma example_loads: "load_index (\<lambda>_. False) example_super example_jread None = Inr example_index"
proof -
  have scan: "scan example_jread 3 1 0 (empty_index\<lparr>jbs := 128\<rparr>) = Inr example_index"
    using example_chunk
    by (simp add: scan_def scan_loop.simps journal_read_def example_jread_def empty_index_def example_index_def sort_values_def)
  have tg: "copy_targets (copies example_index) = [(2, (3, example_copy))]"
    by (simp add: copy_targets_def example_index_def example_copy_def)
  have ix: "jbs example_index = 128" "dir_copies example_index = []" "example_index\<lparr>dir_copies := []\<rparr> = example_index"
    by (simp_all add: example_index_def)
  have w: "[0..<3] = [0, 1, 2]" by (simp add: upt_rec)
  have "\<not> looks_like_directory_block example_inode"
    by (simp add: looks_like_directory_block_def directory_chain.simps decode_simps example_inode_def)
  moreover have "slice (slice example_journal 0 384) 256 384 = example_inode" by (simp add: slice_def example_journal_def)
  ultimately have "index_copy (\<lambda>_. False) example_super (slice example_journal 0 384) 0 2 (3, example_copy) example_index = Inr example_index"
    by (simp add: index_copy_def ix example_copy_def unescape_def)
  then have "index_directories (\<lambda>_. False) example_super example_jread 3 example_index = Inr example_index"
    using ix w by (simp add: index_directories_def tg journal_read_def example_jread_def sort_values_def)
  moreover have "load_index (\<lambda>_. False) example_super example_jread None
      = res_bind (scan example_jread 3 1 0 (empty_index\<lparr>jbs := 128\<rparr>)) (index_directories (\<lambda>_. False) example_super example_jread 3)"
    by (simp add: load_index_def example_jread_def decode_simps example_journal_def JBD2_MAGIC_def)
  ultimately show ?thesis using scan by simp
qed

lemma example_copy_data: "copy_data example_jread example_index example_copy = Inr example_inode"
  by (simp add: copy_data_def journal_read_def example_jread_def example_index_def example_copy_def example_inode_slice unescape_def)

lemma example_copies: "copies_of example_index 3 = [example_copy]"
  by (simp add: copies_of_def example_index_def)

definition example_volume :: byte_reader where
  "example_volume off n = (if off = 128 then Inr [2, 0, 0, 0, 0, 0, 0, 0, 3, 0, 0, 0] else Inr [0x10])"

definition example_recovered :: recovered where
  "example_recovered = \<lparr>rec_info = \<lparr>i_mode = 0x8000, i_uid = 0, i_gid = 0, i_size = 200, i_atime = 0, i_ctime = 0,
       i_mtime = 0, i_crtime = 0, i_dtime = 0, i_links = 1, i_flags = 0, i_block = [4, 0, 0, 0, 5, 0, 0, 0] @ replicate 52 0,
       i_generation = 0\<rparr>,
     rec_runs = [(0, 4, 1), (1, 5, 1)], rec_seq = 7, rec_committed = None, rec_blocks = 2, rec_blocks_reused = 1\<rparr>"

lemma example_parse: "parse_inode example_inode = Inr (rec_info example_recovered)"
  by (simp add: parse_inode_def decode_simps example_inode_def example_recovered_def)

lemma example_block_map: "block_map blk example_super (rec_info example_recovered) = Inr [(0, 4, 1), (1, 5, 1)]"
  by (simp add: block_map_def example_super_def example_recovered_def decode_simps upt_rec)

lemma example_allocated: "block_allocated example_volume example_super 4 = Inr True" "block_allocated example_volume example_super 5 = Inr False"
  by (simp_all add: block_allocated_def example_super_def example_volume_def group_descriptor_def desc_block_def unpack_le_def
      decode_simps volume_block_def)

lemma example_recovers:
  "recover example_volume example_jread example_super example_index 1 (Some 5) (Some 9) None = Inr (Some example_recovered)"
proof -
  have "inode_location example_volume example_super 1 = Inr (3, 0)"
    by (simp add: inode_location_def example_super_def example_volume_def group_descriptor_def desc_block_def unpack_le_def decode_simps)
  moreover have "usable_inode None (rec_info example_recovered)" by (simp add: usable_inode_def example_recovered_def)
  moreover have "slice example_inode 0 128 = example_inode" by (simp add: slice_def)
  moreover have "inode_size example_super = 128" by (simp add: example_super_def)
  ultimately show ?thesis
    using example_allocated
    by (simp add: recover_def example_copies example_copy_data example_parse example_block_map run_blocks_def)
       (simp add: example_copy_def example_recovered_def example_index_def)
qed



text \<open>A block as of a transaction is the newest journal copy not after it, and the block on the volume exactly when there is no such copy.\<close>

theorem block_as_of_newest:
  assumes "load_index pr sb jread None = Inr ix" and "block_as_of read jread sb ix number (Some m) = Inr data"
  shows "(\<exists>c \<in> set (copies_of ix number). copy_seq c \<le> m \<and> copy_data jread ix c = Inr data
      \<and> (\<forall>c' \<in> set (copies_of ix number). copy_seq c' \<le> m \<longrightarrow> copy_seq c' \<le> copy_seq c))
    \<or> (\<forall>c \<in> set (copies_of ix number). m < copy_seq c) \<and> volume_block read sb (int number) = Inr data"
proof -
  have "copies_sorted (copies ix)" using load_index_copies [OF assms(1)] by blast
  then show ?thesis
    by (cases rule: block_as_of_cases [where number = number and max_seq = "Some m" and read = read and jread = jread and sb = sb])
       (use assms(2) in \<open>auto simp: admitted_def not_le\<close>)
qed

theorem block_as_of_newest_witness:
  "block_as_of (\<lambda>off n. Inl (ReaderException ''OSError'')) example_jread example_super example_index 3 (Some 9) = Inr example_inode
   \<and> ((\<exists>c \<in> set (copies_of example_index 3). copy_seq c \<le> 9 \<and> copy_data example_jread example_index c = Inr example_inode
      \<and> (\<forall>c' \<in> set (copies_of example_index 3). copy_seq c' \<le> 9 \<longrightarrow> copy_seq c' \<le> copy_seq c))
    \<or> (\<forall>c \<in> set (copies_of example_index 3). 9 < copy_seq c)
      \<and> volume_block (\<lambda>off n. Inl (ReaderException ''OSError'')) example_super (int 3) = Inr example_inode)"
proof -
  have b: "block_as_of (\<lambda>off n. Inl (ReaderException ''OSError'')) example_jread example_super example_index 3 (Some 9) = Inr example_inode"
    using example_copy_data by (simp add: block_as_of_def example_copies) (simp add: example_copy_def)
  then show ?thesis using block_as_of_newest [OF example_loads b] by blast
qed

text \<open>C23: Recovering a deleted file uses the newest journal copy of its inode within the window
  of transactions that is a live regular file with content, of the wanted generation and with
  blocks: every newer copy in the window was rejected. The block runs are those of that copy,
  read as of its transaction, and the count of reallocated blocks is at most the number of blocks.
\<close>

theorem recover_newest_in_window:
  assumes "load_index pr sb jread None = Inr ix" and "inode_location read sb inode = Inr (block, off)"
    and "recover read jread sb ix inode min_seq max_seq generation = Inr (Some r)"
  shows "\<exists>c \<in> set (copies_of ix block). in_window min_seq max_seq c \<and> rec_seq r = copy_seq c
    \<and> (\<forall>c' \<in> set (copies_of ix block). in_window min_seq max_seq c' \<longrightarrow> copy_seq c < copy_seq c'
         \<longrightarrow> candidate read jread sb ix generation off c' = Inr None)
    \<and> res_bind (copy_data jread ix c) (\<lambda>data. parse_inode (slice data off (off + inode_size sb))) = Inr (rec_info r)
    \<and> usable_inode generation (rec_info r) \<and> rec_runs r \<noteq> []
    \<and> block_map (\<lambda>b. block_as_of read jread sb ix b (Some (copy_seq c))) sb (rec_info r) = Inr (rec_runs r)
    \<and> rec_blocks_reused r \<le> rec_blocks r"
proof -
  have so: "sorted (map copy_seq (copies_of ix block))"
    using load_index_copies [OF assms(1)] copies_of_sorted by blast
  then have "first_candidate (candidate read jread sb ix generation off)
      (filter (in_window min_seq max_seq) (rev (copies_of ix block))) = Inr (Some r)"
    using assms(2,3) by (simp add: recover_def recover_loop_window)
  from first_candidate_newest [OF so this] show ?thesis
    by (elim bexE conjE, intro bexI conjI) (assumption | rule candidate_sound)+
qed

theorem recover_newest_in_window_witness:
  "\<exists>c \<in> set (copies_of example_index 3). in_window (Some 5) (Some 9) c \<and> rec_seq example_recovered = copy_seq c"
proof -
  have "inode_location example_volume example_super 1 = Inr (3, 0)"
    by (simp add: inode_location_def example_super_def example_volume_def group_descriptor_def desc_block_def unpack_le_def decode_simps)
  from recover_newest_in_window [OF example_loads this example_recovers] show ?thesis by blast
qed

text \<open>C22: When every block of a recovered file lies in the volume, the generator ends without an
  error and its chunks are exactly the file's first bytes: the mapped blocks in logical
  order, zeros for holes, cut at the file's size; whatever the chunk size.
\<close>

theorem recovered_content_exact:
  assumes "blocks_in_volume vol (block_size sb) (map_of (content_mapping (rec_runs r)))" and "0 < block_size sb"
    and "i_size (rec_info r) \<le> n * block_size sb"
  shows "\<exists>chunks. iter_content (file_read vol) sb r chunk_blocks = (chunks, None)
    \<and> concat chunks = take (i_size (rec_info r)) (file_blocks vol (block_size sb) (map_of (content_mapping (rec_runs r))) 0 n)"
  using image_file.content_loop_exact [of vol sb _ "i_size (rec_info r)" 0 n chunk_blocks 0] assms
  by (simp add: iter_content_def)

theorem recovered_content_exact_witness:
  "\<exists>chunks. iter_content (file_read (replicate 768 1)) example_super example_recovered 256 = (chunks, None)
    \<and> concat chunks = take 200 (file_blocks (replicate 768 1) 128 (map_of [(0, 4), (1, 5)]) 0 2)"
proof -
  have m: "content_mapping (rec_runs example_recovered) = [(0, 4), (1, 5)]"
    by (simp add: content_mapping_def example_recovered_def)
  have s: "block_size example_super = 128" "i_size (rec_info example_recovered) = 200"
    by (simp_all add: example_super_def example_recovered_def)
  have "ran (map_of [(0 :: nat, 4 :: nat), (1, 5)]) \<subseteq> {4, 5}" by (auto simp: ran_def split: if_splits)
  then have "blocks_in_volume (replicate 768 1) 128 (map_of [(0, 4), (1, 5)])" by (auto simp: blocks_in_volume_def)
  then show ?thesis
    using recovered_content_exact [of "replicate 768 1" example_super example_recovered 2 256] by (simp add: m s)
qed

text \<open>C25: A block is taken for a directory block exactly when it is a sequence of well-formed
  records that fills it, and the names it lists are then those of its records in use.
\<close>

theorem directory_block_format:
  "looks_like_directory_block data \<longleftrightarrow> (\<exists>es. (\<forall>e \<in> set es. dirent_ok e) \<and> data = encode_block es
     \<and> live_dirents data = set (List.map_filter listed_name es))"
  using live_dirents_encode by (auto simp: directory_block_iff)

theorem directory_block_format_witness:
  "looks_like_directory_block (encode_block [\<lparr>rd_inode = 12, rd_type = 1, rd_name = [0x61], rd_slack = [0, 0, 0]\<rparr>])"
  by (rule iffD2 [OF directory_block_format], rule exI [of _ "[\<lparr>rd_inode = 12, rd_type = 1, rd_name = [0x61], rd_slack = [0, 0, 0]\<rparr>]"])
     (simp add: dirent_ok_def rec_len_def live_dirents_encode)

text \<open>The search at every aligned offset finds every record of a directory block whose name
  is plausible: nothing the directory listed is missed.
\<close>

theorem dirents_find_records:
  assumes "\<forall>e \<in> set es. dirent_ok e" and "e \<in> set es" and "plausible pr sb e name"
  shows "(rd_inode e, rd_type e, name) \<in> set (dirents pr sb (encode_block es))"
proof -
  obtain es1 es2 where "es = es1 @ e # es2" using assms(2) by (auto simp: in_set_conv_decomp)
  then show ?thesis using dirents_complete [of es1 e es2] assms(1,3) by simp
qed

theorem dirents_find_records_witness:
  "(12, 1, [0x61]) \<in> set (dirents (\<lambda>_. False) example_super (encode_block [\<lparr>rd_inode = 12, rd_type = 1, rd_name = [0x61], rd_slack = [0, 0, 0]\<rparr>]))"
  using dirents_find_records [of "[\<lparr>rd_inode = 12, rd_type = 1, rd_name = [0x61], rd_slack = [0, 0, 0]\<rparr>]"
      "\<lparr>rd_inode = 12, rd_type = 1, rd_name = [0x61], rd_slack = [0, 0, 0]\<rparr>" "\<lambda>_. False" example_super "[0x61]"]
  by (simp add: dirent_ok_def rec_len_def plausible_def example_super_def py_isprintable_def)

text \<open>C26: The first and last transaction of a past name bound every transaction in which one of
  the directory's blocks listed it.
\<close>

theorem past_names_bounds:
  assumes "number \<in> set blocks" and "map_of (dir_copies ix) number = Some cs" and "(seq, owner, es) \<in> set cs"
    and "(name, inode, file_type, True) \<in> set es"
  shows "\<exists>r f l. map_of (past_names ix blocks) (name, inode) = Some r
    \<and> pn_first_seq (rn_item r) = Some f \<and> pn_last_seq (rn_item r) = Some l \<and> f \<le> seq \<and> seq \<le> l"
proof -
  have "((name, inode), seq) \<in> listings cs" using assms(3,4) by (auto simp: listings_def)
  then have "((name, inode), seq) \<in> (\<Union>number \<in> set blocks. listings (case map_of (dir_copies ix) number of None \<Rightarrow> [] | Some cs \<Rightarrow> cs))"
    using assms(1,2) by force
  moreover have "seen_within (fold (past_names_block ix) blocks []) ({} \<union> (\<Union>number \<in> set blocks.
      listings (case map_of (dir_copies ix) number of None \<Rightarrow> [] | Some cs \<Rightarrow> cs)))"
    by (rule past_names_blocks_seen) (simp add: seen_within_def)
  ultimately have "seen_at (fold (past_names_block ix) blocks []) (name, inode) seq" by (force simp: seen_within_def)
  then show ?thesis by (auto simp: seen_at_def past_names_def map_of_map_pairs split: prod.splits)
qed

text \<open>A two-block directory: block 10 lists one name at transaction 5, block 11 another at transaction 7.\<close>

definition two_block_index :: journal_index where
  "two_block_index = \<lparr>jbs = 128, copies = [], commit_times = [],
     dir_copies = [(10, [(5, None, [([0x61], 12, 1, True)])]), (11, [(7, None, [([0x62], 13, 1, True)])])]\<rparr>"

theorem past_names_bounds_witness:
  "\<exists>r f l. map_of (past_names two_block_index [10, 11]) ([0x61], 12) = Some r
    \<and> pn_first_seq (rn_item r) = Some f \<and> pn_last_seq (rn_item r) = Some l \<and> f \<le> 5 \<and> 5 \<le> l"
  by (rule past_names_bounds [of 10 _ _ "[(5, None, [([0x61], 12, 1, True)])]" _ None "[([0x61], 12, 1, True)]" _ _ 1])
     (simp_all add: two_block_index_def)

text \<open>
  The transaction a name is gone by is computed from every block read later, even one that
  never listed the name: the name in block 10 is reported gone by the copy of block 11.
\<close>

lemma past_names_gone_across_blocks:
  "map_option (pn_gone_seq \<circ> rn_item) (map_of (past_names two_block_index [10, 11]) ([0x61], 12)) = Some (Some 7)"
  "map_option (pn_gone_seq \<circ> rn_item) (map_of (past_names two_block_index [10]) ([0x61], 12)) = Some None"
  by (auto simp: past_names_def past_names_block_def two_block_index_def note_entry_def live_names_def mark_gone_def)

end
