(* ===== verification/Journald.thy ===== *)
theory Journald
  imports Byte_Source
begin

section \<open>The systemd journal reader\<close>

text \<open>
  \<^verbatim>\<open>ingest/linux/journal_binary.py\<close>: the sequential scan of a journal file's objects, the
  resolution of an entry's fields with its cache, and the caps. The decompressors are
  arguments: \<open>None\<close> is any exception they raise. Field names are lists of code points, with
  U+FFFD for a byte that is not ASCII.
\<close>

definition SIGNATURE :: bytes where "SIGNATURE = [0x4C, 0x50, 0x4B, 0x53, 0x48, 0x48, 0x52, 0x48]"
definition MIN_HEADER :: nat where "MIN_HEADER = 144"
definition TYPE_DATA :: nat where "TYPE_DATA = 1"
definition TYPE_ENTRY :: nat where "TYPE_ENTRY = 3"
definition ENTRY_FIXED :: nat where "ENTRY_FIXED = 64"
definition MAX_ENTRIES :: nat where "MAX_ENTRIES = 1000000"
definition MAX_FIELDS_PER_ENTRY :: nat where "MAX_FIELDS_PER_ENTRY = 512"
definition MAX_FIELD_BYTES :: nat where "MAX_FIELD_BYTES = 1048576"
definition DATA_CACHE_LIMIT :: nat where "DATA_CACHE_LIMIT = 200000"

type_synonym field_name = "nat list"
type_synonym field = "field_name \<times> bytes"

definition is_journal_file :: "bytes option \<Rightarrow> bool" where
  "is_journal_file content = (case content of None \<Rightarrow> False | Some bs \<Rightarrow> take (length SIGNATURE) bs = SIGNATURE)"

text \<open>What the decompression libraries compute: a bounded read, and LZ4's block decoder.\<close>

record decompressors =
  zstd_read :: "bytes \<Rightarrow> nat \<Rightarrow> bytes option"
  xz_read :: "bytes \<Rightarrow> nat \<Rightarrow> bytes option"
  lz4_decompress :: "bytes \<Rightarrow> nat \<Rightarrow> bytes option"

definition capped :: "bytes option \<Rightarrow> bytes option" where
  "capped r = (case r of None \<Rightarrow> None | Some data \<Rightarrow> if length data \<le> MAX_FIELD_BYTES then Some data else None)"

definition decompress :: "decompressors \<Rightarrow> bytes \<Rightarrow> nat \<Rightarrow> bytes option" where
  "decompress ext payload flags =
    (if has_flag flags 4 then capped (zstd_read ext payload (MAX_FIELD_BYTES + 1))
     else if has_flag flags 1 then capped (xz_read ext payload (MAX_FIELD_BYTES + 1))
     else if has_flag flags 2 then
       (if length payload < 8 then None
        else let declared = le_field payload 0 8 in
          if declared > MAX_FIELD_BYTES then None else lz4_decompress ext (drop 8 payload) declared)
     else None)"

subsection \<open>The file\<close>

record journal_file =
  buf :: bytes
  compact :: bool
  header_size :: nat
  tail_offset :: nat

record journal_state =
  field_cache :: "(nat \<times> field option) list"
  undecodable_fields :: nat

definition Journal :: "bytes \<Rightarrow> lvm_exc + journal_file \<times> journal_state" where
  "Journal buffer =
    (if length buffer < MIN_HEADER \<or> take 8 buffer \<noteq> SIGNATURE then Inl ValueError
     else Inr (\<lparr>buf = buffer, compact = has_flag (le_field buffer 12 4) 0x10,
                header_size = le_field buffer 88 8, tail_offset = le_field buffer 136 8\<rparr>,
               \<lparr>field_cache = [], undecodable_fields = 0\<rparr>))"

definition object_header :: "journal_file \<Rightarrow> nat \<Rightarrow> (nat \<times> nat \<times> nat) option" where
  "object_header j off =
    (if off + 16 > length (buf j) then None
     else let otype = le_field (buf j) off 1; flags = le_field (buf j) (off + 1) 1; osize = le_field (buf j) (off + 8) 8 in
       if osize < 16 \<or> off + osize > length (buf j) then None else Some (otype, flags, osize))"

text \<open>\<^verbatim>\<open>name.decode("ascii", "replace")\<close> and \<^verbatim>\<open>payload.partition(b"=")\<close>.\<close>

definition decode_ascii :: "bytes \<Rightarrow> field_name" where
  "decode_ascii bs = map (\<lambda>b. if unat b < 128 then unat b else 0xFFFD) bs"

definition split_field :: "bytes \<Rightarrow> field option" where
  "split_field payload =
    (let name = takeWhile (\<lambda>b. b \<noteq> 0x3D) payload; rest = dropWhile (\<lambda>b. b \<noteq> 0x3D) payload in
     if rest = [] \<or> name = [] then None else Some (decode_ascii name, tl rest))"

text \<open>The field at an offset and how many payloads could not be decoded on the way (none or one).\<close>

definition read_field :: "decompressors \<Rightarrow> journal_file \<Rightarrow> nat \<Rightarrow> field option \<times> nat" where
  "read_field ext j off =
    (case (if off mod 8 = 0 then object_header j off else None) of
       None \<Rightarrow> (None, 0)
     | Some (otype, flags, osize) \<Rightarrow>
         if otype \<noteq> TYPE_DATA then (None, 0)
         else let start = off + (if compact j then 72 else 64); end' = off + osize in
           if start \<le> end' then
             let payload = slice (buf j) start end' in
             if has_flag flags 7 then
               (case decompress ext payload flags of
                  None \<Rightarrow> (split_field [], 1)
                | Some decoded \<Rightarrow> (split_field decoded, 0))
             else (split_field payload, 0)
           else (None, 0))"

definition data_field :: "decompressors \<Rightarrow> journal_file \<Rightarrow> nat \<Rightarrow> journal_state \<Rightarrow> field option \<times> journal_state" where
  "data_field ext j off st =
    (case map_of (field_cache st) off of
       Some result \<Rightarrow> (result, st)
     | None \<Rightarrow> (let (result, undecodable) = read_field ext j off in
         (result, \<lparr>field_cache = (if length (field_cache st) < DATA_CACHE_LIMIT
                                   then dict_set off result (field_cache st) else field_cache st),
                   undecodable_fields = undecodable_fields st + undecodable\<rparr>)))"

subsection \<open>Entries\<close>

record journal_entry =
  seqnum :: nat
  realtime_us :: nat
  boot_id :: bytes
  entry_fields :: "(field_name \<times> bytes) list"

definition item_size :: "journal_file \<Rightarrow> nat" where
  "item_size j = (if compact j then 4 else 16)"

text \<open>The items \<open>i, i + 1, \<dots>\<close> of the entry at \<open>position\<close>: the first field of a name wins.\<close>

fun collect_fields :: "decompressors \<Rightarrow> journal_file \<Rightarrow> nat \<Rightarrow> nat list \<Rightarrow> (field_name \<times> bytes) list \<Rightarrow> journal_state
    \<Rightarrow> (lvm_exc + (field_name \<times> bytes) list) \<times> journal_state" where
  "collect_fields ext j position [] acc st = (Inr acc, st)"
| "collect_fields ext j position (i # is) acc st =
    (case unpack_le (if compact j then 4 else 8) (buf j) (position + ENTRY_FIXED + i * item_size j) of
       Inl e \<Rightarrow> (Inl e, st)
     | Inr target \<Rightarrow> (let (resolved, st') = data_field ext j target st in
         collect_fields ext j position is
           (case resolved of
              Some (name, v) \<Rightarrow> if map_of acc name = None then dict_set name v acc else acc
            | None \<Rightarrow> acc) st'))"

definition read_entry :: "decompressors \<Rightarrow> journal_file \<Rightarrow> nat \<Rightarrow> nat \<Rightarrow> journal_state \<Rightarrow> (lvm_exc + journal_entry) \<times> journal_state" where
  "read_entry ext j position osize st =
    (let count = (osize - ENTRY_FIXED) div item_size j;
         (collected, st') = collect_fields ext j position [0..<min count MAX_FIELDS_PER_ENTRY] [] st in
     (case collected of Inl e \<Rightarrow> Inl e
      | Inr fs \<Rightarrow> Inr \<lparr>seqnum = le_field (buf j) (position + 16) 8, realtime_us = le_field (buf j) (position + 24) 8,
          boot_id = slice (buf j) (position + 40) (position + 56), entry_fields = fs\<rparr>, st'))"

definition align8 :: "nat \<Rightarrow> nat" where
  "align8 n = (n + 7) div 8 * 8"

definition last_object :: "journal_file \<Rightarrow> nat" where
  "last_object j = (if tail_offset j \<noteq> 0 then min (tail_offset j) (length (buf j)) else length (buf j))"

definition first_object :: "journal_file \<Rightarrow> nat" where
  "first_object j = align8 (max (header_size j) MIN_HEADER)"

lemma align8_ge: "n \<le> align8 n"
  unfolding align8_def by presburger

lemma object_header_size: "object_header j off = Some (otype, flags, osize) \<Longrightarrow> 16 \<le> osize \<and> off + osize \<le> length (buf j)"
  by (auto simp: object_header_def Let_def split: if_splits)

lemma scan_progress:
  "object_header j p = Some (otype, flags, osize) \<Longrightarrow> length (buf j) - (p + align8 osize) < length (buf j) - p"
  using align8_ge [of osize] by (auto dest!: object_header_size)

text \<open>
  The generator together with the loop that consumes it: \<open>limit\<close> is how many more entries may
  be kept. The result is the entries, whether reading was cut short, and the state.
\<close>

function scan_entries :: "decompressors \<Rightarrow> journal_file \<Rightarrow> nat \<Rightarrow> nat \<Rightarrow> journal_state
    \<Rightarrow> journal_entry list \<times> bool \<times> journal_state" where
  "scan_entries ext j limit position st =
    (if position \<le> last_object j \<and> position + 16 \<le> length (buf j) then
       (case object_header j position of
          None \<Rightarrow> ([], False, st)
        | Some (otype, flags, osize) \<Rightarrow>
            if otype = 0 then ([], False, st)
            else if otype = TYPE_ENTRY \<and> osize \<ge> ENTRY_FIXED then
              (case read_entry ext j position osize st of
                 (Inl e, st') \<Rightarrow> ([], True, st')
               | (Inr entry, st') \<Rightarrow>
                   if limit = 0 then ([], True, st')
                   else (let (es, truncated, st'') = scan_entries ext j (limit - 1) (position + align8 osize) st'
                         in (entry # es, truncated, st'')))
            else scan_entries ext j limit (position + align8 osize) st)
     else ([], False, st))"
  by pat_completeness auto
termination
  by (relation "measure (\<lambda>(ext, j, limit, position, st). length (buf j) - position)") (auto dest: scan_progress)

declare scan_entries.simps [simp del]

definition read_journal_entries :: "decompressors \<Rightarrow> bytes \<Rightarrow> lvm_exc + journal_entry list \<times> bool \<times> nat" where
  "read_journal_entries ext content =
    (if content = [] then Inr ([], False, 0)
     else res_bind (Journal content) (\<lambda>(j, st).
       let (es, truncated, st') = scan_entries ext j MAX_ENTRIES (first_object j) st in
       Inr (es, truncated, undecodable_fields st')))"

end
