(* ===== verification/Journald_Properties.thy ===== *)
theory Journald_Properties
  imports Journald
begin

section \<open>What the journal reader guarantees\<close>

text \<open>
  The reader against a reference without cache, caps or exceptions: the list of entry
  objects on the chain and the fields each one names.
\<close>

subsection \<open>The reference\<close>

definition item_target :: "journal_file \<Rightarrow> nat \<Rightarrow> nat \<Rightarrow> nat" where
  "item_target j position i = le_field (buf j) (position + ENTRY_FIXED + i * item_size j) (if compact j then 4 else 8)"

definition add_field :: "(field_name \<times> bytes) list \<Rightarrow> field option \<Rightarrow> (field_name \<times> bytes) list" where
  "add_field acc r = (case r of Some (name, v) \<Rightarrow> if map_of acc name = None then dict_set name v acc else acc | None \<Rightarrow> acc)"

definition ref_fields :: "decompressors \<Rightarrow> journal_file \<Rightarrow> nat \<Rightarrow> nat list \<Rightarrow> (field_name \<times> bytes) list \<Rightarrow> (field_name \<times> bytes) list" where
  "ref_fields ext j position is acc = fold (\<lambda>i acc. add_field acc (fst (read_field ext j (item_target j position i)))) is acc"

definition ref_entry :: "decompressors \<Rightarrow> journal_file \<Rightarrow> nat \<times> nat \<Rightarrow> journal_entry" where
  "ref_entry ext j = (\<lambda>(position, osize). \<lparr>seqnum = le_field (buf j) (position + 16) 8, realtime_us = le_field (buf j) (position + 24) 8,
     boot_id = slice (buf j) (position + 40) (position + 56),
     entry_fields = ref_fields ext j position [0..<min ((osize - ENTRY_FIXED) div item_size j) MAX_FIELDS_PER_ENTRY] []\<rparr>)"

function entry_objects :: "journal_file \<Rightarrow> nat \<Rightarrow> (nat \<times> nat) list" where
  "entry_objects j position =
    (if position \<le> last_object j \<and> position + 16 \<le> length (buf j) then
       (case object_header j position of
          None \<Rightarrow> []
        | Some (otype, flags, osize) \<Rightarrow>
            if otype = 0 then []
            else (if otype = TYPE_ENTRY \<and> osize \<ge> ENTRY_FIXED then [(position, osize)] else [])
              @ entry_objects j (position + align8 osize))
     else [])"
  by pat_completeness auto
termination
  by (relation "measure (\<lambda>(j, position). length (buf j) - position)") (auto dest: scan_progress)

declare entry_objects.simps [simp del]

subsection \<open>The cache is transparent\<close>

definition cache_valid :: "decompressors \<Rightarrow> journal_file \<Rightarrow> journal_state \<Rightarrow> bool" where
  "cache_valid ext j st \<longleftrightarrow> (\<forall>off r. map_of (field_cache st) off = Some r \<longrightarrow> r = fst (read_field ext j off))
     \<and> length (field_cache st) \<le> DATA_CACHE_LIMIT"

lemma length_dict_set_le: "length (dict_set k v d) \<le> Suc (length d)"
  by (induction d) auto

lemma data_field_valid:
  assumes "cache_valid ext j st"
  shows "\<exists>st'. data_field ext j off st = (fst (read_field ext j off), st') \<and> cache_valid ext j st'"
proof (cases "map_of (field_cache st) off")
  case None
  have "length (dict_set off r (field_cache st)) \<le> DATA_CACHE_LIMIT" if "length (field_cache st) < DATA_CACHE_LIMIT" for r
    using length_dict_set_le [of off r "field_cache st"] that by simp
  with None assms show ?thesis
    by (auto simp: data_field_def cache_valid_def dict_set_get split: prod.splits)
next
  case (Some r)
  with assms show ?thesis by (auto simp: data_field_def cache_valid_def)
qed

lemma collect_fields_ref:
  assumes "cache_valid ext j st"
    and "\<forall>i \<in> set is. position + ENTRY_FIXED + i * item_size j + (if compact j then 4 else 8) \<le> length (buf j)"
  shows "\<exists>st'. collect_fields ext j position is acc st = (Inr (ref_fields ext j position is acc), st') \<and> cache_valid ext j st'"
  using assms
proof (induction "is" arbitrary: acc st)
  case (Cons i "is")
  obtain st1 where d: "data_field ext j (item_target j position i) st = (fst (read_field ext j (item_target j position i)), st1)"
    "cache_valid ext j st1" using data_field_valid [OF Cons.prems(1)] by blast
  have "unpack_le (if compact j then 4 else 8) (buf j) (position + ENTRY_FIXED + i * item_size j) = Inr (item_target j position i)"
    using Cons.prems(2) by (simp add: unpack_le_def item_target_def le_field_def)
  then have "collect_fields ext j position (i # is) acc st
      = collect_fields ext j position is (add_field acc (fst (read_field ext j (item_target j position i)))) st1"
    by (simp add: d(1) add_field_def)
  then show ?case using Cons.IH [OF d(2)] Cons.prems(2) by (simp add: ref_fields_def)
qed (simp add: ref_fields_def)

lemma item_in_object:
  assumes "i < (osize - ENTRY_FIXED) div item_size j" "position + osize \<le> n"
  shows "position + ENTRY_FIXED + i * item_size j + (if compact j then 4 else 8) \<le> n"
proof -
  have "(i + 1) * item_size j \<le> (osize - ENTRY_FIXED) div item_size j * item_size j" using assms(1) by (intro mult_le_mono1) simp
  also have "\<dots> \<le> osize - ENTRY_FIXED" by simp
  finally have "i * item_size j + item_size j \<le> osize - ENTRY_FIXED" by simp
  moreover have "(if compact j then 4 else 8) \<le> item_size j" "0 < item_size j" by (simp_all add: item_size_def)
  ultimately show ?thesis using assms(2) by linarith
qed

lemma read_entry_ref:
  assumes "cache_valid ext j st" "position + osize \<le> length (buf j)"
  shows "\<exists>st'. read_entry ext j position osize st = (Inr (ref_entry ext j (position, osize)), st') \<and> cache_valid ext j st'"
proof -
  let ?is = "[0..<min ((osize - ENTRY_FIXED) div item_size j) MAX_FIELDS_PER_ENTRY]"
  have "\<forall>i \<in> set ?is. position + ENTRY_FIXED + i * item_size j + (if compact j then 4 else 8) \<le> length (buf j)"
    using item_in_object [OF _ assms(2)] by simp
  from collect_fields_ref [OF assms(1) this, of "[]"] show ?thesis by (auto simp: read_entry_def ref_entry_def Let_def)
qed

lemma scan_entries_ref:
  assumes "cache_valid ext j st"
  shows "\<exists>st'. scan_entries ext j limit position st = (take limit (map (ref_entry ext j) (entry_objects j position)),
      limit < length (entry_objects j position), st') \<and> cache_valid ext j st'"
  using assms
proof (induction "length (buf j) - position" arbitrary: limit position st rule: less_induct)
  case less
  show ?case
  proof (cases "position \<le> last_object j \<and> position + 16 \<le> length (buf j) \<and> object_header j position \<noteq> None")
    case False
    then have e: "entry_objects j position = []" by (subst entry_objects.simps) (auto split: option.splits)
    from False less.prems show ?thesis by (subst scan_entries.simps) (auto simp: e split: option.splits)
  next
    case True
    then obtain otype flags osize where h: "object_header j position = Some (otype, flags, osize)" by (metis not_None_eq surj_pair)
    note more = less.hyps [OF scan_progress [OF h]]
    consider "otype = 0" | "otype \<noteq> 0" "otype = TYPE_ENTRY \<and> ENTRY_FIXED \<le> osize" | "otype \<noteq> 0" "\<not> (otype = TYPE_ENTRY \<and> ENTRY_FIXED \<le> osize)"
      by blast
    then show ?thesis
    proof cases
      case 1
      with True h have e: "entry_objects j position = []" by (subst entry_objects.simps) simp
      with True h 1 less.prems show ?thesis by (subst scan_entries.simps) (simp add: e)
    next
      case 2
      have "position + osize \<le> length (buf j)" using object_header_size [OF h] by simp
      then obtain st1 where r: "read_entry ext j position osize st = (Inr (ref_entry ext j (position, osize)), st1)" "cache_valid ext j st1"
        using read_entry_ref [OF less.prems] by blast
      have e: "entry_objects j position = (position, osize) # entry_objects j (position + align8 osize)"
        using True h 2 by (subst entry_objects.simps) simp
      obtain st2 where "scan_entries ext j (limit - 1) (position + align8 osize) st1
          = (take (limit - 1) (map (ref_entry ext j) (entry_objects j (position + align8 osize))),
             limit - 1 < length (entry_objects j (position + align8 osize)), st2)" "cache_valid ext j st2"
        using more [OF r(2)] by blast
      then show ?thesis using True h 2 r
        by (subst scan_entries.simps) (cases limit; auto simp: e)
    next
      case 3
      have e: "entry_objects j position = entry_objects j (position + align8 osize)"
        using True h 3 by (subst entry_objects.simps) simp
      have "scan_entries ext j limit position st = scan_entries ext j limit (position + align8 osize) st"
        using True h 3 by (subst scan_entries.simps) auto
      then show ?thesis using more [OF less.prems] by (simp add: e)
    qed
  qed
qed

lemma Journal_cache: "Journal content = Inr (j, st) \<Longrightarrow> cache_valid ext j st \<and> buf j = content"
  by (auto simp: Journal_def cache_valid_def split: if_splits)

lemma read_journal_ref:
  assumes "Journal content = Inr (j, st)"
  shows "\<exists>u. read_journal_entries ext content = Inr (take MAX_ENTRIES (map (ref_entry ext j) (entry_objects j (first_object j))),
    MAX_ENTRIES < length (entry_objects j (first_object j)), u)"
proof -
  have ne: "content \<noteq> []" using assms by (auto simp: Journal_def MIN_HEADER_def)
  have "cache_valid ext j st" using Journal_cache [OF assms] by simp
  then obtain st' where "scan_entries ext j MAX_ENTRIES (first_object j) st
      = (take MAX_ENTRIES (map (ref_entry ext j) (entry_objects j (first_object j))),
         MAX_ENTRIES < length (entry_objects j (first_object j)), st')"
    using scan_entries_ref by blast
  then show ?thesis using assms ne by (simp add: read_journal_entries_def)
qed

subsection \<open>Fields\<close>

lemma add_field_distinct: "distinct (map fst acc) \<Longrightarrow> distinct (map fst (add_field acc r))"
  by (auto simp: add_field_def dict_set_distinct split: option.splits)

lemma ref_fields_distinct: "distinct (map fst acc) \<Longrightarrow> distinct (map fst (ref_fields ext j position is acc))"
  unfolding ref_fields_def by (induction "is" arbitrary: acc) (auto intro: add_field_distinct)

lemma add_field_length: "length (add_field acc r) \<le> Suc (length acc)"
  by (auto simp: add_field_def length_dict_set_le split: option.splits)

lemma ref_fields_length: "length (ref_fields ext j position is acc) \<le> length is + length acc"
  unfolding ref_fields_def
proof (induction "is" arbitrary: acc)
  case (Cons i "is")
  from Cons [of "add_field acc (fst (read_field ext j (item_target j position i)))"]
    add_field_length [of acc "fst (read_field ext j (item_target j position i))"] show ?case by simp
qed simp

definition decoders_bounded :: "decompressors \<Rightarrow> bool" where
  "decoders_bounded ext \<longleftrightarrow> (\<forall>payload n data. lz4_decompress ext payload n = Some data \<longrightarrow> length data \<le> n)"

lemma decompress_bounded: "decoders_bounded ext \<Longrightarrow> decompress ext payload flags = Some data \<Longrightarrow> length data \<le> MAX_FIELD_BYTES"
  by (fastforce simp: decompress_def capped_def decoders_bounded_def Let_def split: if_splits option.splits dest: le_trans)

lemma split_field_length: "split_field payload = Some (name, v) \<Longrightarrow> length v \<le> length payload"
proof -
  assume "split_field payload = Some (name, v)"
  then have "v = tl (dropWhile (\<lambda>b. b \<noteq> 0x3D) payload)" by (auto simp: split_field_def Let_def split: if_splits)
  moreover have "length (dropWhile (\<lambda>b. b \<noteq> 0x3D) payload) \<le> length payload" by (rule length_dropWhile_le)
  ultimately show ?thesis by simp
qed

lemma read_field_length:
  assumes "decoders_bounded ext" "fst (read_field ext j off) = Some (name, v)"
  shows "length v \<le> max (length (buf j)) MAX_FIELD_BYTES"
proof -
  define bd where "bd = max (length (buf j)) MAX_FIELD_BYTES"
  have p: "length v \<le> bd" if "split_field (slice (buf j) a b) = Some (name, v)" for a b
    using split_field_length [OF that] by (auto simp: bd_def length_slice)
  have d: "length v \<le> bd" if "decompress ext payload flags = Some data" "split_field data = Some (name, v)" for payload flags data
    using decompress_bounded [OF assms(1) that(1)] split_field_length [OF that(2)] by (simp add: bd_def)
  have "split_field [] = None" by (simp add: split_field_def)
  then have "length v \<le> bd"
    using assms(2) by (auto simp: read_field_def Let_def split: if_splits option.splits intro: p d)
  then show ?thesis by (simp add: bd_def)
qed

lemma ref_fields_values:
  assumes "decoders_bounded ext" "(name, v) \<in> set (ref_fields ext j position is acc)"
    "\<forall>(name, v) \<in> set acc. length v \<le> max (length (buf j)) MAX_FIELD_BYTES"
  shows "length v \<le> max (length (buf j)) MAX_FIELD_BYTES"
  using assms(2,3)
proof (induction "is" arbitrary: acc)
  case Nil
  then show ?case by (auto simp: ref_fields_def)
next
  case (Cons i "is")
  have m: "(n', v') \<in> set (dict_set n x d) \<Longrightarrow> n' = n \<and> v' = x \<or> (n', v') \<in> set d" for n' v' n x d
    by (induction d) (auto split: if_splits)
  have "\<forall>(name, v) \<in> set (add_field acc (fst (read_field ext j (item_target j position i)))).
      length v \<le> max (length (buf j)) MAX_FIELD_BYTES"
    using Cons.prems(2) read_field_length [OF assms(1)]
    by (auto simp: add_field_def split: option.splits if_splits dest!: m)
  with Cons show ?case by (simp add: ref_fields_def)
qed

subsection \<open>Properties\<close>

text \<open>A journal file of a header and one entry object without items.\<close>

definition example_file :: bytes where
  "example_file = SIGNATURE @ replicate 136 0 @ [3, 0, 0, 0, 0, 0, 0, 0, 64, 0, 0, 0, 0, 0, 0, 0, 9, 0, 0, 0, 0, 0, 0, 0] @ replicate 40 0"

definition example_file_journal :: journal_file where
  "example_file_journal = \<lparr>buf = example_file, compact = False, header_size = 0, tail_offset = 0\<rparr>"

lemma example_file_opens: "Journal example_file = Inr (example_file_journal, \<lparr>field_cache = [], undecodable_fields = 0\<rparr>)"
  by (simp add: Journal_def example_file_def example_file_journal_def SIGNATURE_def MIN_HEADER_def le_field_def slice_def)

definition no_decoders :: decompressors where
  "no_decoders = \<lparr>zstd_read = (\<lambda>_ _. None), xz_read = (\<lambda>_ _. None), lz4_decompress = (\<lambda>_ _. None)\<rparr>"

lemma example_file_objects: "entry_objects example_file_journal (first_object example_file_journal) = [(144, 64)]"
proof -
  have f: "first_object example_file_journal = 144" "last_object example_file_journal = 208" "length (buf example_file_journal) = 208"
    by (simp_all add: first_object_def last_object_def align8_def MIN_HEADER_def example_file_journal_def example_file_def SIGNATURE_def)
  have "object_header example_file_journal 144 = Some (3, 0, 64)"
    by (simp add: object_header_def example_file_journal_def example_file_def SIGNATURE_def le_field_def slice_def)
  then show ?thesis using f
    by (subst entry_objects.simps, subst entry_objects.simps) (simp add: TYPE_ENTRY_def ENTRY_FIXED_def align8_def)
qed



text \<open>Every entry the reader returns has at most 512 fields, with distinct names, and no value
  is longer than the file or the decompression cap, when LZ4 keeps to the size it is given.
\<close>

theorem journal_entries_bounded:
  assumes "read_journal_entries ext content = Inr (es, truncated, u)" and "e \<in> set es" and "decoders_bounded ext"
  shows "length es \<le> MAX_ENTRIES \<and> length (entry_fields e) \<le> MAX_FIELDS_PER_ENTRY \<and> distinct (map fst (entry_fields e))
    \<and> (\<forall>(name, v) \<in> set (entry_fields e). length v \<le> max (length content) MAX_FIELD_BYTES)"
proof -
  have "content \<noteq> []" using assms(1,2) by (auto simp: read_journal_entries_def)
  then obtain j st where j: "Journal content = Inr (j, st)"
    using assms(1) by (cases "Journal content") (auto simp: read_journal_entries_def)
  obtain u' where "read_journal_entries ext content = Inr (take MAX_ENTRIES (map (ref_entry ext j) (entry_objects j (first_object j))),
      MAX_ENTRIES < length (entry_objects j (first_object j)), u')" using read_journal_ref [OF j] by blast
  with assms(1) have es: "es = take MAX_ENTRIES (map (ref_entry ext j) (entry_objects j (first_object j)))" by simp
  then obtain p n where e: "e = ref_entry ext j (p, n)" using assms(2) by (auto dest!: in_set_takeD)
  let ?is = "[0..<min ((n - ENTRY_FIXED) div item_size j) MAX_FIELDS_PER_ENTRY]"
  have f: "entry_fields e = ref_fields ext j p ?is []" by (simp add: e ref_entry_def)
  have "length (entry_fields e) \<le> MAX_FIELDS_PER_ENTRY" using ref_fields_length [of ext j p ?is "[]"] by (simp add: f)
  moreover have "length v \<le> max (length content) MAX_FIELD_BYTES" if "(name, v) \<in> set (entry_fields e)" for name v
    using ref_fields_values [OF assms(3), of name v j p ?is "[]"] that Journal_cache [OF j] by (simp add: f)
  ultimately show ?thesis using ref_fields_distinct [of "[]" ext j p ?is] by (auto simp: f es)
qed

theorem journal_entries_bounded_witness:
  "length (entry_fields (ref_entry no_decoders example_file_journal (144, 64))) \<le> MAX_FIELDS_PER_ENTRY"
proof -
  obtain u where "read_journal_entries no_decoders example_file
      = Inr ([ref_entry no_decoders example_file_journal (144, 64)], False, u)"
    using read_journal_ref [OF example_file_opens, of no_decoders] by (auto simp: example_file_objects MAX_ENTRIES_def)
  from journal_entries_bounded [OF this] show ?thesis by (simp add: decoders_bounded_def no_decoders_def)
qed

text \<open>
  A file that ends in the middle of an object is read without a marker: here the entry
  claims 64 bytes and the file holds 40 of them.
\<close>

lemma cut_file_not_marked:
  "entry_objects \<lparr>buf = take 184 example_file, compact = False, header_size = 0, tail_offset = 0\<rparr> 144 = []"
  by (subst entry_objects.simps) (simp add: object_header_def example_file_def SIGNATURE_def le_field_def slice_def)

end
