(* ===== verification/Upload_Capacity.thy ===== *)
theory Upload_Capacity
  imports Prelude
begin

section \<open>Capacity of memory image uploads\<close>

text \<open>
  \<^verbatim>\<open>services/memory/upload_capacity.py\<close>: the decision whether an upload fits on the file
  systems involved, the search for the largest upload that does, and the Redis slot that
  serialises uploads. The file systems and the setting for plugin output are arguments.
\<close>

datatype capacity_error = CapacityValueError string | MemoryCapacityError string

definition GIB :: int where "GIB = 1024 * 1024 * 1024"
definition SAFETY_MARGIN_BYTES :: int where "SAFETY_MARGIN_BYTES = 2 * GIB"
definition MIN_OUTPUT_ALLOWANCE_BYTES :: int where "MIN_OUTPUT_ALLOWANCE_BYTES = 256 * 1024 * 1024"
definition MAX_SELECTED_SIZE_BYTES :: int where "MAX_SELECTED_SIZE_BYTES = 64 * GIB"

record FilesystemSnapshot =
  device :: int
  available_bytes :: int

text \<open>The three storage roots as one call sees them, and \<^verbatim>\<open>memory_plugin_output_max_bytes\<close>.\<close>

record storage =
  staging_root :: FilesystemSnapshot
  final_root :: FilesystemSnapshot
  output_root :: FilesystemSnapshot
  plugin_output_max :: int

record CapacityDecision =
  accepted :: bool
  phase :: string
  selected_size_bytes :: int
  bytes_already_staged :: int
  staging_available_bytes :: int
  final_available_bytes :: int
  output_available_bytes :: int
  staging_and_final_same_filesystem :: bool
  finalization_strategy :: string
  required_additional_bytes :: int
  output_allowance_bytes :: int
  safety_margin_bytes :: int
  shortfall_bytes :: int
  requirements_by_device :: "(int \<times> int) list"

definition output_allowance :: "storage \<Rightarrow> int" where
  "output_allowance st = max (plugin_output_max st * 5) MIN_OUTPUT_ALLOWANCE_BYTES"

definition snapshots :: "storage \<Rightarrow> FilesystemSnapshot list" where
  "snapshots st = [staging_root st, final_root st, output_root st]"

definition available :: "storage \<Rightarrow> (int \<times> int) list" where
  "available st = fold (\<lambda>s d. dict_set (device s)
     (min (case map_of d (device s) of None \<Rightarrow> available_bytes s | Some a \<Rightarrow> a) (available_bytes s)) d) (snapshots st) []"

text \<open>\<^verbatim>\<open>require(role, amount)\<close> on the requirements so far.\<close>

definition require :: "int \<Rightarrow> int \<Rightarrow> (int \<times> int) list \<Rightarrow> (int \<times> int) list" where
  "require dev amount d = dict_set dev ((case map_of d dev of None \<Rightarrow> 0 | Some r \<Rightarrow> r) + max 0 amount) d"

text \<open>The devices involved; the source goes through a set of them, whose order does not show.\<close>

definition initial_requirements :: "storage \<Rightarrow> (int \<times> int) list" where
  "initial_requirements st = map (\<lambda>d. (d, SAFETY_MARGIN_BYTES)) (remdups (map device (snapshots st)))"

definition same_filesystem :: "storage \<Rightarrow> bool" where
  "same_filesystem st \<longleftrightarrow> device (staging_root st) = device (final_root st)"

definition phase_requirements :: "storage \<Rightarrow> string \<Rightarrow> int \<Rightarrow> int \<Rightarrow> (int \<times> int) list \<Rightarrow> capacity_error + (int \<times> int) list" where
  "phase_requirements st ph selected staged d =
    (let final = (if same_filesystem st then id else require (device (final_root st)) selected) in
     if ph = ''pre_upload'' then Inr (final (require (device (staging_root st)) selected d))
     else if ph = ''streaming'' then Inr (final (require (device (staging_root st)) (selected - staged) d))
     else if ph = ''finalization'' then Inr (final d)
     else Inl (CapacityValueError ''Unsupported memory capacity phase''))"

definition requirements :: "storage \<Rightarrow> string \<Rightarrow> int \<Rightarrow> int \<Rightarrow> capacity_error + (int \<times> int) list" where
  "requirements st ph selected staged =
     res_bind (phase_requirements st ph selected staged (initial_requirements st)) (\<lambda>d.
     Inr (require (device (output_root st)) (output_allowance st) d))"

definition dict_value :: "(int \<times> int) list \<Rightarrow> int \<Rightarrow> int" where
  "dict_value d k = (case map_of d k of None \<Rightarrow> 0 | Some v \<Rightarrow> v)"

text \<open>\<^verbatim>\<open>max(..., default=0)\<close>.\<close>

definition max_default :: "int list \<Rightarrow> int" where
  "max_default xs = (if xs = [] then 0 else foldr max (tl xs) (hd xs))"

definition shortfall :: "storage \<Rightarrow> (int \<times> int) list \<Rightarrow> int" where
  "shortfall st reqs = max_default (map (\<lambda>(dev, r). r - dict_value (available st) dev) reqs)"

definition evaluate_memory_upload_capacity :: "storage \<Rightarrow> int \<Rightarrow> string \<Rightarrow> int \<Rightarrow> capacity_error + CapacityDecision" where
  "evaluate_memory_upload_capacity st selected ph staged =
    (if selected \<le> 0 then Inl (CapacityValueError ''selected_size_bytes must be greater than zero'')
     else if selected > MAX_SELECTED_SIZE_BYTES then Inl (CapacityValueError ''selected_size_bytes is too large'')
     else if staged < 0 \<or> staged > selected then Inl (CapacityValueError ''bytes_already_staged is outside the selected file size'')
     else res_bind (requirements st ph selected staged) (\<lambda>reqs.
       Inr \<lparr>accepted = shortfall st reqs \<le> 0, phase = ph, selected_size_bytes = selected, bytes_already_staged = staged,
         staging_available_bytes = available_bytes (staging_root st), final_available_bytes = available_bytes (final_root st),
         output_available_bytes = available_bytes (output_root st),
         staging_and_final_same_filesystem = same_filesystem st,
         finalization_strategy = (if same_filesystem st then ''atomic_rename'' else ''staged_copy''),
         required_additional_bytes = max_default (map snd reqs), output_allowance_bytes = output_allowance st,
         safety_margin_bytes = SAFETY_MARGIN_BYTES, shortfall_bytes = max 0 (shortfall st reqs),
         requirements_by_device = reqs\<rparr>))"

definition assert_memory_upload_capacity :: "storage \<Rightarrow> int \<Rightarrow> string \<Rightarrow> int \<Rightarrow> capacity_error + CapacityDecision" where
  "assert_memory_upload_capacity st selected ph staged =
     res_bind (evaluate_memory_upload_capacity st selected ph staged) (\<lambda>decision.
     if \<not> accepted decision then Inl (MemoryCapacityError ''insufficient_storage'') else Inr decision)"

text \<open>
  The bisection; \<open>env k\<close> is what the \<open>k\<close>-th evaluation sees of the file systems.
\<close>

function recommend_loop :: "(nat \<Rightarrow> storage) \<Rightarrow> nat \<Rightarrow> int \<Rightarrow> int \<Rightarrow> capacity_error + int" where
  "recommend_loop env k low high =
    (if low < high then
       let candidate = (low + high + 1) div 2 in
       res_bind (evaluate_memory_upload_capacity (env k) candidate ''pre_upload'' 0) (\<lambda>decision.
       if accepted decision then recommend_loop env (k + 1) candidate high
       else recommend_loop env (k + 1) low (candidate - 1))
     else Inr low)"
  by pat_completeness auto
termination
  by (relation "measure (\<lambda>(env, k, low, high). nat (high - low))") auto

declare recommend_loop.simps [simp del]

definition recommended_memory_upload_bytes :: "(nat \<Rightarrow> storage) \<Rightarrow> int \<Rightarrow> capacity_error + int" where
  "recommended_memory_upload_bytes env max_upload_bytes = recommend_loop env 0 0 (max 0 max_upload_bytes)"

subsection \<open>What each device must hold\<close>

text \<open>The requirement on a device, role by role.\<close>

definition device_need :: "storage \<Rightarrow> string \<Rightarrow> int \<Rightarrow> int \<Rightarrow> int \<Rightarrow> int" where
  "device_need st ph selected staged dev = SAFETY_MARGIN_BYTES
     + (if dev = device (staging_root st) then (if ph = ''pre_upload'' then selected else if ph = ''streaming'' then selected - staged else 0) else 0)
     + (if dev = device (final_root st) \<and> \<not> same_filesystem st then selected else 0)
     + (if dev = device (output_root st) then output_allowance st else 0)"

definition device_free :: "storage \<Rightarrow> int \<Rightarrow> int" where
  "device_free st dev = Min (set (map available_bytes (filter (\<lambda>s. device s = dev) (snapshots st))))"

definition known_phase :: "string \<Rightarrow> bool" where
  "known_phase ph \<longleftrightarrow> ph \<in> {''pre_upload'', ''streaming'', ''finalization''}"

abbreviation devices :: "storage \<Rightarrow> int set" where
  "devices st \<equiv> device ` set (snapshots st)"

lemma require_map: "map_of (require dev amount d) = (map_of d)(dev \<mapsto> (case map_of d dev of None \<Rightarrow> 0 | Some r \<Rightarrow> r) + max 0 amount)"
  by (simp add: require_def dict_set_get)

lemma initial_requirements_map: "map_of (initial_requirements st) dev = (if dev \<in> devices st then Some SAFETY_MARGIN_BYTES else None)"
proof -
  have "map_of (map (\<lambda>d. (d, v)) xs) dev = (if dev \<in> set xs then Some v else None)" for v :: int and xs
    by (induction xs) auto
  then show ?thesis by (simp add: initial_requirements_def)
qed

lemma available_map: "dev \<in> devices st \<Longrightarrow> map_of (available st) dev = Some (device_free st dev)"
  by (cases "device (staging_root st) = dev"; cases "device (final_root st) = dev"; cases "device (output_root st) = dev")
     (auto simp: available_def snapshots_def device_free_def dict_set_get ac_simps)

lemma requirements_known:
  assumes "known_phase ph" "0 < selected" "0 \<le> staged" "staged \<le> selected"
  obtains reqs where "requirements st ph selected staged = Inr reqs" "distinct (map fst reqs)"
    "\<And>dev. map_of reqs dev = (if dev \<in> devices st then Some (device_need st ph selected staged dev) else None)"
proof -
  obtain d where d: "phase_requirements st ph selected staged (initial_requirements st) = Inr d"
    using assms(1) by (auto simp: known_phase_def phase_requirements_def Let_def)
  have dist: "distinct (map fst (require x y z))" if "distinct (map fst z)" for x y z
    using that by (simp add: require_def dict_set_distinct)
  have i: "distinct (map fst (initial_requirements st))" by (simp add: initial_requirements_def comp_def)
  have dd: "distinct (map fst d)"
    using d i by (auto simp: phase_requirements_def Let_def dist split: if_splits)
  have al: "0 \<le> output_allowance st" by (simp add: output_allowance_def MIN_OUTPUT_ALLOWANCE_BYTES_def)
  have "map_of (require (device (output_root st)) (output_allowance st) d) dev
      = (if dev \<in> devices st then Some (device_need st ph selected staged dev) else None)" for dev
    using d assms al
    by (auto simp: phase_requirements_def Let_def require_map initial_requirements_map device_need_def known_phase_def
        same_filesystem_def snapshots_def split: if_splits)
  moreover have "requirements st ph selected staged = Inr (require (device (output_root st)) (output_allowance st) d)"
    by (simp add: requirements_def d)
  ultimately show ?thesis using that dist [OF dd] by blast
qed

lemma max_default_le: "xs \<noteq> [] \<Longrightarrow> max_default xs \<le> b \<longleftrightarrow> (\<forall>x \<in> set xs. x \<le> b)"
proof -
  have "foldr max ys y \<le> b \<longleftrightarrow> y \<le> b \<and> (\<forall>x \<in> set ys. x \<le> b)" for y :: int and ys by (induction ys) auto
  then show "xs \<noteq> [] \<Longrightarrow> ?thesis" by (cases xs) (auto simp: max_default_def)
qed

text \<open>The decision, device by device.\<close>

lemma shortfall_le:
  assumes "distinct (map fst reqs)" "\<And>dev. map_of reqs dev = (if dev \<in> devices st then Some (need dev) else None)"
  shows "shortfall st reqs \<le> b \<longleftrightarrow> (\<forall>dev \<in> devices st. need dev \<le> device_free st dev + b)"
proof -
  have mem: "(dev, r) \<in> set reqs \<longleftrightarrow> dev \<in> devices st \<and> r = need dev" for dev r
    unfolding map_of_eq_Some_iff [OF assms(1), symmetric] assms(2) by auto
  then have "(device (staging_root st), need (device (staging_root st))) \<in> set reqs" by (simp add: snapshots_def)
  then have "reqs \<noteq> []" by auto
  then have "shortfall st reqs \<le> b \<longleftrightarrow> (\<forall>(dev, r) \<in> set reqs. r - dict_value (available st) dev \<le> b)"
    by (simp add: shortfall_def max_default_le) (auto split: prod.splits)
  also have "\<dots> \<longleftrightarrow> (\<forall>dev \<in> devices st. need dev - dict_value (available st) dev \<le> b)" using mem by force
  also have "\<dots> \<longleftrightarrow> (\<forall>dev \<in> devices st. need dev \<le> device_free st dev + b)"
    by (intro ball_cong refl) (auto simp: dict_value_def available_map)
  finally show ?thesis .
qed

lemma evaluate_accepts:
  assumes "known_phase ph" "0 < selected" "selected \<le> MAX_SELECTED_SIZE_BYTES" "0 \<le> staged" "staged \<le> selected"
  shows "\<exists>d. evaluate_memory_upload_capacity st selected ph staged = Inr d
    \<and> (accepted d \<longleftrightarrow> (\<forall>dev \<in> devices st. device_need st ph selected staged dev \<le> device_free st dev))
    \<and> (\<forall>b \<ge> 0. shortfall_bytes d \<le> b \<longleftrightarrow> (\<forall>dev \<in> devices st. device_need st ph selected staged dev \<le> device_free st dev + b))"
proof -
  obtain reqs where r: "requirements st ph selected staged = Inr reqs" "distinct (map fst reqs)"
    "\<And>dev. map_of reqs dev = (if dev \<in> devices st then Some (device_need st ph selected staged dev) else None)"
    using requirements_known [OF assms(1,2,4,5)] by blast
  show ?thesis
    using assms r(1) shortfall_le [OF r(2,3)] shortfall_le [OF r(2,3), of 0]
    by (auto simp: evaluate_memory_upload_capacity_def)
qed

subsection \<open>The search and the promise\<close>

definition fits :: "storage \<Rightarrow> int \<Rightarrow> bool" where
  "fits st n \<longleftrightarrow> (\<forall>dev \<in> devices st. device_need st ''pre_upload'' n 0 dev \<le> device_free st dev)"

lemma fits_antitone: "fits st n \<Longrightarrow> m \<le> n \<Longrightarrow> fits st m"
  by (fastforce simp: fits_def device_need_def split: if_splits)

lemma evaluate_fits:
  "0 < n \<Longrightarrow> n \<le> MAX_SELECTED_SIZE_BYTES \<Longrightarrow> \<exists>d. evaluate_memory_upload_capacity st n ''pre_upload'' 0 = Inr d \<and> accepted d = fits st n"
  using evaluate_accepts [of "''pre_upload''" n 0 st] by (auto simp: known_phase_def fits_def)

lemma recommend_loop_greatest:
  assumes "0 \<le> low" "low \<le> high" "high \<le> MAX_SELECTED_SIZE_BYTES" "low = 0 \<or> fits st low" "\<And>n. high < n \<Longrightarrow> n \<le> mx \<Longrightarrow> \<not> fits st n" "high \<le> mx"
  shows "\<exists>r. recommend_loop (\<lambda>_. st) k low high = Inr r \<and> 0 \<le> r \<and> r \<le> mx \<and> (r = 0 \<or> fits st r) \<and> (\<forall>n. r < n \<longrightarrow> n \<le> mx \<longrightarrow> \<not> fits st n)"
  using assms
proof (induction "nat (high - low)" arbitrary: low high k rule: less_induct)
  case less
  show ?case
  proof (cases "low < high")
    case True
    define c where "c = (low + high + 1) div 2"
    have c: "low < c" "c \<le> high" "0 < c" "c \<le> MAX_SELECTED_SIZE_BYTES" using True less.prems by (auto simp: c_def)
    obtain d where d: "evaluate_memory_upload_capacity st c ''pre_upload'' 0 = Inr d" "accepted d = fits st c"
      using evaluate_fits [OF c(3,4)] by blast
    have step: "recommend_loop (\<lambda>_. st) k low high
        = (if fits st c then recommend_loop (\<lambda>_. st) (k + 1) c high else recommend_loop (\<lambda>_. st) (k + 1) low (c - 1))"
      using True d by (subst recommend_loop.simps) (simp add: c_def [symmetric])
    show ?thesis
    proof (cases "fits st c")
      case True
      have "nat (high - c) < nat (high - low)" using c by simp
      from less.hyps [OF this, of "k + 1"] True c less.prems show ?thesis unfolding step by auto
    next
      case False
      have lt: "nat (c - 1 - low) < nat (high - low)" using c by simp
      have "\<not> fits st n" if "c - 1 < n" for n
        using False fits_antitone [of st n c] that by linarith
      with less.hyps [OF lt, of "k + 1"] False c less.prems show ?thesis unfolding step by auto
    qed
  next
    case False
    then have "low = high" using less.prems by simp
    then show ?thesis using less.prems by (subst recommend_loop.simps) auto
  qed
qed

text \<open>The file systems after \<open>b\<close> bytes were written to a device.\<close>

definition written :: "int \<Rightarrow> int \<Rightarrow> FilesystemSnapshot \<Rightarrow> FilesystemSnapshot" where
  "written dev b s = (if device s = dev then s\<lparr>available_bytes := available_bytes s - b\<rparr> else s)"

definition consume :: "int \<Rightarrow> int \<Rightarrow> storage \<Rightarrow> storage" where
  "consume dev b st = st\<lparr>staging_root := written dev b (staging_root st), final_root := written dev b (final_root st),
     output_root := written dev b (output_root st)\<rparr>"

lemma written_device [simp]: "device (written dev b s) = device s"
  by (simp add: written_def)

lemma consume_devices [simp]: "devices (consume dev b st) = devices st" "same_filesystem (consume dev b st) = same_filesystem st"
  "output_allowance (consume dev b st) = output_allowance st"
  "device (staging_root (consume dev b st)) = device (staging_root st)"
  "device (final_root (consume dev b st)) = device (final_root st)"
  "device (output_root (consume dev b st)) = device (output_root st)"
  by (simp_all add: consume_def snapshots_def same_filesystem_def output_allowance_def)

lemma consume_free: "x \<in> devices st \<Longrightarrow> device_free (consume dev b st) x = device_free st x - (if x = dev then b else 0)"
  by (cases "device (staging_root st) = x"; cases "device (final_root st) = x"; cases "device (output_root st) = x")
     (auto simp: device_free_def snapshots_def consume_def written_def min_def)

lemma consume_need: "device_need (consume dev b st) = device_need st"
  by (simp add: device_need_def fun_eq_iff)

subsection \<open>The upload slot\<close>

text \<open>
  The Redis key of the slot: its value and when it expires. \<open>ok\<close> is whether Redis could be
  reached; a call that cannot reach it changes nothing. Every operation takes place at one
  instant \<open>now\<close> of a clock that Redis and the callers share.
\<close>

type_synonym redis_key = "(string \<times> int) option"

definition redis_get :: "int \<Rightarrow> redis_key \<Rightarrow> string option" where
  "redis_get now r = (case r of None \<Rightarrow> None | Some (v, expires) \<Rightarrow> if now < expires then Some v else None)"

definition redis_set_nx :: "int \<Rightarrow> string \<Rightarrow> int \<Rightarrow> redis_key \<Rightarrow> bool \<times> redis_key" where
  "redis_set_nx now v ttl r = (if redis_get now r = None then (True, Some (v, now + ttl)) else (False, r))"

text \<open>The two scripts: extend, or delete, the key when it still holds the caller's token.\<close>

definition redis_expire_if :: "int \<Rightarrow> string \<Rightarrow> int \<Rightarrow> redis_key \<Rightarrow> int \<times> redis_key" where
  "redis_expire_if now v ttl r = (if redis_get now r = Some v then (1, Some (v, now + ttl)) else (0, r))"

definition redis_del_if :: "int \<Rightarrow> string \<Rightarrow> redis_key \<Rightarrow> int \<times> redis_key" where
  "redis_del_if now v r = (if redis_get now r = Some v then (1, None) else (0, r))"

record MemoryUploadSlot =
  slot_token :: string
  ttl_seconds :: int
  slot_held :: bool
  last_refresh :: int

definition new_slot :: "string option \<Rightarrow> string \<Rightarrow> int \<Rightarrow> int \<Rightarrow> MemoryUploadSlot" where
  "new_slot request_id uuid configured_timeout stale_timeout =
     \<lparr>slot_token = (case request_id of Some i \<Rightarrow> if i = [] then uuid else i | None \<Rightarrow> uuid),
      ttl_seconds = max 300 (max configured_timeout (if stale_timeout = 0 then 900 else stale_timeout)),
      slot_held = False, last_refresh = 0\<rparr>"

definition slot_acquire :: "bool \<Rightarrow> int \<Rightarrow> MemoryUploadSlot \<Rightarrow> redis_key \<Rightarrow> (capacity_error + unit) \<times> MemoryUploadSlot \<times> redis_key" where
  "slot_acquire ok now sl r =
    (if \<not> ok then (Inl (MemoryCapacityError ''concurrency_guard_unavailable''), sl, r)
     else let (won, r') = redis_set_nx now (slot_token sl) (ttl_seconds sl) r in
       if \<not> won then (Inl (MemoryCapacityError ''upload_in_progress''), sl\<lparr>slot_held := False\<rparr>, r')
       else (Inr (), sl\<lparr>slot_held := True, last_refresh := now\<rparr>, r'))"

definition slot_refresh :: "bool \<Rightarrow> bool \<Rightarrow> int \<Rightarrow> MemoryUploadSlot \<Rightarrow> redis_key \<Rightarrow> (capacity_error + unit) \<times> MemoryUploadSlot \<times> redis_key" where
  "slot_refresh ok force now sl r =
    (if \<not> slot_held sl \<or> (\<not> force \<and> now - last_refresh sl < 30) then (Inr (), sl, r)
     else if \<not> ok then (Inl (MemoryCapacityError ''concurrency_guard_unavailable''), sl, r)
     else let (refreshed, r') = redis_expire_if now (slot_token sl) (ttl_seconds sl) r in
       if refreshed \<noteq> 1 then (Inl (MemoryCapacityError ''upload_reservation_lost''), sl, r')
       else (Inr (), sl\<lparr>last_refresh := now\<rparr>, r'))"

definition slot_release :: "bool \<Rightarrow> int \<Rightarrow> MemoryUploadSlot \<Rightarrow> redis_key \<Rightarrow> MemoryUploadSlot \<times> redis_key" where
  "slot_release ok now sl r =
    (if \<not> slot_held sl then (sl, r)
     else (sl\<lparr>slot_held := False\<rparr>, if ok then snd (redis_del_if now (slot_token sl) r) else r))"

definition release_memory_upload_slot_if_owner :: "bool \<Rightarrow> int \<Rightarrow> string \<Rightarrow> redis_key \<Rightarrow> bool \<times> redis_key" where
  "release_memory_upload_slot_if_owner ok now upload_id r =
    (if ok then (let (n, r') = redis_del_if now upload_id r in (n = 1, r')) else (False, r))"

text \<open>
  The uploads that share the slot: time passes, an upload acquires, renews or gives up the
  slot, its process dies, or the cleanup releases the slot of one that no longer holds it.
\<close>

record slot_system =
  clock :: int
  slot_key :: redis_key
  uploads :: "nat \<Rightarrow> MemoryUploadSlot"

inductive slot_step :: "slot_system \<Rightarrow> slot_system \<Rightarrow> bool" where
  tick: "0 \<le> d \<Longrightarrow> slot_step s (s\<lparr>clock := clock s + d\<rparr>)"
| acquire: "slot_acquire ok (clock s) (uploads s c) (slot_key s) = (res, sl, r)
    \<Longrightarrow> slot_step s (s\<lparr>slot_key := r, uploads := (uploads s)(c := sl)\<rparr>)"
| refresh: "slot_refresh ok force (clock s) (uploads s c) (slot_key s) = (res, sl, r)
    \<Longrightarrow> slot_step s (s\<lparr>slot_key := r, uploads := (uploads s)(c := sl)\<rparr>)"
| release: "slot_release ok (clock s) (uploads s c) (slot_key s) = (sl, r)
    \<Longrightarrow> slot_step s (s\<lparr>slot_key := r, uploads := (uploads s)(c := sl)\<rparr>)"
| crash: "slot_step s (s\<lparr>uploads := (uploads s)(c := (uploads s c)\<lparr>slot_held := False\<rparr>)\<rparr>)"
| cleanup: "\<not> slot_held (uploads s c) \<Longrightarrow> release_memory_upload_slot_if_owner ok (clock s) (slot_token (uploads s c)) (slot_key s) = (b, r)
    \<Longrightarrow> slot_step s (s\<lparr>slot_key := r\<rparr>)"

inductive slot_reachable :: "slot_system \<Rightarrow> bool" where
  start: "\<forall>c. \<not> slot_held (uploads s c) \<and> 0 < ttl_seconds (uploads s c) \<Longrightarrow> inj (\<lambda>c. slot_token (uploads s c)) \<Longrightarrow> slot_key s = None
    \<Longrightarrow> slot_reachable s"
| step: "slot_reachable s \<Longrightarrow> slot_step s s' \<Longrightarrow> slot_reachable s'"

text \<open>An upload whose reservation has not run out.\<close>

definition reserved :: "slot_system \<Rightarrow> nat \<Rightarrow> bool" where
  "reserved s c \<longleftrightarrow> slot_held (uploads s c) \<and> clock s < last_refresh (uploads s c) + ttl_seconds (uploads s c)"

definition slot_inv :: "slot_system \<Rightarrow> bool" where
  "slot_inv s \<longleftrightarrow> inj (\<lambda>c. slot_token (uploads s c)) \<and> (\<forall>c. 0 < ttl_seconds (uploads s c))
     \<and> (\<forall>c. reserved s c \<longrightarrow> slot_key s = Some (slot_token (uploads s c), last_refresh (uploads s c) + ttl_seconds (uploads s c)))
     \<and> (\<forall>v e. slot_key s = Some (v, e) \<longrightarrow> (\<exists>c. v = slot_token (uploads s c) \<and> e \<le> clock s + ttl_seconds (uploads s c)))"

lemmas slot_defs = slot_acquire_def slot_refresh_def slot_release_def release_memory_upload_slot_if_owner_def
  redis_set_nx_def redis_expire_if_def redis_del_if_def redis_get_def

lemma slot_inv_owner:
  assumes "slot_inv s" "reserved s d"
  shows "redis_get (clock s) (slot_key s) = Some (slot_token (uploads s d))"
  using assms by (auto simp: slot_inv_def reserved_def redis_get_def)

lemma slot_inv_token: "slot_inv s \<Longrightarrow> slot_token (uploads s c) = slot_token (uploads s d) \<Longrightarrow> c = d"
  by (auto simp: slot_inv_def dest: injD)

lemma slot_inv_keep:
  assumes "slot_inv s" "sl = uploads s c \<or> sl = (uploads s c)\<lparr>slot_held := False\<rparr>"
  shows "slot_inv (s\<lparr>uploads := (uploads s)(c := sl)\<rparr>)"
proof -
  have same: "slot_token (((uploads s)(c := sl)) x) = slot_token (uploads s x)"
    "ttl_seconds (((uploads s)(c := sl)) x) = ttl_seconds (uploads s x)"
    "last_refresh (((uploads s)(c := sl)) x) = last_refresh (uploads s x)" for x using assms(2) by auto
  have "slot_held (((uploads s)(c := sl)) x) \<Longrightarrow> slot_held (uploads s x)" for x using assms(2) by (auto split: if_splits)
  then show ?thesis using assms(1) by (auto simp: slot_inv_def reserved_def same simp del: fun_upd_apply)
qed

lemma slot_inv_grant:
  assumes "slot_inv s" "redis_get (clock s) (slot_key s) \<in> {None, Some (slot_token (uploads s c))}"
    and "sl = (uploads s c)\<lparr>slot_held := True, last_refresh := clock s\<rparr>"
    and "r = Some (slot_token (uploads s c), clock s + ttl_seconds (uploads s c))"
  shows "slot_inv (s\<lparr>slot_key := r, uploads := (uploads s)(c := sl)\<rparr>)"
proof -
  have same: "slot_token (((uploads s)(c := sl)) x) = slot_token (uploads s x)"
    "ttl_seconds (((uploads s)(c := sl)) x) = ttl_seconds (uploads s x)" for x using assms(3) by auto
  have other: "\<not> reserved s d" if "d \<noteq> c" for d
    using slot_inv_owner [OF assms(1), of d] slot_inv_token [OF assms(1), of d c] assms(2) that by auto
  have only: "reserved (s\<lparr>slot_key := r, uploads := (uploads s)(c := sl)\<rparr>) d \<Longrightarrow> d = c" for d
    using other [of d] by (auto simp: reserved_def split: if_splits)
  have toks: "inj (\<lambda>x. slot_token (((uploads s)(c := sl)) x))" using assms(1) unfolding same by (simp add: slot_inv_def)
  have ttls: "0 < ttl_seconds (((uploads s)(c := sl)) x)" for x using assms(1) unfolding same by (simp add: slot_inv_def)
  show ?thesis unfolding slot_inv_def
  proof (intro conjI allI impI, goal_cases)
    case 1
    show ?case using toks by simp
  next
    case (2 x)
    show ?case using ttls [of x] by simp
  next
    case (3 x)
    then have "x = c" by (rule only)
    then show ?case by (simp add: assms(3,4))
  next
    case (4 v e)
    then show ?case by (intro exI [of _ c]) (simp add: assms(3,4))
  qed
qed

lemma slot_inv_drop:
  assumes "slot_inv s" "redis_get (clock s) (slot_key s) = Some (slot_token (uploads s c))" "\<not> slot_held sl"
    and "sl = uploads s c \<or> sl = (uploads s c)\<lparr>slot_held := False\<rparr>"
  shows "slot_inv (s\<lparr>slot_key := None, uploads := (uploads s)(c := sl)\<rparr>)"
proof -
  have other: "\<not> reserved s d" if "d \<noteq> c" for d
    using slot_inv_owner [OF assms(1), of d] slot_inv_token [OF assms(1), of d c] assms(2) that by auto
  have "\<not> reserved (s\<lparr>slot_key := None, uploads := (uploads s)(c := sl)\<rparr>) d" for d
    using other [of d] assms(3) by (auto simp: reserved_def split: if_splits)
  moreover have "slot_inv (s\<lparr>uploads := (uploads s)(c := sl)\<rparr>)" by (rule slot_inv_keep [OF assms(1,4)])
  ultimately show ?thesis by (simp add: slot_inv_def)
qed

lemma slot_acquire_cases:
  assumes "slot_acquire ok now u r = (res, sl, r')"
  shows "r' = r \<and> (sl = u \<or> sl = u\<lparr>slot_held := False\<rparr>)
    \<or> redis_get now r = None \<and> sl = u\<lparr>slot_held := True, last_refresh := now\<rparr> \<and> r' = Some (slot_token u, now + ttl_seconds u)"
  using assms by (auto simp: slot_acquire_def redis_set_nx_def split: if_splits)

lemma slot_refresh_cases:
  assumes "slot_refresh ok force now u r = (res, sl, r')"
  shows "r' = r \<and> sl = u
    \<or> redis_get now r = Some (slot_token u) \<and> sl = u\<lparr>slot_held := True, last_refresh := now\<rparr> \<and> r' = Some (slot_token u, now + ttl_seconds u)"
  using assms by (auto simp: slot_refresh_def redis_expire_if_def split: if_splits)

lemma slot_release_cases:
  assumes "slot_release ok now u r = (sl, r')"
  shows "r' = r \<and> (sl = u \<or> sl = u\<lparr>slot_held := False\<rparr>)
    \<or> redis_get now r = Some (slot_token u) \<and> sl = u\<lparr>slot_held := False\<rparr> \<and> r' = None"
  using assms by (auto simp: slot_release_def redis_del_if_def split: if_splits)

lemma slot_cleanup_cases:
  assumes "release_memory_upload_slot_if_owner ok now v r = (b, r')"
  shows "r' = r \<or> redis_get now r = Some v \<and> r' = None"
  using assms by (auto simp: release_memory_upload_slot_if_owner_def redis_del_if_def split: if_splits)

lemma slot_inv_tick: "slot_inv s \<Longrightarrow> 0 \<le> d \<Longrightarrow> slot_inv (s\<lparr>clock := clock s + d\<rparr>)"
  unfolding slot_inv_def reserved_def by (auto; force)

lemma slot_step_inv: "slot_step s s' \<Longrightarrow> slot_inv s \<Longrightarrow> slot_inv s'"
proof (induction rule: slot_step.induct)
  case (tick d s)
  then show ?case by (simp add: slot_inv_tick)
next
  case (acquire ok s c res sl r)
  from slot_acquire_cases [OF acquire.hyps] show ?case
    by (elim disjE conjE) (simp_all add: slot_inv_keep slot_inv_grant acquire.prems)
next
  case (refresh ok force s c res sl r)
  from slot_refresh_cases [OF refresh.hyps] show ?case
    by (elim disjE conjE) (simp_all add: slot_inv_grant refresh.prems)
next
  case (release ok s c sl r)
  from slot_release_cases [OF release.hyps] show ?case
    by (elim disjE conjE) (simp_all add: slot_inv_keep slot_inv_drop release.prems)
next
  case (crash s c)
  then show ?case by (intro slot_inv_keep) auto
next
  case (cleanup s c ok b r)
  have "slot_inv (s\<lparr>slot_key := None, uploads := (uploads s)(c := uploads s c)\<rparr>)"
    if "redis_get (clock s) (slot_key s) = Some (slot_token (uploads s c))"
    using that cleanup by (intro slot_inv_drop) auto
  with slot_cleanup_cases [OF cleanup.hyps(2)] cleanup.prems show ?case by auto
qed

lemma slot_reachable_inv: "slot_reachable s \<Longrightarrow> slot_inv s"
proof (induction rule: slot_reachable.induct)
  case (start s)
  then show ?case by (simp add: slot_inv_def reserved_def)
next
  case (step s s')
  then show ?case using slot_step_inv by blast
qed

end
