(* ===== verification/Capacity_Properties.thy ===== *)
theory Capacity_Properties
  imports Upload_Capacity
begin

section \<open>What the upload capacity guards guarantee\<close>

text \<open>
  The properties of \<^verbatim>\<open>services/memory/upload_capacity.py\<close>. The instances use two file
  systems, one with 10 GiB for staging and one with 20 GiB for evidence and output.
\<close>

definition example_storage :: storage where
  "example_storage = \<lparr>staging_root = \<lparr>device = 1, available_bytes = 10 * GIB\<rparr>,
     final_root = \<lparr>device = 2, available_bytes = 20 * GIB\<rparr>, output_root = \<lparr>device = 2, available_bytes = 20 * GIB\<rparr>,
     plugin_output_max = 0\<rparr>"

lemma example_fits: "fits example_storage GIB"
  by (simp add: fits_def snapshots_def example_storage_def device_need_def device_free_def same_filesystem_def
      output_allowance_def MIN_OUTPUT_ALLOWANCE_BYTES_def SAFETY_MARGIN_BYTES_def GIB_def)

text \<open>The capacity decision accepts an upload exactly when every device involved has room for
  all the roles it plays at that phase plus the safety margin, and the shortfall it reports
  is the least number of bytes that would have to be freed on every device.
\<close>

theorem capacity_decision_exact:
  assumes "known_phase ph" and "0 < selected" and "selected \<le> MAX_SELECTED_SIZE_BYTES" and "0 \<le> staged" and "staged \<le> selected"
  shows "\<exists>d. evaluate_memory_upload_capacity st selected ph staged = Inr d
    \<and> (accepted d \<longleftrightarrow> (\<forall>dev \<in> devices st. device_need st ph selected staged dev \<le> device_free st dev))
    \<and> (\<forall>b \<ge> 0. shortfall_bytes d \<le> b \<longleftrightarrow> (\<forall>dev \<in> devices st. device_need st ph selected staged dev \<le> device_free st dev + b))"
  using evaluate_accepts [OF assms] .

theorem capacity_decision_exact_witness:
  "\<exists>d. evaluate_memory_upload_capacity example_storage GIB ''streaming'' 5 = Inr d
    \<and> (accepted d \<longleftrightarrow> (\<forall>dev \<in> devices example_storage. device_need example_storage ''streaming'' GIB 5 dev \<le> device_free example_storage dev))"
  using capacity_decision_exact [of "''streaming''" GIB 5 example_storage]
  by (auto simp: known_phase_def GIB_def MAX_SELECTED_SIZE_BYTES_def)



lemma assert_accepts:
  assumes "known_phase ph" "0 < selected" "selected \<le> MAX_SELECTED_SIZE_BYTES" "0 \<le> staged" "staged \<le> selected"
    and "\<forall>x \<in> devices st. device_need st ph selected staged x \<le> device_free st x"
  shows "\<exists>d. assert_memory_upload_capacity st selected ph staged = Inr d"
proof -
  obtain d where "evaluate_memory_upload_capacity st selected ph staged = Inr d" "accepted d"
    using evaluate_accepts [OF assms(1-5), of st] assms(6) by blast
  then show ?thesis by (simp add: assert_memory_upload_capacity_def)
qed

lemma need_phases:
  "device_need st ''streaming'' n b x = device_need st ''pre_upload'' n 0 x - (if x = device (staging_root st) then b else 0)"
  "device_need st ''finalization'' n m x = device_need st ''pre_upload'' n 0 x - (if x = device (staging_root st) then n else 0)"
  by (simp_all add: device_need_def)

text \<open>C34: An upload accepted before it starts stays accepted: while its own bytes are what fills
  the staging device the check during streaming passes at every point, and so does the
  check before it is moved to its final place.
\<close>

theorem capacity_promise_kept:
  assumes "assert_memory_upload_capacity st n ''pre_upload'' 0 = Inr d" and "0 \<le> b" and "b \<le> n"
  shows "(\<exists>d'. assert_memory_upload_capacity (consume (device (staging_root st)) b st) n ''streaming'' b = Inr d')
    \<and> (\<exists>d'. assert_memory_upload_capacity (consume (device (staging_root st)) n st) n ''finalization'' n = Inr d')"
proof -
  have n: "0 < n" "n \<le> MAX_SELECTED_SIZE_BYTES" and d: "evaluate_memory_upload_capacity st n ''pre_upload'' 0 = Inr d" "accepted d"
    using assms(1)
    by (auto simp: assert_memory_upload_capacity_def evaluate_memory_upload_capacity_def res_simps not_le split: if_splits)
  have "fits st n" using evaluate_fits [OF n, of st] d by auto
  then have need: "device_need st ''pre_upload'' n 0 x \<le> device_free st x" if "x \<in> devices st" for x
    using that by (auto simp: fits_def)
  let ?s = "device (staging_root st)"
  have "device_need (consume ?s b st) ''streaming'' n b x \<le> device_free (consume ?s b st) x" if "x \<in> devices st" for x
    using need [OF that] consume_free [OF that, of ?s b] unfolding consume_need need_phases by simp
  then have "\<forall>x \<in> devices (consume ?s b st). device_need (consume ?s b st) ''streaming'' n b x \<le> device_free (consume ?s b st) x"
    unfolding consume_devices(1) by blast
  then have "\<exists>d'. assert_memory_upload_capacity (consume ?s b st) n ''streaming'' b = Inr d'"
    using n assms(2,3) by (intro assert_accepts) (simp_all add: known_phase_def)
  moreover have "device_need (consume ?s n st) ''finalization'' n n x \<le> device_free (consume ?s n st) x" if "x \<in> devices st" for x
    using need [OF that] consume_free [OF that, of ?s n] unfolding consume_need need_phases by simp
  then have "\<forall>x \<in> devices (consume ?s n st). device_need (consume ?s n st) ''finalization'' n n x \<le> device_free (consume ?s n st) x"
    unfolding consume_devices(1) by blast
  then have "\<exists>d'. assert_memory_upload_capacity (consume ?s n st) n ''finalization'' n = Inr d'"
    using n by (intro assert_accepts) (simp_all add: known_phase_def)
  ultimately show ?thesis ..
qed

theorem capacity_promise_kept_witness:
  "\<exists>d'. assert_memory_upload_capacity (consume 1 5 example_storage) GIB ''streaming'' 5 = Inr d'"
proof -
  have "0 < GIB" "GIB \<le> MAX_SELECTED_SIZE_BYTES" by (simp_all add: GIB_def MAX_SELECTED_SIZE_BYTES_def)
  from evaluate_fits [OF this, of example_storage] obtain d where "assert_memory_upload_capacity example_storage GIB ''pre_upload'' 0 = Inr d"
    using example_fits by (auto simp: assert_memory_upload_capacity_def)
  from capacity_promise_kept [OF this, of 5] show ?thesis by (simp add: example_storage_def GIB_def)
qed

text \<open>A first upload takes the slot for 300 seconds at time 0.\<close>

definition example_slot :: "nat \<Rightarrow> MemoryUploadSlot" where
  "example_slot c = \<lparr>slot_token = replicate c (CHR ''a''), ttl_seconds = 300, slot_held = False, last_refresh = 0\<rparr>"

definition example_system :: slot_system where
  "example_system = \<lparr>clock = 0, slot_key = Some ([], 300), uploads = example_slot(0 := (example_slot 0)\<lparr>slot_held := True, last_refresh := 0\<rparr>)\<rparr>"

lemma example_system_reachable: "slot_reachable example_system"
proof (rule slot_reachable.step)
  let ?s = "\<lparr>clock = 0, slot_key = None, uploads = example_slot\<rparr>"
  have "inj (\<lambda>c. slot_token (example_slot c))" by (auto simp: example_slot_def inj_on_def)
  then show "slot_reachable ?s" by (intro slot_reachable.start) (simp_all add: example_slot_def)
  have "slot_acquire True (clock ?s) (uploads ?s 0) (slot_key ?s)
      = (Inr (), (example_slot 0)\<lparr>slot_held := True, last_refresh := 0\<rparr>, Some ([], 300))"
    by (simp add: slot_defs example_slot_def)
  from slot_step.acquire [OF this] show "slot_step ?s example_system" by (simp add: example_system_def)
qed



text \<open>A holder that dies never blocks the slot for good: whatever has happened, some upload's
  time to live after the last moment, any upload that asks gets the slot.
\<close>

theorem slot_becomes_free:
  assumes "slot_reachable s"
  shows "\<exists>c. \<forall>t u. clock s + ttl_seconds (uploads s c) \<le> t \<longrightarrow> fst (slot_acquire True t u (slot_key s)) = Inr ()"
proof (cases "slot_key s")
  case None
  then show ?thesis by (simp add: slot_defs)
next
  case (Some ve)
  obtain v e where ve: "ve = (v, e)" by force
  obtain c where "e \<le> clock s + ttl_seconds (uploads s c)"
    using slot_reachable_inv [OF assms] Some ve by (auto simp: slot_inv_def)
  then show ?thesis using Some ve by (intro exI [of _ c]) (auto simp: slot_defs)
qed

theorem slot_becomes_free_witness:
  "\<exists>c. \<forall>t u. clock example_system + ttl_seconds (uploads example_system c) \<le> t
    \<longrightarrow> fst (slot_acquire True t u (slot_key example_system)) = Inr ()"
  using slot_becomes_free [OF example_system_reachable] .

text \<open>A limit above 128 GiB makes the search evaluate a size the check refuses with an exception.\<close>

lemma recommended_upload_too_large:
  "recommended_memory_upload_bytes env (128 * GIB) = Inl (CapacityValueError ''selected_size_bytes is too large'')
   \<or> (\<exists>d. evaluate_memory_upload_capacity (env 0) (64 * GIB) ''pre_upload'' 0 = Inr d \<and> \<not> accepted d)"
proof -
  obtain d where d: "evaluate_memory_upload_capacity (env 0) (64 * GIB) ''pre_upload'' 0 = Inr d"
    using evaluate_fits [of "64 * GIB" "env 0"] by (auto simp: GIB_def MAX_SELECTED_SIZE_BYTES_def)
  show ?thesis
  proof (cases "accepted d")
    case True
    have "recommend_loop env 1 (64 * GIB) (128 * GIB) = Inl (CapacityValueError ''selected_size_bytes is too large'')"
      by (subst recommend_loop.simps) (simp add: GIB_def MAX_SELECTED_SIZE_BYTES_def evaluate_memory_upload_capacity_def)
    moreover have "recommended_memory_upload_bytes env (128 * GIB) = recommend_loop env 1 (64 * GIB) (128 * GIB)"
      unfolding recommended_memory_upload_bytes_def using d True
      by (subst recommend_loop.simps) (simp add: GIB_def)
    ultimately show ?thesis by simp
  qed (use d in blast)
qed

end
