(* ===== verification/Evidence_Operations.thy ===== *)
theory Evidence_Operations
  imports Prelude Complex_Main
begin

section \<open>Evidence operations\<close>

text \<open>
  \<^verbatim>\<open>services/evidence_operations.py\<close>: the life cycle of an evidence operation, its
  synchronisation with the upload session it belongs to, its jobs, and the reconciliation of
  all of them. The database is a record of tables in row order; \<^verbatim>\<open>utc_now()\<close> is the argument
  \<open>now\<close>; identifiers that the database draws are numbers it has not used. Times are
  instants, so the conversion of naive datetimes is the identity. Committing makes no
  difference to the session that commits.
\<close>

datatype op_error = InvalidTransition string string | MultipleResultsFound

definition TERMINAL_OPERATION_STATUSES :: "string set" where
  "TERMINAL_OPERATION_STATUSES = {''completed'', ''failed'', ''cancelled'', ''expired''}"

definition ACTIVE_JOB_STATUSES :: "string set" where
  "ACTIVE_JOB_STATUSES = {''queued'', ''running''}"

definition PREFLIGHT_SUBSTAGES :: "string set" where
  "PREFLIGHT_SUBSTAGES = {''verifying_integrity'', ''classifying'', ''inspecting_evidence'', ''preparing_evidence'', ''preflight_complete''}"

definition STAGE_PRESERVING_SESSION_STATUSES :: "string set" where
  "STAGE_PRESERVING_SESSION_STATUSES = {''preflight_running'', ''staged'', ''failed''}"

definition ALLOWED_OPERATION_TRANSITIONS :: "(string \<times> string list) list" where
  "ALLOWED_OPERATION_TRANSITIONS =
    [(''created'', [''waiting_upload'', ''uploading'', ''cancelled'', ''failed'']),
     (''waiting_upload'', [''uploading'', ''paused'', ''cancelled'', ''expired'', ''failed'']),
     (''uploading'', [''paused'', ''finalizing'', ''cancelled'', ''expired'', ''failed'']),
     (''paused'', [''uploading'', ''finalizing'', ''cancelled'', ''expired'', ''failed'']),
     (''finalizing'', [''verifying'', ''preflight'', ''ready_for_promotion'', ''failed'']),
     (''verifying'', [''preflight'', ''ready_for_promotion'', ''failed'']),
     (''preflight'', [''ready_for_promotion'', ''waiting_user'', ''failed'']),
     (''ready_for_promotion'', [''waiting_user'', ''promoting'', ''cancelled'', ''failed'']),
     (''waiting_user'', [''promoting'', ''cancelled'', ''failed'']),
     (''promoting'', [''queued'', ''running'', ''completed'', ''failed'']),
     (''queued'', [''running'', ''completed'', ''failed'', ''cancelled'']),
     (''running'', [''completed'', ''failed'', ''cancelled'']),
     (''failed'', [''queued'', ''running'', ''finalizing'', ''preflight'', ''promoting'', ''cancelled'']),
     (''cancelled'', []), (''expired'', []), (''completed'', [])]"

definition operation_status :: "string \<Rightarrow> string" where
  "operation_status session_status =
    (if session_status = ''created'' then ''waiting_upload''
     else if session_status = ''uploading'' then ''uploading''
     else if session_status = ''preflight_running'' then ''preflight''
     else if session_status = ''staged'' then ''waiting_user''
     else if session_status = ''promoted'' then ''completed''
     else if session_status \<in> {''cancelled'', ''expired''} then session_status
     else if session_status = ''failed'' then ''failed''
     else if session_status = ''interrupted'' then ''paused''
     else ''running'')"

subsection \<open>Rows\<close>

text \<open>
  Metadata values are strings or null. A row that has not been written has no status and no
  stage yet.
\<close>

type_synonym metadata = "(string \<times> string option) list"

record EvidenceUploadSession =
  session_id :: string
  session_case_id :: string
  session_status :: string
  original_filename :: string
  is_folder :: bool
  is_server_path :: bool
  size_bytes :: int
  expected_size :: "int option"
  bytes_received :: int
  sha256 :: "string option"
  declared_platform :: "string option"
  session_metadata :: metadata
  expires_at :: "int option"
  session_created_at :: "int option"
  promoted_evidence_id :: "string option"
  failure_message :: "string option"

record operation_metadata =
  om_upload_session_id :: string
  om_label :: string
  om_category :: "string option"
  om_sha256 :: "string option"
  om_promoted_evidence_id :: "string option"
  om_failure_message :: "string option"
  om_is_server_path :: bool
  om_is_folder :: bool
  om_original_filename :: string
  om_declared_platform :: "string option"
  om_backend :: string
  om_unified_status :: "string option"

record EvidenceOperation =
  op_id :: nat
  op_case_id :: string
  upload_session_id :: "string option"
  evidence_id :: "string option"
  kind :: string
  op_status :: "string option"
  op_stage :: "string option"
  op_owner :: "string option"
  op_progress :: "int option"
  op_bytes_received :: "int option"
  op_expected_size :: "int option"
  started_at :: "int option"
  completed_at :: "int option"
  op_last_error :: "string option"
  op_metadata :: "operation_metadata option"

record EvidenceOperationJob =
  job_id :: nat
  job_operation_id :: nat
  job_case_id :: string
  job_evidence_id :: "string option"
  job_upload_session_id :: "string option"
  job_type :: string
  job_status :: "string option"
  job_progress :: "int option"
  job_owner :: "string option"
  rq_job_id :: "string option"
  dedupe_key :: string
  job_created_at :: int
  job_started_at :: "int option"
  job_finished_at :: "int option"
  job_last_error :: "string option"
  job_metadata :: metadata

subsection \<open>Transitions\<close>

definition truthy_str :: "string option \<Rightarrow> bool" where
  "truthy_str s \<longleftrightarrow> s \<noteq> None \<and> s \<noteq> Some []"

definition allowed_transition :: "string \<Rightarrow> string \<Rightarrow> bool" where
  "allowed_transition current status \<longleftrightarrow>
     (case map_of ALLOWED_OPERATION_TRANSITIONS current of None \<Rightarrow> False | Some ts \<Rightarrow> status \<in> set ts)"

definition current_status :: "EvidenceOperation \<Rightarrow> string" where
  "current_status op = (case op_status op of None \<Rightarrow> ''created'' | Some s \<Rightarrow> if s = [] then ''created'' else s)"

definition transition_operation :: "int \<Rightarrow> EvidenceOperation \<Rightarrow> string \<Rightarrow> string option \<Rightarrow> string option \<Rightarrow> string option
    \<Rightarrow> bool \<Rightarrow> op_error + EvidenceOperation" where
  "transition_operation now op status stage owner error force =
    (if current_status op \<noteq> status \<and> \<not> force \<and> \<not> allowed_transition (current_status op) status
     then Inl (InvalidTransition (current_status op) status)
     else Inr (op\<lparr>op_status := Some status,
       op_stage := (case stage of None \<Rightarrow> op_stage op | Some s \<Rightarrow> Some s),
       op_owner := (case owner of None \<Rightarrow> op_owner op | Some w \<Rightarrow> Some w),
       op_last_error := error,
       completed_at := (if status \<in> TERMINAL_OPERATION_STATUSES
          then (case completed_at op of None \<Rightarrow> Some now | Some t \<Rightarrow> Some t) else None)\<rparr>))"

definition meta_get :: "metadata \<Rightarrow> string \<Rightarrow> string option" where
  "meta_get m k = (case map_of m k of None \<Rightarrow> None | Some v \<Rightarrow> v)"

definition session_stage :: "EvidenceUploadSession \<Rightarrow> string" where
  "session_stage session =
    (if truthy_str (meta_get (session_metadata session) ''current_stage'')
     then the (meta_get (session_metadata session) ''current_stage'') else session_status session)"

definition derive_operation_stage :: "EvidenceUploadSession \<Rightarrow> string option \<Rightarrow> string" where
  "derive_operation_stage session operation_stage =
    (case operation_stage of
       None \<Rightarrow> session_stage session
     | Some s \<Rightarrow> if s \<in> PREFLIGHT_SUBSTAGES \<and> session_status session \<in> STAGE_PRESERVING_SESSION_STATUSES
         then s else session_stage session)"

text \<open>\<open>int(a or b or 0)\<close> for an optional and a plain integer.\<close>

definition int_or :: "int option \<Rightarrow> int \<Rightarrow> int" where
  "int_or a b = (case a of None \<Rightarrow> b | Some n \<Rightarrow> if n = 0 then b else n)"

text \<open>
  The percentage: \<open>fl\<close> rounds a rational to the nearest double, as Python's division and
  multiplication of floats do; \<^verbatim>\<open>round\<close> goes to the nearest integer, ties to even.
\<close>

definition py_round :: "rat \<Rightarrow> int" where
  "py_round x = (let n = \<lfloor>x\<rfloor>; f = x - rat_of_int n in
     if f < 1 / 2 then n else if f > 1 / 2 then n + 1 else if even n then n else n + 1)"

definition operation_progress :: "(rat \<Rightarrow> rat) \<Rightarrow> EvidenceUploadSession \<Rightarrow> int option" where
  "operation_progress fl session =
    (let expected = int_or (expected_size session) (size_bytes session);
         received = int_or (Some (bytes_received session)) (size_bytes session) in
     if expected > 0 then Some (max 0 (min 100 (py_round (fl (fl (rat_of_int received / rat_of_int expected) * 100)))))
     else if session_status session \<in> {''staged'', ''promoted''} then Some 100
     else None)"

definition session_op_metadata :: "EvidenceUploadSession \<Rightarrow> operation_metadata" where
  "session_op_metadata s = \<lparr>om_upload_session_id = session_id s, om_label = original_filename s,
     om_category = meta_get (session_metadata s) ''category'', om_sha256 = sha256 s,
     om_promoted_evidence_id = promoted_evidence_id s, om_failure_message = failure_message s,
     om_is_server_path = is_server_path s, om_is_folder = is_folder s, om_original_filename = original_filename s,
     om_declared_platform = declared_platform s,
     om_backend = (if truthy_str (meta_get (session_metadata s) ''backend'') then the (meta_get (session_metadata s) ''backend'') else ''legacy''),
     om_unified_status = meta_get (session_metadata s) ''unified_status''\<rparr>"

subsection \<open>UUIDs\<close>

text \<open>
  \<^verbatim>\<open>UUID(str(value))\<close> accepts a string when, with \<^verbatim>\<open>urn:\<close>, \<^verbatim>\<open>uuid:\<close>, outer braces and hyphens
  removed, it has 32 characters and reads as a hexadecimal number: white space around it, a
  sign, a \<^verbatim>\<open>0x\<close> prefix and single underscores between digits are part of \<^verbatim>\<open>int(s, 16)\<close>.
\<close>

function remove_all :: "string \<Rightarrow> string \<Rightarrow> string" where
  "remove_all pat s =
    (if pat = [] \<or> s = [] then s
     else if take (length pat) s = pat then remove_all pat (drop (length pat) s)
     else hd s # remove_all pat (tl s))"
  by pat_completeness auto
termination
  by (relation "measure (\<lambda>(pat, s). length s)") (auto simp: neq_Nil_conv)

declare remove_all.simps [simp del]

definition hex_digit :: "char \<Rightarrow> bool" where
  "hex_digit c \<longleftrightarrow> ascii_digit c \<or> (let n = code_point c in 65 \<le> n \<and> n \<le> 70 \<or> 97 \<le> n \<and> n \<le> 102)"

fun hex_digits :: "string \<Rightarrow> bool" where
  "hex_digits [] = False"
| "hex_digits (c # cs) \<longleftrightarrow> hex_digit c \<and>
    (case cs of [] \<Rightarrow> True | d # ds \<Rightarrow> if d = CHR ''_'' then hex_digits ds else hex_digits cs)"

definition py_int16 :: "string \<Rightarrow> bool" where
  "py_int16 s \<longleftrightarrow>
    (let t = py_strip s; u = (if t \<noteq> [] \<and> hd t \<in> {CHR ''+'', CHR ''-''} then tl t else t) in
     if take 2 u = ''0x'' \<or> take 2 u = ''0X''
     then hex_digits (if take 1 (drop 2 u) = ''_'' then drop 3 u else drop 2 u)
     else hex_digits u)"

definition strip_braces :: "string \<Rightarrow> string" where
  "strip_braces s = py_rstrip (\<lambda>c. c \<in> {CHR ''{'', CHR ''}''}) (dropWhile (\<lambda>c. c \<in> {CHR ''{'', CHR ''}''}) s)"

definition is_uuid :: "string \<Rightarrow> bool" where
  "is_uuid value =
    (let h = remove_all ''-'' (strip_braces (remove_all ''uuid:'' (remove_all ''urn:'' value))) in
     length h = 32 \<and> py_int16 h)"

definition uuid_or_none :: "string option \<Rightarrow> string option" where
  "uuid_or_none value = (if truthy_str value \<and> is_uuid (the value) then value else None)"

definition is_before_now :: "int option \<Rightarrow> int \<Rightarrow> bool" where
  "is_before_now value now = (case value of None \<Rightarrow> False | Some t \<Rightarrow> t < now)"

subsection \<open>The tables\<close>

record upload_dir =
  dir_name :: string
  dir_is_dir :: bool
  dir_mtime :: int
  dir_is_empty :: bool

text \<open>
  \<open>evidences\<close> maps an evidence to its ingest status; \<open>upload_dirs\<close> is the content of the
  directory of upload sessions, empty when it does not exist.
\<close>

record operations_db =
  operations :: "EvidenceOperation list"
  jobs :: "EvidenceOperationJob list"
  sessions :: "EvidenceUploadSession list"
  evidences :: "(string \<times> string) list"
  upload_dirs :: "upload_dir list"
  next_id :: nat

text \<open>\<^verbatim>\<open>one_or_none()\<close>.\<close>

definition one_or_none :: "'a list \<Rightarrow> op_error + 'a option" where
  "one_or_none xs = (case xs of [] \<Rightarrow> Inr None | [x] \<Rightarrow> Inr (Some x) | _ \<Rightarrow> Inl MultipleResultsFound)"

definition session_operations :: "EvidenceOperation list \<Rightarrow> string \<Rightarrow> EvidenceOperation list" where
  "session_operations ops sid = filter (\<lambda>op. upload_session_id op = Some sid \<and> kind op = ''upload'') ops"

definition get_operation_for_session :: "operations_db \<Rightarrow> EvidenceUploadSession \<Rightarrow> op_error + EvidenceOperation option" where
  "get_operation_for_session db session = one_or_none (session_operations (operations db) (session_id session))"

definition get_operation_stage :: "operations_db \<Rightarrow> EvidenceUploadSession \<Rightarrow> op_error + string option" where
  "get_operation_stage db session =
     res_bind (get_operation_for_session db session) (\<lambda>op. Inr (Option.bind op op_stage))"

text \<open>\<^verbatim>\<open>db.add(row)\<close>: the row replaces the one with its key, or is added.\<close>

definition save_operation :: "EvidenceOperation \<Rightarrow> EvidenceOperation list \<Rightarrow> EvidenceOperation list" where
  "save_operation op ops = (if op_id op \<in> op_id ` set ops then map (\<lambda>o'. if op_id o' = op_id op then op else o') ops else ops @ [op])"

definition save_job :: "EvidenceOperationJob \<Rightarrow> EvidenceOperationJob list \<Rightarrow> EvidenceOperationJob list" where
  "save_job j js = (if job_id j \<in> job_id ` set js then map (\<lambda>j'. if job_id j' = job_id j then j else j') js else js @ [j])"

definition new_operation :: "int \<Rightarrow> nat \<Rightarrow> EvidenceUploadSession \<Rightarrow> EvidenceOperation" where
  "new_operation now i session = \<lparr>op_id = i, op_case_id = session_case_id session, upload_session_id = Some (session_id session),
     evidence_id = None, kind = ''upload'', op_status = None, op_stage = None, op_owner = None, op_progress = None,
     op_bytes_received = None, op_expected_size = None,
     started_at = Some (case session_created_at session of None \<Rightarrow> now | Some t \<Rightarrow> t), completed_at = None,
     op_last_error = None, op_metadata = None\<rparr>"

definition session_owner :: "string \<Rightarrow> string" where
  "session_owner status = (if status \<in> {''created'', ''uploading'', ''interrupted''} then ''browser''
     else if status \<in> {''preflight_running'', ''staged''} then ''backend'' else ''database'')"

definition sync_upload_operation :: "(rat \<Rightarrow> rat) \<Rightarrow> int \<Rightarrow> operations_db \<Rightarrow> EvidenceUploadSession \<Rightarrow> op_error + EvidenceOperation \<times> operations_db" where
  "sync_upload_operation fl now db session =
     res_bind (get_operation_for_session db session) (\<lambda>found.
     let op = (case found of Some op \<Rightarrow> op | None \<Rightarrow> new_operation now (next_id db) session);
         promoted = uuid_or_none (promoted_evidence_id session);
         promoted' = (case promoted of None \<Rightarrow> None | Some e \<Rightarrow> if map_of (evidences db) e = None then None else Some e) in
     res_bind (transition_operation now (op\<lparr>op_case_id := session_case_id session, evidence_id := promoted'\<rparr>)
       (operation_status (session_status session)) (Some (derive_operation_stage session (op_stage op)))
       (Some (session_owner (session_status session))) (failure_message session) True) (\<lambda>op'.
     let expected = int_or (expected_size session) (size_bytes session);
         op'' = op'\<lparr>op_progress := operation_progress fl session,
           op_bytes_received := Some (int_or (Some (bytes_received session)) (size_bytes session)),
           op_expected_size := (if expected = 0 then None else Some expected),
           op_metadata := Some (session_op_metadata session)\<rparr> in
     Inr (op'', db\<lparr>operations := save_operation op'' (operations db),
       next_id := (if found = None then next_id db + 1 else next_id db)\<rparr>)))"

definition get_upload_operation :: "(rat \<Rightarrow> rat) \<Rightarrow> int \<Rightarrow> operations_db \<Rightarrow> EvidenceUploadSession \<Rightarrow> op_error + EvidenceOperation \<times> operations_db" where
  "get_upload_operation fl now db session = sync_upload_operation fl now db session"

subsection \<open>Jobs\<close>

definition merge_metadata :: "metadata \<Rightarrow> metadata \<Rightarrow> metadata" where
  "merge_metadata a b = fold (\<lambda>(k, v). dict_set k v) b a"

definition new_job :: "int \<Rightarrow> nat \<Rightarrow> EvidenceOperation \<Rightarrow> string \<Rightarrow> string \<Rightarrow> EvidenceOperationJob" where
  "new_job now i op jt key = \<lparr>job_id = i, job_operation_id = op_id op, job_case_id = op_case_id op, job_evidence_id = evidence_id op,
     job_upload_session_id = upload_session_id op, job_type = jt, job_status = None, job_progress = None, job_owner = None,
     rq_job_id = None, dedupe_key = key, job_created_at = now, job_started_at = None, job_finished_at = None,
     job_last_error = None, job_metadata = []\<rparr>"

definition job_key :: "EvidenceOperationJob \<Rightarrow> nat \<times> string \<times> string" where
  "job_key j = (job_operation_id j, job_type j, dedupe_key j)"

definition upsert_operation_job :: "int \<Rightarrow> operations_db \<Rightarrow> EvidenceOperation \<Rightarrow> string \<Rightarrow> string option \<Rightarrow> string \<Rightarrow> string
    \<Rightarrow> string option \<Rightarrow> metadata \<Rightarrow> op_error + EvidenceOperationJob \<times> operations_db" where
  "upsert_operation_job now db op jt dedupe status owner rq metadata =
    (let key = (if truthy_str dedupe then the dedupe else jt) in
     res_bind (one_or_none (filter (\<lambda>j. job_key j = (op_id op, jt, key)) (jobs db))) (\<lambda>found.
     let j = (case found of Some j \<Rightarrow> j | None \<Rightarrow> new_job now (next_id db) op jt key);
         j' = j\<lparr>job_status := Some status, job_owner := Some owner,
           rq_job_id := (if truthy_str rq then rq else rq_job_id j),
           job_metadata := merge_metadata (job_metadata j) metadata\<rparr> in
     Inr (j', db\<lparr>jobs := save_job j' (jobs db), next_id := (if found = None then next_id db + 1 else next_id db)\<rparr>)))"

definition mark_operation_job_running :: "int \<Rightarrow> operations_db \<Rightarrow> EvidenceOperationJob \<Rightarrow> EvidenceOperationJob \<times> operations_db" where
  "mark_operation_job_running now db j =
    (let j' = j\<lparr>job_status := Some ''running'', job_started_at := Some (case job_started_at j of None \<Rightarrow> now | Some t \<Rightarrow> t),
       job_finished_at := None, job_last_error := None\<rparr> in
     (j', db\<lparr>jobs := save_job j' (jobs db)\<rparr>))"

definition mark_operation_job_finished :: "int \<Rightarrow> operations_db \<Rightarrow> EvidenceOperationJob \<Rightarrow> string \<Rightarrow> string option \<Rightarrow> int option
    \<Rightarrow> EvidenceOperationJob \<times> operations_db" where
  "mark_operation_job_finished now db j status error progress =
    (let j' = j\<lparr>job_status := Some status, job_finished_at := Some now, job_last_error := error,
       job_progress := (case progress of None \<Rightarrow> job_progress j | Some p \<Rightarrow> Some p)\<rparr> in
     (j', db\<lparr>jobs := save_job j' (jobs db)\<rparr>))"

text \<open>The newest active job; of several created at the same instant, the first row.\<close>

definition active_job_for_operation :: "operations_db \<Rightarrow> EvidenceOperation \<Rightarrow> string \<Rightarrow> EvidenceOperationJob option" where
  "active_job_for_operation db op jt =
    (case sort_key (\<lambda>j. - job_created_at j) (filter (\<lambda>j. job_operation_id j = op_id op \<and> job_type j = jt
        \<and> (case job_status j of None \<Rightarrow> False | Some s \<Rightarrow> s \<in> ACTIVE_JOB_STATUSES)) (jobs db)) of
       [] \<Rightarrow> None | j # _ \<Rightarrow> Some j)"

subsection \<open>Reconciliation\<close>

record reconcile_stats =
  sessions_without_operations :: nat
  operations_without_sessions :: nat
  operations_synced_from_evidence :: nat
  expired_uploads :: nat
  orphan_upload_dirs :: nat
  removed_empty_dirs :: nat

definition no_stats :: reconcile_stats where
  "no_stats = \<lparr>sessions_without_operations = 0, operations_without_sessions = 0, operations_synced_from_evidence = 0,
     expired_uploads = 0, orphan_upload_dirs = 0, removed_empty_dirs = 0\<rparr>"

text \<open>\<^verbatim>\<open>_cleanup_storage\<close>: the directory of the session's staged bytes; a server path and a unified session have none of their own.\<close>

definition cleanup_storage :: "EvidenceUploadSession \<Rightarrow> upload_dir list \<Rightarrow> upload_dir list" where
  "cleanup_storage session dirs =
    (if is_server_path session \<or> meta_get (session_metadata session) ''backend'' = Some ''unified'' then dirs
     else filter (\<lambda>d. dir_name d \<noteq> session_id session) dirs)"

definition expires :: "int \<Rightarrow> EvidenceUploadSession \<Rightarrow> bool" where
  "expires now session \<longleftrightarrow> meta_get (session_metadata session) ''backend'' \<noteq> Some ''unified''
     \<and> session_status session \<in> {''created'', ''uploading'', ''interrupted'', ''staged''}
     \<and> is_before_now (expires_at session) now"

definition expire_session :: "EvidenceUploadSession \<Rightarrow> EvidenceUploadSession" where
  "expire_session session = session\<lparr>session_status := ''expired'',
     failure_message := Some ''Upload session expired during reconciliation.''\<rparr>"

definition save_session :: "EvidenceUploadSession \<Rightarrow> EvidenceUploadSession list \<Rightarrow> EvidenceUploadSession list" where
  "save_session s ss = map (\<lambda>s'. if session_id s' = session_id s then s else s') ss"

definition reconcile_session :: "(rat \<Rightarrow> rat) \<Rightarrow> int \<Rightarrow> EvidenceUploadSession \<Rightarrow> reconcile_stats \<times> operations_db
    \<Rightarrow> op_error + reconcile_stats \<times> operations_db" where
  "reconcile_session fl now session st =
    (let (stats, db) = st in
     res_bind (one_or_none (filter (\<lambda>op. upload_session_id op = Some (session_id session)) (operations db))) (\<lambda>before.
     let stats1 = (if before = None then stats\<lparr>sessions_without_operations := sessions_without_operations stats + 1\<rparr> else stats);
         (session', stats2, db2) =
           (if expires now session
            then (expire_session session, stats1\<lparr>expired_uploads := expired_uploads stats1 + 1\<rparr>,
                  db\<lparr>sessions := save_session (expire_session session) (sessions db),
                     upload_dirs := cleanup_storage session (upload_dirs db)\<rparr>)
            else (session, stats1, db)) in
     res_bind (sync_upload_operation fl now db2 session') (\<lambda>(op, db3). Inr (stats2, db3))))"

text \<open>An operation whose session is not among those looked at fails.\<close>

definition reconcile_missing :: "int \<Rightarrow> string set \<Rightarrow> EvidenceOperation \<Rightarrow> reconcile_stats \<times> operations_db
    \<Rightarrow> op_error + reconcile_stats \<times> operations_db" where
  "reconcile_missing now session_ids op st =
    (let (stats, db) = st in
     if (case upload_session_id op of None \<Rightarrow> True | Some sid \<Rightarrow> sid \<in> session_ids)
       \<or> (case op_status op of None \<Rightarrow> False | Some s \<Rightarrow> s \<in> TERMINAL_OPERATION_STATUSES) then Inr st
     else res_bind (transition_operation now op ''failed'' (Some ''session_missing'') (Some ''reconciler'')
         (Some ''Upload session is missing for active operation.'') True) (\<lambda>op'.
       Inr (stats\<lparr>operations_without_sessions := operations_without_sessions stats + 1\<rparr>,
         db\<lparr>operations := save_operation op' (operations db)\<rparr>)))"

definition reconcile_evidence :: "int \<Rightarrow> EvidenceOperation \<Rightarrow> reconcile_stats \<times> operations_db
    \<Rightarrow> op_error + reconcile_stats \<times> operations_db" where
  "reconcile_evidence now op st =
    (let (stats, db) = st;
         done = (\<lambda>status stage error. res_bind (transition_operation now op status (Some stage) (Some ''database'') error True) (\<lambda>op'.
           Inr (stats\<lparr>operations_synced_from_evidence := operations_synced_from_evidence stats + 1\<rparr>,
             db\<lparr>operations := save_operation op' (operations db)\<rparr>))) in
     case Option.bind (evidence_id op) (map_of (evidences db)) of
       None \<Rightarrow> Inr st
     | Some ingest_status \<Rightarrow>
         if ingest_status \<in> {''completed'', ''completed_with_warnings''} then done ''completed'' ''processing_complete'' None
         else if ingest_status = ''failed'' then done ''failed'' ''processing_failed'' (Some ''Evidence processing failed.'')
         else Inr st)"

definition reconcile_dirs :: "int \<Rightarrow> int \<Rightarrow> string set \<Rightarrow> reconcile_stats \<times> operations_db \<Rightarrow> reconcile_stats \<times> operations_db" where
  "reconcile_dirs now retention_seconds session_ids st =
    (let (stats, db) = st;
         orphans = filter (\<lambda>d. dir_is_dir d \<and> dir_name d \<notin> session_ids) (upload_dirs db);
         removed = filter (\<lambda>d. now - dir_mtime d > retention_seconds \<and> dir_is_empty d) orphans in
     (stats\<lparr>orphan_upload_dirs := orphan_upload_dirs stats + length orphans,
            removed_empty_dirs := removed_empty_dirs stats + length removed\<rparr>,
      db\<lparr>upload_dirs := filter (\<lambda>d. d \<notin> set removed) (upload_dirs db)\<rparr>))"

definition reconcile_evidence_operations :: "(rat \<Rightarrow> rat) \<Rightarrow> int \<Rightarrow> int \<Rightarrow> operations_db \<Rightarrow> op_error + reconcile_stats \<times> operations_db" where
  "reconcile_evidence_operations fl now retention_seconds db =
    (let looked_at = take 500 (sessions db); session_ids = session_id ` set looked_at in
     res_bind (fold_res (reconcile_session fl now) looked_at (no_stats, db)) (\<lambda>(stats1, db1).
     res_bind (fold_res (reconcile_missing now session_ids)
         (take 500 (filter (\<lambda>op. upload_session_id op \<noteq> None) (operations db1))) (stats1, db1)) (\<lambda>(stats2, db2).
     res_bind (fold_res (reconcile_evidence now)
         (take 500 (filter (\<lambda>op. evidence_id op \<noteq> None \<and> op_status op \<in> {Some ''queued'', Some ''running''}) (operations db2))) (stats2, db2)) (\<lambda>(stats3, db3).
     Inr (reconcile_dirs now retention_seconds session_ids (stats3, db3))))))"

end
