(* ===== verification/Operations_Properties.thy ===== *)
theory Operations_Properties
  imports Evidence_Operations
begin

section \<open>What evidence operations guarantee\<close>

text \<open>
  The invariant of the tables and that every operation on them keeps it, the effect of a
  synchronisation, the transition rules and the progress figure.
\<close>

subsection \<open>The invariant\<close>

text \<open>An operation has a completion time exactly when its status is terminal.\<close>

definition op_wf :: "EvidenceOperation \<Rightarrow> bool" where
  "op_wf op \<longleftrightarrow> kind op = ''upload''
     \<and> (completed_at op \<noteq> None \<longleftrightarrow> (case op_status op of None \<Rightarrow> False | Some s \<Rightarrow> s \<in> TERMINAL_OPERATION_STATUSES))"

definition ops_wf :: "nat \<Rightarrow> EvidenceOperation list \<Rightarrow> bool" where
  "ops_wf n ops \<longleftrightarrow> distinct (map op_id ops) \<and> (\<forall>op \<in> set ops. op_id op < n \<and> op_wf op)
     \<and> (\<forall>o1 \<in> set ops. \<forall>o2 \<in> set ops. upload_session_id o1 = upload_session_id o2 \<longrightarrow> upload_session_id o1 \<noteq> None \<longrightarrow> op_id o1 = op_id o2)"

definition jobs_wf :: "nat \<Rightarrow> EvidenceOperationJob list \<Rightarrow> bool" where
  "jobs_wf n js \<longleftrightarrow> distinct (map job_id js) \<and> distinct (map job_key js) \<and> (\<forall>j \<in> set js. job_id j < n)"

definition db_wf :: "operations_db \<Rightarrow> bool" where
  "db_wf db \<longleftrightarrow> ops_wf (next_id db) (operations db) \<and> jobs_wf (next_id db) (jobs db)"

lemma ops_wfD:
  assumes "ops_wf n ops"
  shows "distinct (map op_id ops)" "op \<in> set ops \<Longrightarrow> op_id op < n" "op \<in> set ops \<Longrightarrow> op_wf op"
    "o1 \<in> set ops \<Longrightarrow> o2 \<in> set ops \<Longrightarrow> upload_session_id o1 = Some sid \<Longrightarrow> upload_session_id o2 = Some sid \<Longrightarrow> op_id o1 = op_id o2"
  using assms unfolding ops_wf_def by (blast, blast, blast, metis option.distinct(1))

lemma ops_wf_mono: "ops_wf n ops \<Longrightarrow> n \<le> m \<Longrightarrow> ops_wf m ops"
  unfolding ops_wf_def by (meson less_le_trans)

lemma one_or_none_unique:
  assumes "distinct xs" "\<And>x y. x \<in> set xs \<Longrightarrow> y \<in> set xs \<Longrightarrow> P x \<Longrightarrow> P y \<Longrightarrow> x = y"
  shows "one_or_none (filter P xs) = Inr (find P xs)"
  using assms
proof (induction xs)
  case Nil
  then show ?case by (simp add: one_or_none_def)
next
  case (Cons x xs)
  show ?case
  proof (cases "P x")
    case True
    have "y \<notin> set xs" if "P y" for y using Cons.prems(1) Cons.prems(2) [of x y] True that by auto
    then have "filter P xs = []" by (auto simp: filter_empty_conv)
    with True show ?thesis by (simp add: one_or_none_def)
  next
    case False
    have "one_or_none (filter P xs) = Inr (find P xs)" using Cons.prems by (intro Cons.IH) auto
    with False show ?thesis by simp
  qed
qed

lemma ops_wf_unique:
  assumes "ops_wf n ops" "o1 \<in> set ops" "o2 \<in> set ops" "upload_session_id o1 = Some sid" "upload_session_id o2 = Some sid"
  shows "o1 = o2"
  using ops_wfD(4) [OF assms] ops_wfD(1) [OF assms(1)] assms(2,3) by (metis distinct_map inj_on_def)

lemma ops_wf_find:
  assumes "ops_wf n ops"
  shows "one_or_none (session_operations ops sid) = Inr (find (\<lambda>op. upload_session_id op = Some sid) ops)"
    "one_or_none (filter (\<lambda>op. upload_session_id op = Some sid) ops) = Inr (find (\<lambda>op. upload_session_id op = Some sid) ops)"
proof -
  have k: "session_operations ops sid = filter (\<lambda>op. upload_session_id op = Some sid) ops"
    unfolding session_operations_def by (rule filter_cong) (use ops_wfD(3) [OF assms] in \<open>auto simp: op_wf_def\<close>)
  have "distinct ops" using ops_wfD(1) [OF assms] by (simp add: distinct_map)
  then show u: "one_or_none (filter (\<lambda>op. upload_session_id op = Some sid) ops) = Inr (find (\<lambda>op. upload_session_id op = Some sid) ops)"
    by (rule one_or_none_unique) (rule ops_wf_unique [OF assms])
  then show "one_or_none (session_operations ops sid) = Inr (find (\<lambda>op. upload_session_id op = Some sid) ops)" by (simp add: k)
qed

subsection \<open>Saving rows\<close>

lemma save_operation_new: "op_id op \<notin> op_id ` set ops \<Longrightarrow> save_operation op ops = ops @ [op]"
  by (simp add: save_operation_def)

lemma save_operation_ids: "op_id op \<in> op_id ` set ops \<Longrightarrow> map op_id (save_operation op ops) = map op_id ops"
  by (simp add: save_operation_def)

lemma save_operation_mem:
  "x \<in> set (save_operation op ops) \<Longrightarrow> x = op \<or> x \<in> set ops \<and> op_id x \<noteq> op_id op"
  by (auto simp: save_operation_def image_iff split: if_splits)

lemma save_operation_self: "op \<in> set (save_operation op ops)"
  by (force simp: save_operation_def)

text \<open>Saving an operation that keeps its session, or a new one of a session that has none.\<close>

lemma save_operation_wf:
  assumes "ops_wf n ops" "op_wf op" "op_id op < m" "n \<le> m"
    and "\<And>x. x \<in> set ops \<Longrightarrow> upload_session_id x = upload_session_id op \<Longrightarrow> upload_session_id op \<noteq> None \<Longrightarrow> op_id x = op_id op"
  shows "ops_wf m (save_operation op ops)"
proof -
  note mem = save_operation_mem [of _ op ops]
  have "distinct (map op_id (save_operation op ops))"
    using ops_wfD(1) [OF assms(1)] save_operation_ids [of op ops] save_operation_new [of op ops]
    by (cases "op_id op \<in> op_id ` set ops") auto
  moreover have "op_id x < m \<and> op_wf x" if "x \<in> set (save_operation op ops)" for x
    using mem [OF that] ops_wfD(2,3) [OF assms(1), of x] assms(2-4) by auto
  moreover have "op_id x = op_id y"
    if x: "x \<in> set (save_operation op ops)" and y: "y \<in> set (save_operation op ops)"
      and u: "upload_session_id x = upload_session_id y" "upload_session_id x \<noteq> None" for x y
  proof -
    obtain sid where sid: "upload_session_id x = Some sid" "upload_session_id y = Some sid" using u by auto
    from mem [OF x] mem [OF y] show ?thesis
    proof (elim disjE)
      assume "x \<in> set ops \<and> op_id x \<noteq> op_id op" "y \<in> set ops \<and> op_id y \<noteq> op_id op"
      then show ?thesis using ops_wfD(4) [OF assms(1) _ _ sid] by blast
    qed (use assms(5) [of x] assms(5) [of y] sid in auto)
  qed
  ultimately show ?thesis unfolding ops_wf_def by blast
qed

subsection \<open>Transitions\<close>

lemma transition_forced: "\<exists>op'. transition_operation now op status stage owner error True = Inr op'"
  by (simp add: transition_operation_def)

lemma transition_frame:
  assumes "transition_operation now op status stage owner error force = Inr op'"
  shows "op_id op' = op_id op" "upload_session_id op' = upload_session_id op" "kind op' = kind op" "op_status op' = Some status"
    "evidence_id op' = evidence_id op"
  using assms by (auto simp: transition_operation_def split: if_splits)

lemma transition_wf:
  assumes "transition_operation now op status stage owner error force = Inr op'" "kind op = ''upload''"
  shows "op_wf op'"
  using assms by (auto simp: transition_operation_def op_wf_def split: if_splits option.splits)

lemma transition_same:
  assumes "op_status op = Some status" "op_stage op = stage" "op_owner op = owner" "op_last_error op = error" "stage \<noteq> None" "owner \<noteq> None"
    and "op_case_id op = case_id" "evidence_id op = ev"
    and "completed_at op = (if status \<in> TERMINAL_OPERATION_STATUSES
      then (case completed_at op of None \<Rightarrow> Some now | Some t \<Rightarrow> Some t) else None)"
  shows "transition_operation now (op\<lparr>op_case_id := case_id, evidence_id := ev\<rparr>) status stage owner error True = Inr op"
proof -
  have "op\<lparr>op_case_id := case_id, evidence_id := ev\<rparr> = op" using assms(7,8) by simp
  moreover have "op\<lparr>op_status := Some status, op_stage := stage, op_owner := owner, op_last_error := error, completed_at := completed_at op\<rparr> = op"
    using assms(1-4) by (intro EvidenceOperation.equality) simp_all
  ultimately show ?thesis using assms(5,6,9) by (auto simp: transition_operation_def)
qed

subsection \<open>Synchronising an upload\<close>

lemma derive_stage_stable:
  "derive_operation_stage session (Some (derive_operation_stage session st)) = derive_operation_stage session st"
  by (auto simp: derive_operation_stage_def split: option.splits)

definition session_evidence :: "operations_db \<Rightarrow> EvidenceUploadSession \<Rightarrow> string option" where
  "session_evidence db session = (case uuid_or_none (promoted_evidence_id session) of None \<Rightarrow> None
     | Some e \<Rightarrow> if map_of (evidences db) e = None then None else Some e)"

text \<open>The operation says what its session says.\<close>

definition synced :: "(rat \<Rightarrow> rat) \<Rightarrow> operations_db \<Rightarrow> EvidenceUploadSession \<Rightarrow> EvidenceOperation \<Rightarrow> bool" where
  "synced fl db session op \<longleftrightarrow> upload_session_id op = Some (session_id session) \<and> op_case_id op = session_case_id session
     \<and> evidence_id op = session_evidence db session \<and> op_status op = Some (operation_status (session_status session))
     \<and> op_owner op = Some (session_owner (session_status session)) \<and> op_last_error op = failure_message session
     \<and> (\<exists>st. op_stage op = Some (derive_operation_stage session st)) \<and> op_progress op = operation_progress fl session
     \<and> op_bytes_received op = Some (int_or (Some (bytes_received session)) (size_bytes session))
     \<and> op_expected_size op = (if int_or (expected_size session) (size_bytes session) = 0 then None else Some (int_or (expected_size session) (size_bytes session)))
     \<and> op_metadata op = Some (session_op_metadata session) \<and> op_wf op"

lemma sync_upload_operation_wf:
  assumes "db_wf db"
  obtains op db' where "sync_upload_operation fl now db session = Inr (op, db')" "db_wf db'" "op \<in> set (operations db')"
    "synced fl db session op"
    "sessions db' = sessions db" "evidences db' = evidences db" "jobs db' = jobs db"
proof -
  let ?find = "find (\<lambda>op. upload_session_id op = Some (session_id session)) (operations db)"
  have w: "ops_wf (next_id db) (operations db)" "jobs_wf (next_id db) (jobs db)" using assms by (simp_all add: db_wf_def)
  have f: "get_operation_for_session db session = Inr ?find"
    unfolding get_operation_for_session_def by (rule ops_wf_find [OF w(1)])
  define op0 where "op0 = (case ?find of Some op \<Rightarrow> op | None \<Rightarrow> new_operation now (next_id db) session)"
  define pr where "pr = session_evidence db session"
  have op0: "upload_session_id op0 = Some (session_id session)" "kind op0 = ''upload''"
    using find_SomeD [of _ "operations db"] w(1) by (auto simp: op0_def new_operation_def ops_wf_def op_wf_def split: option.splits)
  obtain op1 where t: "transition_operation now (op0\<lparr>op_case_id := session_case_id session, evidence_id := pr\<rparr>)
       (operation_status (session_status session)) (Some (derive_operation_stage session (op_stage op0)))
       (Some (session_owner (session_status session))) (failure_message session) True = Inr op1"
    using transition_forced by blast
  define op2 where "op2 = op1\<lparr>op_progress := operation_progress fl session,
           op_bytes_received := Some (int_or (Some (bytes_received session)) (size_bytes session)),
           op_expected_size := (if int_or (expected_size session) (size_bytes session) = 0 then None else Some (int_or (expected_size session) (size_bytes session))),
           op_metadata := Some (session_op_metadata session)\<rparr>"
  have op2: "op_id op2 = op_id op0" "upload_session_id op2 = Some (session_id session)"
    "op_status op2 = Some (operation_status (session_status session))" "op_wf op2"
    using transition_frame [OF t] transition_wf [OF t] op0 by (simp_all add: op2_def op_wf_def)
  define m where "m = (if ?find = None then next_id db + 1 else next_id db)"
  have lt: "op_id op2 < m" "next_id db \<le> m"
    using find_SomeD [of _ "operations db"] w(1) by (auto simp: op2(1) op0_def m_def new_operation_def ops_wf_def split: option.splits)
  have same: "op_id x = op_id op2" if "x \<in> set (operations db)" "upload_session_id x = upload_session_id op2" for x
  proof (cases ?find)
    case None
    then show ?thesis using that op2(2) by (auto simp: find_None_iff)
  next
    case (Some y)
    then show ?thesis using find_SomeD [OF Some] ops_wf_unique [OF w(1) that(1)] that(2) op2 by (auto simp: op0_def)
  qed
  have ops: "ops_wf m (save_operation op2 (operations db))"
    by (rule save_operation_wf [OF w(1) op2(4) lt(1,2)]) (rule same)
  have js: "jobs_wf m (jobs db)" using w(2) lt(2) by (auto simp: jobs_wf_def)
  have "sync_upload_operation fl now db session = Inr (op2, db\<lparr>operations := save_operation op2 (operations db), next_id := m\<rparr>)"
    using t by (simp add: sync_upload_operation_def f Let_def op0_def [symmetric] session_evidence_def [symmetric] pr_def [symmetric] op2_def m_def)
  moreover have "synced fl db session op2"
    using t op2 by (auto simp: synced_def op2_def transition_operation_def pr_def)
  ultimately show ?thesis using that op2 ops js save_operation_self [of op2 "operations db"] by (simp add: db_wf_def)
qed

lemma save_operation_same: "distinct (map op_id ops) \<Longrightarrow> op \<in> set ops \<Longrightarrow> save_operation op ops = ops"
  by (auto simp: save_operation_def map_idI distinct_map inj_on_def)

text \<open>Synchronising again changes nothing.\<close>

lemma sync_synced:
  assumes "db_wf db" "op \<in> set (operations db)" "synced fl db session op"
  shows "sync_upload_operation fl now db session = Inr (op, db)"
proof -
  have w: "ops_wf (next_id db) (operations db)" using assms(1) by (simp add: db_wf_def)
  have u: "upload_session_id op = Some (session_id session)" using assms(3) by (simp add: synced_def)
  have "find (\<lambda>op. upload_session_id op = Some (session_id session)) (operations db) = Some op"
  proof (cases "find (\<lambda>op. upload_session_id op = Some (session_id session)) (operations db)")
    case None
    then show ?thesis using u assms(2) by (auto simp: find_None_iff)
  next
    case (Some x)
    from find_SomeD [OF Some] have "x = op" using ops_wf_unique [OF w _ assms(2) _ u] by blast
    with Some show ?thesis by simp
  qed
  then have f: "get_operation_for_session db session = Inr (Some op)"
    unfolding get_operation_for_session_def using ops_wf_find(1) [OF w] by simp
  have c: "completed_at op = (if operation_status (session_status session) \<in> TERMINAL_OPERATION_STATUSES
      then (case completed_at op of None \<Rightarrow> Some now | Some t \<Rightarrow> Some t) else None)"
    using assms(3) by (auto simp: synced_def op_wf_def split: option.splits)
  have t: "transition_operation now (op\<lparr>op_case_id := session_case_id session, evidence_id := session_evidence db session\<rparr>)
       (operation_status (session_status session)) (Some (derive_operation_stage session (op_stage op)))
       (Some (session_owner (session_status session))) (failure_message session) True = Inr op"
    by (rule transition_same [OF _ _ _ _ _ _ _ _ c]) (use assms(3) in \<open>auto simp: synced_def derive_stage_stable\<close>)
  have "op = op\<lparr>op_progress := operation_progress fl session,
           op_bytes_received := Some (int_or (Some (bytes_received session)) (size_bytes session)),
           op_expected_size := (if int_or (expected_size session) (size_bytes session) = 0 then None else Some (int_or (expected_size session) (size_bytes session))),
           op_metadata := Some (session_op_metadata session)\<rparr>"
    using assms(3) by (intro EvidenceOperation.equality) (simp_all add: synced_def)
  then show ?thesis
    using t save_operation_same [OF ops_wfD(1) [OF w] assms(2)]
    by (simp add: sync_upload_operation_def f session_evidence_def [symmetric] Let_def)
qed

subsection \<open>Jobs\<close>

lemma jobs_wf_one:
  assumes "jobs_wf n js"
  shows "one_or_none (filter (\<lambda>j. job_key j = k) js) = Inr (find (\<lambda>j. job_key j = k) js)"
proof -
  have "distinct js" "inj_on job_key (set js)" using assms by (simp_all add: jobs_wf_def distinct_map)
  then show ?thesis by (intro one_or_none_unique) (auto dest: inj_onD)
qed

lemma save_job_old:
  assumes "jobs_wf n js" "j0 \<in> set js" "job_id j = job_id j0" "job_key j = job_key j0" "n \<le> m"
  shows "jobs_wf m (save_job j js)"
proof -
  have "job_id j \<in> job_id ` set js" using assms(2,3) by auto
  then have s: "save_job j js = map (\<lambda>j'. if job_id j' = job_id j then j else j') js" by (simp add: save_job_def)
  have "inj_on job_id (set js)" using assms(1) by (simp add: jobs_wf_def distinct_map)
  then have "job_key x = job_key j" if "x \<in> set js" "job_id x = job_id j" for x
    using that assms(2-4) by (metis inj_onD)
  then have "map job_key (save_job j js) = map job_key js" unfolding s by auto
  moreover have "map job_id (save_job j js) = map job_id js" unfolding s by auto
  moreover have "job_id x < m" if "x \<in> set (save_job j js)" for x
  proof -
    have "job_id x \<in> set (map job_id (save_job j js))" using that by simp
    then have "job_id x \<in> job_id ` set js" unfolding \<open>map job_id (save_job j js) = map job_id js\<close> by simp
    then show ?thesis using assms(1,5) by (auto simp: jobs_wf_def)
  qed
  ultimately show ?thesis using assms(1) by (simp add: jobs_wf_def)
qed

lemma save_job_new:
  assumes "jobs_wf n js" "job_id j = n" "\<forall>x \<in> set js. job_key x \<noteq> job_key j"
  shows "jobs_wf (n + 1) (save_job j js)"
proof -
  have "job_id j \<notin> job_id ` set js" using assms(1,2) by (auto simp: jobs_wf_def)
  then show ?thesis using assms by (auto simp: save_job_def jobs_wf_def less_Suc_eq)
qed

lemma upsert_operation_job_wf:
  assumes "db_wf db"
  shows "\<exists>j db'. upsert_operation_job now db op jt dedupe status owner rq metadata = Inr (j, db') \<and> db_wf db'
    \<and> j \<in> set (jobs db') \<and> job_status j = Some status \<and> operations db' = operations db"
proof -
  define key where "key = (if truthy_str dedupe then the dedupe else jt)"
  define found where "found = find (\<lambda>j. job_key j = (op_id op, jt, key)) (jobs db)"
  define j0 where "j0 = (case found of Some j \<Rightarrow> j | None \<Rightarrow> new_job now (next_id db) op jt key)"
  define j1 where "j1 = j0\<lparr>job_status := Some status, job_owner := Some owner,
       rq_job_id := (if truthy_str rq then rq else rq_job_id j0), job_metadata := merge_metadata (job_metadata j0) metadata\<rparr>"
  define m where "m = (if found = None then next_id db + 1 else next_id db)"
  have w: "jobs_wf (next_id db) (jobs db)" "ops_wf (next_id db) (operations db)" using assms by (simp_all add: db_wf_def)
  have "upsert_operation_job now db op jt dedupe status owner rq metadata = Inr (j1, db\<lparr>jobs := save_job j1 (jobs db), next_id := m\<rparr>)"
    unfolding upsert_operation_job_def key_def [symmetric] Let_def jobs_wf_one [OF w(1)] res_bind_Inr found_def [symmetric]
      j0_def [symmetric] j1_def [symmetric] m_def [symmetric] by (rule refl)
  moreover have "jobs_wf m (save_job j1 (jobs db))"
  proof (cases found)
    case None
    then have "\<forall>x \<in> set (jobs db). job_key x \<noteq> (op_id op, jt, key)" by (auto simp: found_def find_None_iff)
    with None show ?thesis
      using save_job_new [OF w(1), of j1] by (simp add: m_def j1_def j0_def new_job_def job_key_def)
  next
    case (Some j)
    then have "j \<in> set (jobs db)" unfolding found_def by (auto dest: find_SomeD)
    then show ?thesis using Some by (intro save_job_old [OF w(1)]) (auto simp: m_def j1_def j0_def job_key_def)
  qed
  moreover have "ops_wf m (operations db)" using w(2) by (rule ops_wf_mono) (simp add: m_def)
  moreover have "j1 \<in> set (save_job j1 (jobs db))" by (force simp: save_job_def)
  ultimately show ?thesis by (simp add: db_wf_def j1_def)
qed

lemma mark_job_wf:
  assumes "db_wf db" "j \<in> set (jobs db)"
  shows "db_wf (snd (mark_operation_job_running now db j))" "db_wf (snd (mark_operation_job_finished now db j status error progress))"
  using assms by (auto simp: db_wf_def mark_operation_job_running_def mark_operation_job_finished_def Let_def job_key_def
      intro!: save_job_old [of _ _ j])

subsection \<open>Reconciliation\<close>

definition op_keys :: "EvidenceOperation list \<Rightarrow> (nat \<times> string option) list" where
  "op_keys ops = map (\<lambda>op. (op_id op, upload_session_id op)) ops"

lemma save_operation_old:
  assumes "ops_wf n ops" "(op_id op, upload_session_id op) \<in> set (op_keys ops)" "op_wf op"
  shows "ops_wf n (save_operation op ops) \<and> op_keys (save_operation op ops) = op_keys ops"
proof -
  obtain o0 where o0: "o0 \<in> set ops" "op_id o0 = op_id op" "upload_session_id o0 = upload_session_id op"
    using assms(2) by (auto simp: op_keys_def)
  have "op_id x = op_id op" if "x \<in> set ops" "upload_session_id x = upload_session_id op" "upload_session_id op \<noteq> None" for x
    using ops_wfD(4) [OF assms(1) that(1) o0(1)] that o0 by auto
  then have "ops_wf n (save_operation op ops)"
    using ops_wfD(2) [OF assms(1) o0(1)] o0(2) by (intro save_operation_wf [OF assms(1,3)]) auto
  moreover have "op_id op \<in> op_id ` set ops" using o0 by (metis imageI)
  moreover have "upload_session_id x = upload_session_id op" if "x \<in> set ops" "op_id x = op_id op" for x
    using ops_wfD(1) [OF assms(1)] that o0 by (metis distinct_map inj_on_def)
  ultimately show ?thesis by (auto simp: save_operation_def op_keys_def)
qed

text \<open>A round that forces a transition of a row read earlier.\<close>

lemma forced_save_wf:
  assumes "db_wf db" "(op_id op, upload_session_id op) \<in> set (op_keys (operations db))" "kind op = ''upload''"
    and "transition_operation now op status stage owner error force = Inr op'"
  shows "db_wf (db\<lparr>operations := save_operation op' (operations db)\<rparr>)
    \<and> op_keys (save_operation op' (operations db)) = op_keys (operations db)"
  using assms(1,2) transition_frame [OF assms(4)] transition_wf [OF assms(4,3)] save_operation_old [of "next_id db" "operations db" op']
  by (simp add: db_wf_def)

lemma reconcile_session_wf:
  assumes "db_wf (snd st)"
  shows "\<exists>st'. reconcile_session fl now session st = Inr st' \<and> db_wf (snd st')"
proof -
  obtain stats db where st: "st = (stats, db)" by force
  have w: "db_wf db" using assms st by simp
  have f: "one_or_none (filter (\<lambda>op. upload_session_id op = Some (session_id session)) (operations db))
      = Inr (find (\<lambda>op. upload_session_id op = Some (session_id session)) (operations db))"
    using w ops_wf_find(2) unfolding db_wf_def by blast
  have e: "db_wf (db\<lparr>sessions := ss, upload_dirs := ds\<rparr>)" for ss ds using w by (simp add: db_wf_def)
  obtain op1 db1 where s1: "sync_upload_operation fl now db session = Inr (op1, db1)" "db_wf db1"
    using sync_upload_operation_wf [OF w] by blast
  obtain op2 db2 where s2: "sync_upload_operation fl now (db\<lparr>sessions := save_session (expire_session session) (sessions db),
      upload_dirs := cleanup_storage session (upload_dirs db)\<rparr>) (expire_session session) = Inr (op2, db2)" "db_wf db2"
    using sync_upload_operation_wf [OF e] by blast
  show ?thesis
    using s1 s2 by (cases "expires now session") (simp_all add: reconcile_session_def st f Let_def)
qed

definition loop_inv :: "(nat \<times> string option) list \<Rightarrow> reconcile_stats \<times> operations_db \<Rightarrow> bool" where
  "loop_inv ks st \<longleftrightarrow> db_wf (snd st) \<and> op_keys (operations (snd st)) = ks"

lemma reconcile_missing_wf:
  assumes "loop_inv ks st" "(op_id op, upload_session_id op) \<in> set ks" "kind op = ''upload''"
  shows "\<exists>st'. reconcile_missing now ids op st = Inr st' \<and> loop_inv ks st'"
proof -
  obtain op' where t: "transition_operation now op ''failed'' (Some ''session_missing'') (Some ''reconciler'')
         (Some ''Upload session is missing for active operation.'') True = Inr op'" using transition_forced by blast
  show ?thesis
    using assms forced_save_wf [OF _ _ assms(3) t, of "snd st"] by (cases st) (auto simp: loop_inv_def reconcile_missing_def t Let_def)
qed

lemma reconcile_evidence_wf:
  assumes "loop_inv ks st" "(op_id op, upload_session_id op) \<in> set ks" "kind op = ''upload''"
  shows "\<exists>st'. reconcile_evidence now op st = Inr st' \<and> loop_inv ks st'"
proof -
  obtain stats db where st: "st = (stats, db)" by force
  obtain op1 where t1: "transition_operation now op ''completed'' (Some ''processing_complete'') (Some ''database'') None True = Inr op1"
    using transition_forced by blast
  obtain op2 where t2: "transition_operation now op ''failed'' (Some ''processing_failed'') (Some ''database'') (Some ''Evidence processing failed.'') True = Inr op2"
    using transition_forced by blast
  have "loop_inv ks (stats', db\<lparr>operations := save_operation op1 (operations db)\<rparr>)"
    "loop_inv ks (stats', db\<lparr>operations := save_operation op2 (operations db)\<rparr>)" for stats'
    using assms forced_save_wf [OF _ _ assms(3) t1, of db] forced_save_wf [OF _ _ assms(3) t2, of db] by (auto simp: loop_inv_def st)
  then show ?thesis
    using assms(1) by (auto simp: reconcile_evidence_def st t1 t2 Let_def split: option.splits)
qed

lemma fold_reconcile_wf:
  assumes "db_wf (snd st)" "set xs \<subseteq> set (operations (snd st))"
    and "\<And>op t ks. loop_inv ks t \<Longrightarrow> (op_id op, upload_session_id op) \<in> set ks \<Longrightarrow> kind op = ''upload'' \<Longrightarrow> \<exists>t'. f op t = Inr t' \<and> loop_inv ks t'"
  shows "\<exists>st'. fold_res f xs st = Inr st' \<and> db_wf (snd st')"
proof -
  have w: "ops_wf (next_id (snd st)) (operations (snd st))" using assms(1) by (simp add: db_wf_def)
  have "\<exists>st'. fold_res f xs st = Inr st' \<and> loop_inv (op_keys (operations (snd st))) st'"
  proof (rule fold_res_total)
    show "loop_inv (op_keys (operations (snd st))) st" using assms(1) by (simp add: loop_inv_def)
    fix op t assume "op \<in> set xs" "loop_inv (op_keys (operations (snd st))) t"
    moreover from this have "op \<in> set (operations (snd st))" using assms(2) by blast
    ultimately show "\<exists>t'. f op t = Inr t' \<and> loop_inv (op_keys (operations (snd st))) t'"
      using assms(3) ops_wfD(3) [OF w, of op] by (auto simp: op_keys_def op_wf_def)
  qed
  then show ?thesis by (auto simp: loop_inv_def)
qed

lemma reconcile_wf:
  assumes "db_wf db"
  shows "\<exists>stats db'. reconcile_evidence_operations fl now retention db = Inr (stats, db') \<and> db_wf db'"
proof -
  define looked ids where "looked = take 500 (sessions db)" and "ids = session_id ` set looked"
  obtain stats1 db1 where 1: "fold_res (reconcile_session fl now) looked (no_stats, db) = Inr (stats1, db1)" "db_wf db1"
    using fold_res_total [of "\<lambda>st. db_wf (snd st)" "(no_stats, db)" looked "reconcile_session fl now"] assms reconcile_session_wf by force
  define l1 where "l1 = take 500 (filter (\<lambda>op. upload_session_id op \<noteq> None) (operations db1))"
  have "set l1 \<subseteq> set (operations db1)" unfolding l1_def by (auto dest!: in_set_takeD)
  then obtain stats2 db2 where 2: "fold_res (reconcile_missing now ids) l1 (stats1, db1) = Inr (stats2, db2)" "db_wf db2"
    using fold_reconcile_wf [of "(stats1, db1)" l1 "reconcile_missing now ids"] 1(2) reconcile_missing_wf by force
  define l2 where "l2 = take 500 (filter (\<lambda>op. evidence_id op \<noteq> None \<and> op_status op \<in> {Some ''queued'', Some ''running''}) (operations db2))"
  have "set l2 \<subseteq> set (operations db2)" unfolding l2_def by (auto dest!: in_set_takeD)
  then obtain stats3 db3 where 3: "fold_res (reconcile_evidence now) l2 (stats2, db2) = Inr (stats3, db3)" "db_wf db3"
    using fold_reconcile_wf [of "(stats2, db2)" l2 "reconcile_evidence now"] 2(2) reconcile_evidence_wf by force
  have "reconcile_evidence_operations fl now retention db = Inr (reconcile_dirs now retention ids (stats3, db3))"
    unfolding reconcile_evidence_operations_def Let_def looked_def [symmetric] ids_def [symmetric]
    using 1(1) 2(1) 3(1) unfolding l1_def l2_def by simp
  then show ?thesis using 3(2) by (simp add: reconcile_dirs_def Let_def db_wf_def)
qed

subsection \<open>The system\<close>

text \<open>
  The tables as requests and workers change them: sessions and evidences in any way, the
  operations and jobs only through the functions of the module.
\<close>

inductive ops_step :: "(rat \<Rightarrow> rat) \<Rightarrow> operations_db \<Rightarrow> operations_db \<Rightarrow> bool" for fl where
  other: "ops_step fl db (db\<lparr>sessions := ss, evidences := es, upload_dirs := ds\<rparr>)"
| sync: "sync_upload_operation fl now db session = Inr (op, db') \<Longrightarrow> ops_step fl db db'"
| transition: "op \<in> set (operations db) \<Longrightarrow> transition_operation now op status stage owner error force = Inr op'
    \<Longrightarrow> ops_step fl db (db\<lparr>operations := save_operation op' (operations db)\<rparr>)"
| upsert: "upsert_operation_job now db op jt dedupe status owner rq metadata = Inr (j, db') \<Longrightarrow> ops_step fl db db'"
| running: "j \<in> set (jobs db) \<Longrightarrow> ops_step fl db (snd (mark_operation_job_running now db j))"
| finished: "j \<in> set (jobs db) \<Longrightarrow> ops_step fl db (snd (mark_operation_job_finished now db j status error progress))"
| reconcile: "reconcile_evidence_operations fl now retention db = Inr (stats, db') \<Longrightarrow> ops_step fl db db'"

inductive ops_reachable :: "(rat \<Rightarrow> rat) \<Rightarrow> operations_db \<Rightarrow> bool" for fl where
  start: "operations db = [] \<Longrightarrow> jobs db = [] \<Longrightarrow> ops_reachable fl db"
| step: "ops_reachable fl db \<Longrightarrow> ops_step fl db db' \<Longrightarrow> ops_reachable fl db'"

lemma ops_step_wf: "ops_step fl db db' \<Longrightarrow> db_wf db \<Longrightarrow> db_wf db'"
proof (induction rule: ops_step.induct)
  case (other db ss es ds)
  then show ?case by (simp add: db_wf_def)
next
  case (sync now db session op db')
  then show ?case using sync_upload_operation_wf [of db fl now session] by auto
next
  case (transition op db now status stage owner error force op')
  then have "ops_wf (next_id db) (operations db)" by (simp add: db_wf_def)
  then have "kind op = ''upload''" using ops_wfD(3) transition.hyps(1) by (auto simp: op_wf_def)
  moreover have "(op_id op, upload_session_id op) \<in> set (op_keys (operations db))" using transition.hyps(1) by (auto simp: op_keys_def)
  ultimately show ?case using forced_save_wf [OF transition.prems] transition.hyps(2) by blast
next
  case (upsert now db op jt dedupe status owner rq metadata j db')
  then show ?case using upsert_operation_job_wf [of db now op jt dedupe status owner rq metadata] by auto
next
  case (reconcile now retention db stats db')
  then show ?case using reconcile_wf [of db fl now retention] by auto
qed (simp_all add: mark_job_wf)

lemma ops_reachable_wf: "ops_reachable fl db \<Longrightarrow> db_wf db"
proof (induction rule: ops_reachable.induct)
  case (start db)
  then show ?case by (simp add: db_wf_def ops_wf_def jobs_wf_def)
next
  case (step db db')
  then show ?case using ops_step_wf by blast
qed

subsection \<open>Progress\<close>

lemma py_round_mono: "x \<le> y \<Longrightarrow> py_round x \<le> py_round y"
proof -
  assume xy: "x \<le> y"
  then have fl: "\<lfloor>x\<rfloor> \<le> \<lfloor>y\<rfloor>" by (rule floor_mono)
  have up: "py_round x \<le> \<lfloor>x\<rfloor> + 1" and lo: "\<lfloor>y\<rfloor> \<le> py_round y" by (simp_all add: py_round_def Let_def)
  show ?thesis
  proof (cases "\<lfloor>x\<rfloor> = \<lfloor>y\<rfloor>")
    case True
    with xy show ?thesis by (auto simp: py_round_def Let_def)
  next
    case False
    with fl up lo show ?thesis by linarith
  qed
qed

lemma py_round_int [simp]: "py_round (rat_of_int n) = n"
  by (simp add: py_round_def)

text \<open>What is used of the rounding of floats.\<close>

definition float_rounding :: "(rat \<Rightarrow> rat) \<Rightarrow> bool" where
  "float_rounding fl \<longleftrightarrow> (\<forall>x y. x \<le> y \<longrightarrow> fl x \<le> fl y) \<and> fl 0 = 0 \<and> fl 1 = 1 \<and> fl 100 = 100"

subsection \<open>Properties\<close>

definition example_session :: EvidenceUploadSession where
  "example_session = \<lparr>session_id = ''s1'', session_case_id = ''c1'', session_status = ''uploading'', original_filename = ''disk.raw'',
     is_folder = False, is_server_path = False, size_bytes = 0, expected_size = Some 200, bytes_received = 50, sha256 = None,
     declared_platform = None, session_metadata = [], expires_at = Some 5, session_created_at = Some 1,
     promoted_evidence_id = None, failure_message = None\<rparr>"

definition example_db :: operations_db where
  "example_db = \<lparr>operations = [], jobs = [], sessions = [example_session], evidences = [], upload_dirs = [], next_id = 0\<rparr>"

lemma example_db_wf: "db_wf example_db"
  by (simp add: db_wf_def ops_wf_def jobs_wf_def example_db_def)

text \<open>C32: However the tables came about, an upload session has at most one operation, a job key at
  most one job, and an operation has a completion time exactly when its status is terminal;
  so looking an operation or a job up never finds several rows.
\<close>

theorem operations_invariant:
  assumes "ops_reachable fl db"
  shows "distinct (map op_id (operations db)) \<and> distinct (map job_key (jobs db))
    \<and> (\<forall>op \<in> set (operations db). completed_at op \<noteq> None \<longleftrightarrow> (case op_status op of None \<Rightarrow> False | Some s \<Rightarrow> s \<in> TERMINAL_OPERATION_STATUSES))
    \<and> (\<forall>session. get_operation_for_session db session = Inr (find (\<lambda>op. upload_session_id op = Some (session_id session)) (operations db)))"
proof -
  have w: "ops_wf (next_id db) (operations db)" "jobs_wf (next_id db) (jobs db)"
    using ops_reachable_wf [OF assms] by (simp_all add: db_wf_def)
  show ?thesis
    using ops_wfD(1,3) [OF w(1)] w(2) ops_wf_find(1) [OF w(1)]
    by (simp add: op_wf_def jobs_wf_def get_operation_for_session_def)
qed

theorem operations_invariant_witness:
  "get_operation_for_session example_db example_session = Inr None"
proof -
  have "ops_reachable id example_db" by (rule ops_reachable.start) (simp_all add: example_db_def)
  from operations_invariant [OF this] show ?thesis by (simp add: example_db_def)
qed

text \<open>C35: Synchronising a session with well-formed tables always succeeds and leaves it with one
  operation that says what the session says; doing it again, at any later time, changes
  nothing.
\<close>

theorem sync_upload_operation_stable:
  assumes "db_wf db"
  shows "\<exists>op db'. sync_upload_operation fl now db session = Inr (op, db') \<and> op \<in> set (operations db') \<and> synced fl db' session op
    \<and> db_wf db' \<and> (\<forall>later. sync_upload_operation fl later db' session = Inr (op, db'))"
proof -
  obtain op db' where s: "sync_upload_operation fl now db session = Inr (op, db')" "db_wf db'" "op \<in> set (operations db')"
    "synced fl db session op" "evidences db' = evidences db"
    using sync_upload_operation_wf [OF assms] by metis
  have "session_evidence db' session = session_evidence db session" unfolding session_evidence_def s(5) by (rule refl)
  with s(4) have "synced fl db' session op" by (simp add: synced_def)
  then show ?thesis using s sync_synced [OF s(2,3)] by blast
qed

theorem sync_upload_operation_stable_witness:
  "\<exists>op db'. sync_upload_operation id 9 example_db example_session = Inr (op, db') \<and> op \<in> set (operations db')
    \<and> sync_upload_operation id 77 db' example_session = Inr (op, db')"
  using sync_upload_operation_stable [OF example_db_wf, of id 9 example_session] by blast

text \<open>C36: Reconciliation of well-formed tables never raises an exception and leaves them well
  formed, whatever the sessions, evidences and directories are.
\<close>

theorem reconciliation_succeeds:
  assumes "db_wf db"
  shows "\<exists>stats db'. reconcile_evidence_operations fl now retention db = Inr (stats, db') \<and> db_wf db'"
  using assms by (rule reconcile_wf)

theorem reconciliation_succeeds_witness:
  "\<exists>stats db'. reconcile_evidence_operations id 100 60 example_db = Inr (stats, db') \<and> db_wf db'"
  using reconciliation_succeeds [OF example_db_wf] .

text \<open>Without force, an operation changes its status only as the table allows; the table names
  only its own statuses, and nothing leaves completed, cancelled or expired.
\<close>

theorem unforced_transitions:
  assumes "transition_operation now op status stage owner error False = Inr op'"
  shows "op_status op' = Some status \<and> (status = current_status op \<or> allowed_transition (current_status op) status)
    \<and> (current_status op \<in> {''completed'', ''cancelled'', ''expired''} \<longrightarrow> status = current_status op)
    \<and> (current_status op \<in> fst ` set ALLOWED_OPERATION_TRANSITIONS \<longrightarrow> status \<in> fst ` set ALLOWED_OPERATION_TRANSITIONS)"
proof -
  have a: "op_status op' = Some status" "status = current_status op \<or> allowed_transition (current_status op) status"
    using assms by (auto simp: transition_operation_def split: if_splits)
  moreover have "current_status op \<in> {''completed'', ''cancelled'', ''expired''} \<longrightarrow> status = current_status op"
    using a(2) by (auto simp: allowed_transition_def ALLOWED_OPERATION_TRANSITIONS_def)
  moreover have closed: "set (concat (map snd ALLOWED_OPERATION_TRANSITIONS)) \<subseteq> fst ` set ALLOWED_OPERATION_TRANSITIONS"
    by (simp add: ALLOWED_OPERATION_TRANSITIONS_def)
  have "allowed_transition c t \<Longrightarrow> t \<in> set (concat (map snd ALLOWED_OPERATION_TRANSITIONS))" for c t
    by (force simp: allowed_transition_def split: option.splits dest: map_of_SomeD)
  with a(2) closed have "current_status op \<in> fst ` set ALLOWED_OPERATION_TRANSITIONS \<longrightarrow> status \<in> fst ` set ALLOWED_OPERATION_TRANSITIONS"
    by blast
  ultimately show ?thesis by blast
qed

theorem unforced_transitions_witness:
  "allowed_transition ''created'' ''uploading'' \<and> (\<exists>op'. transition_operation 0 (new_operation 0 1 example_session) ''uploading'' None None None False = Inr op'
    \<and> op_status op' = Some ''uploading'')"
proof -
  have al: "allowed_transition ''created'' ''uploading''" by (simp add: allowed_transition_def ALLOWED_OPERATION_TRANSITIONS_def)
  have "current_status (new_operation 0 1 example_session) = ''created''" by (simp add: current_status_def new_operation_def)
  with al obtain op' where "transition_operation 0 (new_operation 0 1 example_session) ''uploading'' None None None False = Inr op'"
    by (auto simp: transition_operation_def)
  with al unforced_transitions [OF this] show ?thesis by blast
qed

text \<open>The progress figure lies between 0 and 100, does not fall while more bytes arrive, and
  is 100 once all expected bytes have.
\<close>

theorem operation_progress_bounds:
  assumes "float_rounding fl" and "0 < bytes_received s" and "bytes_received s \<le> n" and "0 < int_or (expected_size s) (size_bytes s)"
  shows "\<exists>p p'. operation_progress fl s = Some p \<and> operation_progress fl (s\<lparr>bytes_received := n\<rparr>) = Some p'
    \<and> 0 \<le> p \<and> p \<le> p' \<and> p' \<le> 100 \<and> (int_or (expected_size s) (size_bytes s) \<le> n \<longrightarrow> p' = 100)"
proof -
  define e where "e = int_or (expected_size s) (size_bytes s)"
  have e: "0 < e" using assms(4) by (simp add: e_def)
  have mono: "x \<le> y \<Longrightarrow> fl x \<le> fl y" for x y using assms(1) by (simp add: float_rounding_def)
  define pc where "pc = (\<lambda>k. py_round (fl (fl (rat_of_int k / rat_of_int e) * 100)))"
  have pm: "pc j \<le> pc k" if "j \<le> k" for j k
    unfolding pc_def using that e by (intro py_round_mono mono mult_right_mono divide_right_mono) auto
  have "pc e = 100"
    using assms(1) e py_round_int [of 100] by (simp add: pc_def float_rounding_def)
  then have full: "100 \<le> pc k" if "e \<le> k" for k using pm [OF that] by simp
  have p: "operation_progress fl s = Some (max 0 (min 100 (pc (bytes_received s))))"
    "operation_progress fl (s\<lparr>bytes_received := n\<rparr>) = Some (max 0 (min 100 (pc n)))"
    unfolding operation_progress_def pc_def using assms(2,3) e by (simp_all add: e_def [symmetric] Let_def) (simp_all add: int_or_def)
  show ?thesis
    using p pm [OF assms(3)] full [of n] by (auto simp: e_def [symmetric])
qed

theorem operation_progress_bounds_witness:
  "\<exists>p p'. operation_progress id example_session = Some p \<and> operation_progress id (example_session\<lparr>bytes_received := 200\<rparr>) = Some p' \<and> p \<le> p' \<and> p' = 100"
proof -
  have "float_rounding id" by (simp add: float_rounding_def)
  moreover have "bytes_received example_session = 50" "int_or (expected_size example_session) (size_bytes example_session) = 200"
    by (simp_all add: example_session_def int_or_def)
  ultimately show ?thesis using operation_progress_bounds [of id example_session 200] by auto
qed

text \<open>
  An operation of a promoted session is reported completed by every synchronisation,
  whatever the evidence's own ingest status is.
\<close>

lemma promoted_session_completes:
  assumes "db_wf db" "session_status session = ''promoted''"
  shows "\<exists>op db'. sync_upload_operation fl now db session = Inr (op, db') \<and> op_status op = Some ''completed''"
proof -
  obtain op db' where s: "sync_upload_operation fl now db session = Inr (op, db')" "synced fl db session op"
    using sync_upload_operation_wf [OF assms(1)] by metis
  then have "op_status op = Some ''completed''" using assms(2) by (simp add: synced_def operation_status_def)
  with s(1) show ?thesis by blast
qed

text \<open>
  An active operation whose session exists but is not among the first 500 is failed as if
  the session were missing.
\<close>

lemma session_beyond_limit_fails:
  assumes "upload_session_id op = Some sid" "sid \<notin> session_id ` set (take 500 (sessions db))" "op_status op = Some ''uploading''"
  shows "\<exists>stats' op'. reconcile_missing now (session_id ` set (take 500 (sessions db))) op (stats, db)
      = Inr (stats', db\<lparr>operations := save_operation op' (operations db)\<rparr>)
    \<and> op_id op' = op_id op \<and> op_status op' = Some ''failed'' \<and> op_stage op' = Some ''session_missing''"
  using assms by (auto simp: reconcile_missing_def TERMINAL_OPERATION_STATUSES_def transition_operation_def)

end
