(* ===== verification/Memory_Platform.thy ===== *)
theory Memory_Platform
  imports Byte_Source
begin

section \<open>Which operating system a memory image holds\<close>

text \<open>
  \<^verbatim>\<open>services/memory/platform\<close> and the decision of \<^verbatim>\<open>services/memory/kernel_signatures.py\<close>:
  the bounded probe in its four stages and the adapters that turn its result into a
  readiness. What the stages read is an argument: the image's first bytes, the tables the
  historical lookup queries, the kernel strings found in the image, and what Volatility
  printed.
\<close>

datatype PlatformFamily = WINDOWS | LINUX | MACOS | UNKNOWN | UNSUPPORTED
datatype Architecture = X86 | X64 | ARM64 | UnknownArchitecture
datatype ProbeConfidence = HIGH | MEDIUM | LOW
datatype ReadinessState = READY | BLOCKED | BLOCKED_SYMBOLS | ReadinessUNSUPPORTED | FAILED | PLATFORM_UNKNOWN
  | PLATFORM_UNSUPPORTED | PROFILE_UNAVAILABLE | FRAMEWORK_UNAVAILABLE | INVALID_EVIDENCE | PARTIALLY_READY

fun platform_value :: "PlatformFamily \<Rightarrow> string" where
  "platform_value WINDOWS = ''windows''"
| "platform_value LINUX = ''linux''"
| "platform_value MACOS = ''macos''"
| "platform_value UNKNOWN = ''unknown''"
| "platform_value UNSUPPORTED = ''unsupported''"

fun confidence_value :: "ProbeConfidence \<Rightarrow> string" where
  "confidence_value HIGH = ''high''"
| "confidence_value MEDIUM = ''medium''"
| "confidence_value LOW = ''low''"

record MemoryProbeResult =
  probe_platform :: PlatformFamily
  probe_format :: string
  probe_architecture :: Architecture
  probe_confidence :: ProbeConfidence
  probe_reason :: string
  evidence_format :: "string option"
  kernel_release :: "string option"
  kernel_banner :: "string option"

definition probe_result :: "PlatformFamily \<Rightarrow> string \<Rightarrow> Architecture \<Rightarrow> ProbeConfidence \<Rightarrow> string \<Rightarrow> MemoryProbeResult" where
  "probe_result p fmt arch conf reason = \<lparr>probe_platform = p, probe_format = fmt, probe_architecture = arch, probe_confidence = conf,
     probe_reason = reason, evidence_format = None, kernel_release = None, kernel_banner = None\<rparr>"

record ReadinessResult =
  readiness_state :: ReadinessState
  readiness_reason :: string
  error_code :: "string option"
  requirement_id :: "string option"
  readiness_metadata :: "(string \<times> string) list"
  requires_discovery :: bool

subsection \<open>Magic bytes\<close>

definition WINDOWS_CRASHDUMP_SIGNATURES :: "string list" where
  "WINDOWS_CRASHDUMP_SIGNATURES = [''PAGE'', ''DU64'', ''MPHD'', ''MAVS'']"

definition HIBERNATION_SIGNATURES :: "string list" where
  "HIBERNATION_SIGNATURES = [''HIBR'', ''PAGEPG'']"

definition LIME_MAGIC_BYTES :: bytes where
  "LIME_MAGIC_BYTES = le_bytes 4 0x4C694D45"

definition ELF_MAGIC :: bytes where
  "ELF_MAGIC = [0x7F] @ bytes_of ''ELF''"

definition classify_from_head :: "bytes \<Rightarrow> PlatformFamily \<times> Architecture \<times> ProbeConfidence \<times> string" where
  "classify_from_head head =
    (if head = [] then (UNKNOWN, UnknownArchitecture, LOW, ''empty_file'')
     else case find (\<lambda>sig. take 4 head = bytes_of sig) WINDOWS_CRASHDUMP_SIGNATURES of
       Some sig \<Rightarrow> (WINDOWS, if sig = ''DU64'' then X64 else UnknownArchitecture, HIGH, ''crashdump_'' @ sig)
     | None \<Rightarrow>
       if \<exists>sig \<in> set HIBERNATION_SIGNATURES. take 4 head = bytes_of sig then (WINDOWS, X64, MEDIUM, ''hibernation_signature'')
       else if length head \<ge> 4 \<and> take 4 head = LIME_MAGIC_BYTES then (LINUX, X64, HIGH, ''lime_signature'')
       else if take 4 head = ELF_MAGIC then (LINUX, X64, LOW, ''elf_header'')
       else if sublist (bytes_of ''KDBG'') head then (WINDOWS, X64, MEDIUM, ''kdbg_signature'')
       else if prefix (bytes_of ''Linux version '') head then (LINUX, X64, MEDIUM, ''linux_banner'')
       else if prefix (bytes_of ''Mach-O'') head then (MACOS, X64, MEDIUM, ''macho_header'')
       else (UNKNOWN, UnknownArchitecture, LOW, ''no_magic_match''))"

subsection \<open>The historical lookup\<close>

record prior_evidence =
  pe_id :: nat
  pe_sha256 :: string
  pe_type :: string
  pe_created_at :: int

record scan_run =
  run_evidence_id :: nat
  run_profile :: string
  run_status :: string
  run_plugins_completed :: int

text \<open>\<open>order_by(created_at.desc()).first()\<close>.\<close>

definition newest :: "('a \<Rightarrow> int) \<Rightarrow> 'a list \<Rightarrow> 'a option" where
  "newest f xs = (case sort_key (\<lambda>x. - f x) xs of [] \<Rightarrow> None | x # _ \<Rightarrow> Some x)"

definition historical_platform_by_sha :: "(prior_evidence list \<times> scan_run list) option \<Rightarrow> string
    \<Rightarrow> (PlatformFamily \<times> Architecture \<times> ProbeConfidence \<times> string) option" where
  "historical_platform_by_sha db sha =
    (case db of None \<Rightarrow> None | Some (evidences, runs) \<Rightarrow>
      case newest pe_created_at (filter (\<lambda>e. pe_sha256 e = sha \<and> pe_type e = ''memory_dump'') evidences) of
        None \<Rightarrow> None
      | Some prior \<Rightarrow>
          if \<exists>r \<in> set runs. run_evidence_id r = pe_id prior \<and> run_profile r \<in> {''windows.info'', ''metadata_only''}
              \<and> run_status r \<in> {''completed'', ''completed_with_errors''} \<and> run_plugins_completed r \<ge> 1
          then Some (WINDOWS, X64, HIGH, ''historical_sha'') else None)"

subsection \<open>Kernel strings\<close>

record KernelSignature =
  ks_platform :: string
  ks_offset :: nat
  ks_name :: string
  ks_pdb_guid :: "string option"
  ks_pdb_age :: "nat option"
  ks_release :: "string option"
  ks_banner :: "string option"

text \<open>\<^verbatim>\<open>Counter(xs).most_common()\<close>: by falling count, equal counts in order of first occurrence.\<close>

definition most_common :: "'a list \<Rightarrow> ('a \<times> nat) list" where
  "most_common xs = sort_key (\<lambda>(x, n). - int n) (map (\<lambda>x. (x, count_list xs x)) (rev (remdups (rev xs))))"

type_synonym kernel_key = "string \<times> string option \<times> string option"

definition kernel_key :: "KernelSignature \<Rightarrow> kernel_key" where
  "kernel_key s = (ks_name s, ks_pdb_guid s, ks_release s)"

definition identify_kernel :: "KernelSignature list \<Rightarrow> KernelSignature option" where
  "identify_kernel signatures =
    (if signatures = [] then None
     else let ranked = most_common (map ks_platform signatures) in
       if length ranked > 1 \<and> snd (ranked ! 0) < 2 * snd (ranked ! 1) then None
       else let platform = fst (ranked ! 0);
                own = filter (\<lambda>s. ks_platform s = platform) signatures;
                best_key = fst (most_common (map kernel_key own) ! 0) in
         find (\<lambda>s. kernel_key s = best_key) own)"

definition show_opt :: "string option \<Rightarrow> string" where
  "show_opt s = (case s of None \<Rightarrow> ''None'' | Some t \<Rightarrow> t)"

definition kernel_signature_probe :: "KernelSignature list \<Rightarrow> MemoryProbeResult option" where
  "kernel_signature_probe signatures =
    (case identify_kernel signatures of
       None \<Rightarrow> None
     | Some k \<Rightarrow>
         if ks_platform k = ''windows'' then
           Some (probe_result WINDOWS ''windows_kernel_scan'' (if sublist ''pamp'' (ks_name k) then UnknownArchitecture else X64) MEDIUM
             (''windows_kernel_scan:'' @ ks_name k @ '':'' @ show_opt (ks_pdb_guid k) @ '':'' @ show_opt (map_option nat_digits (ks_pdb_age k))))
         else if ks_platform k = ''linux'' then
           Some ((probe_result LINUX ''linux_banner_scan'' (if sublist ''x86_64'' (case ks_banner k of None \<Rightarrow> [] | Some b \<Rightarrow> b) then X64 else UnknownArchitecture)
             MEDIUM (''linux_banner_scan:'' @ show_opt (ks_release k)))\<lparr>kernel_release := ks_release k, kernel_banner := ks_banner k\<rparr>)
         else Some (probe_result MACOS ''macos_kernel_scan'' UnknownArchitecture MEDIUM (''macos_kernel_scan:'' @ show_opt (ks_release k))))"

subsection \<open>The banner scan\<close>

text \<open>
  \<^verbatim>\<open>_LINUX_BANNER_PATTERN\<close> at one place: the prefix, at least one byte that is not white
  space, all such bytes, then up to 480 bytes that are no control characters.
\<close>

definition banner_space :: "byte \<Rightarrow> bool" where
  "banner_space b \<longleftrightarrow> unat b \<in> {9, 10, 11, 12, 13, 32}"

definition banner_text_byte :: "byte \<Rightarrow> bool" where
  "banner_text_byte b \<longleftrightarrow> \<not> (unat b \<le> 8 \<or> 14 \<le> unat b \<and> unat b \<le> 31 \<or> unat b = 127)"

definition banner_at :: "bytes \<Rightarrow> (bytes \<times> bytes) option" where
  "banner_at s =
    (if \<not> prefix (bytes_of ''Linux version '') s then None
     else let rest = drop 14 s; release = takeWhile (\<lambda>b. \<not> banner_space b) rest in
       if release = [] then None
       else Some (bytes_of ''Linux version '' @ release @ take 480 (takeWhile banner_text_byte (drop (length release) rest)), release))"

fun banner_search :: "bytes \<Rightarrow> (bytes \<times> bytes) option" where
  "banner_search [] = None"
| "banner_search (b # bs) = (case banner_at (b # bs) of Some r \<Rightarrow> Some r | None \<Rightarrow> banner_search bs)"

text \<open>\<^verbatim>\<open>decode("ascii", errors="replace")\<close>; the replacement character is written as U+001A here.\<close>

definition ascii_text :: "bytes \<Rightarrow> string" where
  "ascii_text bs = map (\<lambda>b. if unat b < 128 then char_of (unat b) else CHR 0x1A) bs"

text \<open>The chunks of the image, and how many are read before the time is up.\<close>

fun banner_scan :: "nat \<Rightarrow> bytes \<Rightarrow> bytes list \<Rightarrow> MemoryProbeResult option" where
  "banner_scan 0 tail chunks = None"
| "banner_scan (Suc n) tail [] = None"
| "banner_scan (Suc n) tail (chunk # chunks) =
    (case banner_search (tail @ chunk) of
       Some (whole, release) \<Rightarrow>
         (let banner = py_strip (ascii_text whole) in
          Some ((probe_result LINUX ''linux_banner_scan'' (if sublist ''x86_64'' banner then X64 else UnknownArchitecture) MEDIUM
            (''linux_banner_scan:'' @ ascii_text release))\<lparr>kernel_release := Some (ascii_text release), kernel_banner := Some banner\<rparr>))
     | None \<Rightarrow> banner_scan n (drop (length chunk - 256) chunk) chunks)"

subsection \<open>Volatility\<close>

text \<open>The verdict on one plugin's output; \<open>None\<close> is a plugin that could not be run or timed out.\<close>

definition volatility_verdict :: "string \<Rightarrow> (string \<times> string) option \<Rightarrow> MemoryProbeResult option" where
  "volatility_verdict plugin output =
    (case output of None \<Rightarrow> None | Some (stdout, stderr) \<Rightarrow>
      let combined = py_lower (stdout @ [CHR 0x0A] @ py_lower stderr);
          linux_ok = prefix ''linux.'' plugin \<and> prefix ''['' (py_strip stdout)
            \<and> \<not> sublist ''unsatisfied requirement'' combined \<and> \<not> sublist ''unable to validate'' combined in
      if sublist ''windows'' combined \<and> (sublist ''layer'' combined \<or> sublist ''ntoskrnl'' combined \<or> sublist ''windows'' stdout)
      then Some (probe_result WINDOWS (''volatility_'' @ plugin) X64 MEDIUM (''volatility_'' @ plugin @ ''_windows''))
      else if linux_ok \<or> sublist ''linux_banner'' combined \<or> sublist ''linux'' combined \<and> sublist ''banner'' combined
      then Some (probe_result LINUX (''volatility_'' @ plugin) X64 MEDIUM (''volatility_'' @ plugin @ ''_linux''))
      else None)"

record probe_env =
  image_head :: bytes
  history :: "(prior_evidence list \<times> scan_run list) option"
  signatures :: "KernelSignature list"
  volatility_ready :: bool
  plugin_output :: "string \<Rightarrow> (string \<times> string) option"
  banner_chunks :: "bytes list"
  chunks_in_time :: nat

definition bounded_volatility_fallback :: "probe_env \<Rightarrow> MemoryProbeResult option" where
  "bounded_volatility_fallback env =
    (if \<not> volatility_ready env then None
     else case volatility_verdict ''windows.info'' (plugin_output env ''windows.info'') of
       Some r \<Rightarrow> Some r
     | None \<Rightarrow> (case volatility_verdict ''linux.pslist'' (plugin_output env ''linux.pslist'') of
         Some r \<Rightarrow> Some r
       | None \<Rightarrow> banner_scan (chunks_in_time env) [] (banner_chunks env)))"

subsection \<open>The probe\<close>

definition PLATFORM_RESOLVING_FORMATS :: "(string \<times> (PlatformFamily \<times> Architecture \<times> ProbeConfidence)) list" where
  "PLATFORM_RESOLVING_FORMATS =
    [(''windows_crash_dump'', (WINDOWS, X64, HIGH)), (''hibernation'', (WINDOWS, X64, MEDIUM)),
     (''vmware_vmem'', (WINDOWS, UnknownArchitecture, MEDIUM)), (''lime'', (LINUX, X64, HIGH)),
     (''elf_core'', (LINUX, UnknownArchitecture, MEDIUM)), (''linux_banner_scan'', (LINUX, UnknownArchitecture, MEDIUM)),
     (''windows_kernel_scan'', (WINDOWS, X64, MEDIUM)), (''macos_kernel_scan'', (MACOS, UnknownArchitecture, MEDIUM)),
     (''volatility_windows.info'', (WINDOWS, X64, MEDIUM)), (''volatility_linux.pslist'', (LINUX, X64, MEDIUM))]"

definition format_stage :: "string option \<Rightarrow> PlatformFamily \<times> Architecture \<times> ProbeConfidence \<times> string
    \<Rightarrow> PlatformFamily \<times> Architecture \<times> ProbeConfidence \<times> string" where
  "format_stage detected_format cur =
    (case detected_format of
       Some f \<Rightarrow> if fst cur = UNKNOWN \<and> f \<noteq> [] then
           (case map_of PLATFORM_RESOLVING_FORMATS (py_strip (py_lower f)) of
              Some (p, a, c) \<Rightarrow> (p, a, c, ''detected_format:'' @ py_strip (py_lower f))
            | None \<Rightarrow> cur)
         else cur
     | None \<Rightarrow> cur)"

definition history_stage :: "(prior_evidence list \<times> scan_run list) option \<Rightarrow> string option
    \<Rightarrow> PlatformFamily \<times> Architecture \<times> ProbeConfidence \<times> string \<Rightarrow> PlatformFamily \<times> Architecture \<times> ProbeConfidence \<times> string" where
  "history_stage db sha cur =
    (case sha of
       Some s \<Rightarrow> if fst cur = UNKNOWN \<and> s \<noteq> [] then (case historical_platform_by_sha db s of Some r \<Rightarrow> r | None \<Rightarrow> cur) else cur
     | None \<Rightarrow> cur)"

definition probe_memory_platform :: "probe_env \<Rightarrow> string option \<Rightarrow> bool \<Rightarrow> string option \<Rightarrow> MemoryProbeResult" where
  "probe_memory_platform env detected_format use_volatility_fallback evidence_sha =
    (let fmt = (case detected_format of None \<Rightarrow> ''unknown'' | Some f \<Rightarrow> if py_strip f = [] then ''unknown'' else py_strip f);
         cur = history_stage (history env) evidence_sha (format_stage detected_format (classify_from_head (image_head env)));
         (p, arch, conf, reason) = cur;
         static = (probe_result p fmt arch conf reason)\<lparr>evidence_format := detected_format\<rparr> in
     if p = UNKNOWN \<and> use_volatility_fallback then
       (case kernel_signature_probe (signatures env) of
          Some r \<Rightarrow> r
        | None \<Rightarrow> (case bounded_volatility_fallback env of Some r \<Rightarrow> r | None \<Rightarrow> static))
     else static)"

subsection \<open>Adapters\<close>

datatype adapter = WindowsMemoryAdapter | LinuxMemoryAdapter | MacOSMemoryAdapter | UnsupportedMemoryAdapter

fun get_adapter_for_platform :: "PlatformFamily \<Rightarrow> adapter" where
  "get_adapter_for_platform WINDOWS = WindowsMemoryAdapter"
| "get_adapter_for_platform LINUX = LinuxMemoryAdapter"
| "get_adapter_for_platform MACOS = MacOSMemoryAdapter"
| "get_adapter_for_platform _ = UnsupportedMemoryAdapter"

definition get_adapter_for_probe :: "MemoryProbeResult \<Rightarrow> adapter" where
  "get_adapter_for_probe pr = get_adapter_for_platform (probe_platform pr)"

definition adapter_probe :: "adapter \<Rightarrow> probe_env \<Rightarrow> string option \<Rightarrow> MemoryProbeResult" where
  "adapter_probe a env detected_format =
    (if a = UnsupportedMemoryAdapter
     then probe_result UNSUPPORTED (case detected_format of None \<Rightarrow> ''unknown'' | Some f \<Rightarrow> if f = [] then ''unknown'' else f)
       UnknownArchitecture LOW ''unsupported_or_unknown_format''
     else probe_memory_platform env detected_format False None)"

record cache_state =
  exact_cache_match :: bool
  successful_metadata_run :: bool
  isf_available :: bool
  cache_requirement_id :: "string option"

definition readiness :: "ReadinessState \<Rightarrow> string \<Rightarrow> string option \<Rightarrow> string option \<Rightarrow> ReadinessResult" where
  "readiness st reason code req = \<lparr>readiness_state = st, readiness_reason = reason, error_code = code, requirement_id = req,
     readiness_metadata = [], requires_discovery = False\<rparr>"

definition no_cache :: cache_state where
  "no_cache = \<lparr>exact_cache_match = False, successful_metadata_run = False, isf_available = False, cache_requirement_id = None\<rparr>"

fun check_readiness :: "adapter \<Rightarrow> MemoryProbeResult \<Rightarrow> cache_state option \<Rightarrow> ReadinessResult" where
  "check_readiness WindowsMemoryAdapter pr cs =
    (if probe_confidence pr = LOW then readiness BLOCKED ''windows_signature_weak'' (Some ''WINDOWS_PROBE_LOW_CONFIDENCE'') None
     else let cache = (case cs of None \<Rightarrow> no_cache | Some c \<Rightarrow> c) in
       if exact_cache_match cache then readiness READY ''exact_cache_match'' None (cache_requirement_id cache)
       else if successful_metadata_run cache then readiness READY ''successful_metadata_run'' None (cache_requirement_id cache)
       else (readiness BLOCKED ''windows_probe_required'' (Some ''WINDOWS_PROBE_REQUIRED'') None)
         \<lparr>readiness_metadata := [(''probe_confidence'', confidence_value (probe_confidence pr))], requires_discovery := True\<rparr>)"
| "check_readiness LinuxMemoryAdapter pr cs =
    (if probe_confidence pr = LOW then readiness BLOCKED ''linux_signature_weak'' (Some ''LINUX_PROBE_LOW_CONFIDENCE'') None
     else let cache = (case cs of None \<Rightarrow> no_cache | Some c \<Rightarrow> c) in
       if isf_available cache \<and> successful_metadata_run cache then readiness READY ''linux_isf_and_metadata'' None (cache_requirement_id cache)
       else if exact_cache_match cache then readiness READY ''exact_cache_match'' None (cache_requirement_id cache)
       else readiness BLOCKED ''linux_isf_required'' (Some ''LINUX_ISF_REQUIRED'') None)"
| "check_readiness MacOSMemoryAdapter pr cs =
    (let cache = (case cs of None \<Rightarrow> no_cache | Some c \<Rightarrow> c) in
     if successful_metadata_run cache \<and> isf_available cache then readiness READY ''macos_isf_and_metadata'' None (cache_requirement_id cache)
     else readiness ReadinessUNSUPPORTED ''macos_platform_not_supported'' (Some ''PLATFORM_NOT_SUPPORTED'') None)"
| "check_readiness UnsupportedMemoryAdapter pr cs =
    readiness ReadinessUNSUPPORTED ''platform_not_identified'' (Some ''PLATFORM_NOT_IDENTIFIED'') None"

end
