(* ===== verification/Memory_Plan.thy ===== *)
theory Memory_Plan
  imports Memory_Platform "HOL-Library.Char_ord" "HOL-Library.List_Lexorder"
begin

section \<open>Which plugins run against a memory image\<close>

text \<open>
  \<^verbatim>\<open>services/memory/capability_registry.py\<close> and \<^verbatim>\<open>services/memory/analysis_plan.py\<close>: the table
  of plugins per platform and capability, and the plan that turns a detected platform into
  the plugins to run. Resolving the evidence's path, the probe's inputs at a path and the
  state of the Linux symbol cache are arguments.
\<close>

datatype MemoryCapability = IDENTIFICATION | PROCESSES | PROCESSES_EXTENDED | NETWORK | MODULES | HANDLES | KERNEL_MODULES
  | SUSPICIOUS_REGIONS | SHELL_HISTORY | FILES | FIND_EVIL

datatype SkipReason = PLATFORM_MISMATCH | SYMBOLS_UNAVAILABLE | SkipPROFILE_UNAVAILABLE | PLUGIN_UNSUPPORTED | DEPENDENCY_UNAVAILABLE
  | DEPENDENCY_FAILED | SkipFRAMEWORK_UNAVAILABLE | NOT_SELECTED

definition FRAMEWORK_VOLATILITY3 :: string where "FRAMEWORK_VOLATILITY3 = ''volatility3''"
definition FRAMEWORK_MEMPROCFS :: string where "FRAMEWORK_MEMPROCFS = ''memprocfs''"

record CapabilityPluginSpec =
  spec_capability :: MemoryCapability
  spec_platform :: PlatformFamily
  spec_framework :: string
  spec_plugin :: string
  spec_depends_on :: "MemoryCapability list"
  spec_requires_symbols :: bool
  spec_presentation_family :: string

abbreviation capability_spec :: "MemoryCapability \<Rightarrow> PlatformFamily \<Rightarrow> string \<Rightarrow> string \<Rightarrow> MemoryCapability list \<Rightarrow> bool \<Rightarrow> string
    \<Rightarrow> CapabilityPluginSpec" where
  "capability_spec cap p fw plugin deps req family \<equiv> \<lparr>spec_capability = cap, spec_platform = p, spec_framework = fw, spec_plugin = plugin,
     spec_depends_on = deps, spec_requires_symbols = req, spec_presentation_family = family\<rparr>"

definition WINDOWS_SPECS :: "CapabilityPluginSpec list" where
  "WINDOWS_SPECS =
    [capability_spec IDENTIFICATION WINDOWS FRAMEWORK_VOLATILITY3 ''windows.info'' [] True ''memory_system_info'',
     capability_spec PROCESSES WINDOWS FRAMEWORK_VOLATILITY3 ''windows.pslist'' [IDENTIFICATION] True ''memory_process'',
     capability_spec PROCESSES WINDOWS FRAMEWORK_VOLATILITY3 ''windows.pstree'' [IDENTIFICATION] True ''memory_process'',
     capability_spec PROCESSES WINDOWS FRAMEWORK_VOLATILITY3 ''windows.cmdline'' [IDENTIFICATION] True ''memory_process'',
     capability_spec PROCESSES_EXTENDED WINDOWS FRAMEWORK_VOLATILITY3 ''windows.psscan'' [] True ''memory_process'',
     capability_spec PROCESSES_EXTENDED WINDOWS FRAMEWORK_VOLATILITY3 ''windows.envars'' [] True ''memory_process_observation'',
     capability_spec PROCESSES_EXTENDED WINDOWS FRAMEWORK_VOLATILITY3 ''windows.getsids'' [] True ''memory_process_observation'',
     capability_spec PROCESSES_EXTENDED WINDOWS FRAMEWORK_VOLATILITY3 ''windows.privileges'' [] True ''memory_process_observation'',
     capability_spec NETWORK WINDOWS FRAMEWORK_VOLATILITY3 ''windows.netscan'' [] True ''memory_network_connection'',
     capability_spec NETWORK WINDOWS FRAMEWORK_VOLATILITY3 ''windows.netstat'' [] True ''memory_network_connection'',
     capability_spec MODULES WINDOWS FRAMEWORK_VOLATILITY3 ''windows.dlllist'' [] True ''memory_process_module'',
     capability_spec MODULES WINDOWS FRAMEWORK_VOLATILITY3 ''windows.ldrmodules'' [] True ''memory_process_module'',
     capability_spec MODULES WINDOWS FRAMEWORK_VOLATILITY3 ''windows.info'' [] True ''memory_system_info'',
     capability_spec HANDLES WINDOWS FRAMEWORK_VOLATILITY3 ''windows.handles'' [] True ''memory_handle'',
     capability_spec HANDLES WINDOWS FRAMEWORK_VOLATILITY3 ''windows.info'' [] True ''memory_system_info'',
     capability_spec KERNEL_MODULES WINDOWS FRAMEWORK_VOLATILITY3 ''windows.modules'' [] True ''memory_kernel_module'',
     capability_spec KERNEL_MODULES WINDOWS FRAMEWORK_VOLATILITY3 ''windows.driverscan'' [] True ''memory_driver'',
     capability_spec KERNEL_MODULES WINDOWS FRAMEWORK_VOLATILITY3 ''windows.info'' [] True ''memory_system_info'',
     capability_spec SUSPICIOUS_REGIONS WINDOWS FRAMEWORK_VOLATILITY3 ''windows.malfind'' [] True ''memory_suspicious_region'',
     capability_spec SUSPICIOUS_REGIONS WINDOWS FRAMEWORK_VOLATILITY3 ''windows.vadinfo'' [] True ''memory_vad'',
     capability_spec SHELL_HISTORY WINDOWS FRAMEWORK_VOLATILITY3 ''windows.consoles'' [IDENTIFICATION] True ''memory_shell_history'',
     capability_spec SHELL_HISTORY WINDOWS FRAMEWORK_VOLATILITY3 ''windows.cmdscan'' [IDENTIFICATION] True ''memory_shell_history'',
     capability_spec SHELL_HISTORY WINDOWS FRAMEWORK_VOLATILITY3 ''kairon.psreadline'' [IDENTIFICATION] True ''memory_shell_history'',
     capability_spec FILES WINDOWS FRAMEWORK_VOLATILITY3 ''windows.filescan'' [IDENTIFICATION] True ''memory_file_object'',
     capability_spec FIND_EVIL WINDOWS FRAMEWORK_VOLATILITY3 ''kairon.findevil'' [IDENTIFICATION] True ''memory_findevil'',
     capability_spec FIND_EVIL WINDOWS FRAMEWORK_MEMPROCFS ''memprocfs.findevil'' [IDENTIFICATION] False ''memory_findevil'']"

definition LINUX_SPECS :: "CapabilityPluginSpec list" where
  "LINUX_SPECS =
    [capability_spec PROCESSES LINUX FRAMEWORK_VOLATILITY3 ''linux.pslist'' [] True ''memory_process'',
     capability_spec PROCESSES LINUX FRAMEWORK_VOLATILITY3 ''linux.pstree'' [] True ''memory_process'',
     capability_spec NETWORK LINUX FRAMEWORK_VOLATILITY3 ''linux.sockstat'' [] True ''memory_network_connection'',
     capability_spec SHELL_HISTORY LINUX FRAMEWORK_VOLATILITY3 ''linux.bash'' [] True ''memory_shell_history'',
     capability_spec PROCESSES LINUX FRAMEWORK_VOLATILITY3 ''linux.psaux'' [] True ''memory_process'',
     capability_spec PROCESSES_EXTENDED LINUX FRAMEWORK_VOLATILITY3 ''linux.psscan'' [] True ''memory_process'',
     capability_spec HANDLES LINUX FRAMEWORK_VOLATILITY3 ''linux.lsof'' [] True ''memory_handle'',
     capability_spec KERNEL_MODULES LINUX FRAMEWORK_VOLATILITY3 ''linux.lsmod'' [] True ''memory_kernel_module'',
     capability_spec SUSPICIOUS_REGIONS LINUX FRAMEWORK_VOLATILITY3 ''linux.malware.malfind'' [] True ''memory_suspicious_region'',
     capability_spec FIND_EVIL LINUX FRAMEWORK_VOLATILITY3 ''kairon.linux_findevil'' [] True ''memory_findevil'',
     capability_spec FILES LINUX FRAMEWORK_VOLATILITY3 ''linux.pagecache.Files'' [] True ''memory_file_object'']"

definition MEMORY_CAPABILITY_REGISTRY :: "CapabilityPluginSpec list" where
  "MEMORY_CAPABILITY_REGISTRY = WINDOWS_SPECS @ LINUX_SPECS"

definition specs_for_platform :: "PlatformFamily \<Rightarrow> CapabilityPluginSpec list" where
  "specs_for_platform p = filter (\<lambda>s. spec_platform s = p) MEMORY_CAPABILITY_REGISTRY"

definition capabilities_for_platform :: "PlatformFamily \<Rightarrow> MemoryCapability list" where
  "capabilities_for_platform p = first_seen (map spec_capability (specs_for_platform p))"

definition platform_result_views :: "PlatformFamily \<Rightarrow> (string list \<times> string list) option" where
  "platform_result_views p = (let specs = specs_for_platform p in
     if specs = [] then None
     else Some (sort (remdups (map spec_presentation_family specs)), sort (remdups (map spec_framework specs))))"

definition plugins_for_capability :: "PlatformFamily \<Rightarrow> MemoryCapability \<Rightarrow> CapabilityPluginSpec list" where
  "plugins_for_capability p cap = filter (\<lambda>s. spec_platform s = p \<and> spec_capability s = cap) MEMORY_CAPABILITY_REGISTRY"

definition spec_for_plugin :: "PlatformFamily \<Rightarrow> string \<Rightarrow> CapabilityPluginSpec option" where
  "spec_for_plugin p plugin = find (\<lambda>s. spec_platform s = p \<and> spec_plugin s = plugin) MEMORY_CAPABILITY_REGISTRY"

definition resolved_plugins_for_capability :: "PlatformFamily \<Rightarrow> MemoryCapability \<Rightarrow> string list" where
  "resolved_plugins_for_capability p cap =
    (let own = plugins_for_capability p cap;
         deps = first_seen (concat (map spec_depends_on own)) in
     first_seen (concat (map (\<lambda>d. map spec_plugin (plugins_for_capability p d)) deps) @ map spec_plugin own))"

subsection \<open>The plan\<close>

record symbol_status =
  symbols_found :: bool
  symbols_valid :: bool
  symbols_compatible :: bool
  volatility_selectable :: bool
  symbol_reason_code :: "string option"

record MemoryAnalysisPlan =
  plan_evidence_id :: string
  detected_platform :: PlatformFamily
  platform_confidence :: ProbeConfidence
  platform_signals :: string
  framework :: string
  plan_readiness :: ReadinessState
  plan_readiness_reason :: string
  eligible_capabilities :: "MemoryCapability list"
  ineligible_capabilities :: "(MemoryCapability \<times> SkipReason) list"
  selected_plugins :: "string list"
  skipped_plugins :: "(string \<times> SkipReason) list"
  plan_symbol_status :: "symbol_status option"

definition empty_plan :: "string \<Rightarrow> PlatformFamily \<Rightarrow> ProbeConfidence \<Rightarrow> string \<Rightarrow> ReadinessState \<Rightarrow> string \<Rightarrow> MemoryAnalysisPlan" where
  "empty_plan i p conf signals st reason = \<lparr>plan_evidence_id = i, detected_platform = p, platform_confidence = conf,
     platform_signals = signals, framework = [], plan_readiness = st, plan_readiness_reason = reason,
     eligible_capabilities = [], ineligible_capabilities = [], selected_plugins = [], skipped_plugins = [], plan_symbol_status = None\<rparr>"

record memory_evidence =
  me_id :: string
  me_stored_path :: string
  me_detected_format :: "string option"
  me_sha256 :: "string option"

text \<open>
  The path to probe and why it could not be resolved, if it could not. \<open>resolve\<close> is the
  storage check: an error message or a path.
\<close>

definition plan_path :: "string option \<Rightarrow> string + string \<Rightarrow> memory_evidence \<Rightarrow> string \<times> string option" where
  "plan_path canonical_path resolve ev =
    (case canonical_path of
       Some p \<Rightarrow> (p, None)
     | None \<Rightarrow> (case resolve of
         Inr p \<Rightarrow> (p, None)
       | Inl e \<Rightarrow> (let raw = py_strip (me_stored_path ev) in (if raw = [] then ''/nonexistent-evidence-path'' else raw, Some e))))"

text \<open>The loop over the requested capabilities: eligible, ineligible, plugins and frameworks.\<close>

fun select_plugins :: "PlatformFamily \<Rightarrow> MemoryCapability list
    \<Rightarrow> MemoryCapability list \<times> (MemoryCapability \<times> SkipReason) list \<times> string list \<times> string list" where
  "select_plugins p [] = ([], [], [], [])"
| "select_plugins p (cap # caps) =
    (let specs = plugins_for_capability p cap; (eligible, ineligible, plugins, frameworks) = select_plugins p caps in
     if specs = [] then (eligible, (cap, PLATFORM_MISMATCH) # ineligible, plugins, frameworks)
     else (cap # eligible, ineligible, map spec_plugin specs @ plugins, map spec_framework specs @ frameworks))"

definition symbols_present :: "symbol_status \<Rightarrow> bool" where
  "symbols_present s \<longleftrightarrow> symbols_found s \<and> symbols_valid s \<and> symbols_compatible s \<and> volatility_selectable s"

definition plan_state :: "PlatformFamily \<Rightarrow> symbol_status option \<Rightarrow> MemoryCapability list \<Rightarrow> (MemoryCapability \<times> SkipReason) list \<Rightarrow> nat
    \<Rightarrow> ReadinessState \<times> string" where
  "plan_state p status eligible ineligible requested =
    (if eligible = [] then (PLATFORM_UNSUPPORTED,
       ''No requested capability has a registry entry for platform '' @ [CHR 0x27] @ platform_value p @ [CHR 0x27] @ ''.'')
     else if p = LINUX \<and> \<not> (case status of None \<Rightarrow> False | Some s \<Rightarrow> symbols_present s) then
       (if ineligible \<noteq> [] then PARTIALLY_READY else BLOCKED_SYMBOLS,
        ''Linux symbols are not ready ('' @ (case Option.bind status symbol_reason_code of None \<Rightarrow> ''symbols_unavailable''
           | Some r \<Rightarrow> if r = [] then ''symbols_unavailable'' else r)
         @ ''). Kairon requires a resolved evidence kernel identity plus a validated, compatible, Volatility-selectable Linux ISF in the offline cache.'')
     else if ineligible \<noteq> [] then (PARTIALLY_READY,
       nat_digits (length eligible) @ '' of '' @ nat_digits requested @ '' requested capabilities are eligible for platform '' @ [CHR 0x27] @ platform_value p @ [CHR 0x27] @ ''.'')
     else (READY, ''All requested capabilities are eligible for platform '' @ [CHR 0x27] @ platform_value p @ [CHR 0x27] @ ''.''))"

definition build_memory_analysis_plan :: "(string \<Rightarrow> probe_env) \<Rightarrow> string + string \<Rightarrow> symbol_status \<Rightarrow> memory_evidence \<Rightarrow> string option
    \<Rightarrow> MemoryCapability list option \<Rightarrow> MemoryAnalysisPlan" where
  "build_memory_analysis_plan env_at resolve linux_symbols ev canonical_path requested_capabilities =
    (let (path, path_error) = plan_path canonical_path resolve ev;
         probe = probe_memory_platform (env_at path) (me_detected_format ev) True (me_sha256 ev);
         p = probe_platform probe; conf = probe_confidence probe; signals = probe_reason probe;
         requested = (case requested_capabilities of None \<Rightarrow> capabilities_for_platform p | Some cs \<Rightarrow> cs) in
     if p = UNKNOWN then
       (case path_error of
          Some e \<Rightarrow> empty_plan (me_id ev) p conf (''path_unavailable:'' @ e @ ''; '' @ signals) INVALID_EVIDENCE
            ''Memory evidence storage could not be resolved to a readable path from this process, and no declared format or history resolved the platform either.''
        | None \<Rightarrow> empty_plan (me_id ev) p conf signals PLATFORM_UNKNOWN
            ''The evidence's operating-system family could not be determined from its header, declared format, or history. No plugins were selected -- an unknown platform is never silently treated as Windows.'')
     else if p \<in> {MACOS, UNSUPPORTED} then
       empty_plan (me_id ev) p conf signals PLATFORM_UNSUPPORTED
         (''Kairon's memory capability registry has no plugins for platform '' @ [CHR 0x27] @ platform_value p @ [CHR 0x27] @ ''.'')
     else if requested = [] then
       empty_plan (me_id ev) p conf signals PLATFORM_UNSUPPORTED
         (''No capability requested for platform '' @ [CHR 0x27] @ platform_value p @ [CHR 0x27] @ ''.'')
     else let status = (if p = LINUX then Some linux_symbols else None);
              (eligible, ineligible, plugins, frameworks) = select_plugins p requested;
              (state, reason) = plan_state p status eligible ineligible (length requested) in
       \<lparr>plan_evidence_id = me_id ev, detected_platform = p, platform_confidence = conf, platform_signals = signals,
        framework = (if FRAMEWORK_VOLATILITY3 \<in> set frameworks then FRAMEWORK_VOLATILITY3
          else case frameworks of [] \<Rightarrow> [] | f # _ \<Rightarrow> f),
        plan_readiness = state, plan_readiness_reason = reason, eligible_capabilities = eligible,
        ineligible_capabilities = ineligible, selected_plugins = plugins, skipped_plugins = [], plan_symbol_status = status\<rparr>)"

end
