(* ===== verification/Memory_Properties.thy ===== *)
theory Memory_Properties
  imports Memory_Plan
begin

section \<open>Properties of memory platform detection and planning\<close>

text \<open>
  What the kernel vote decides, what a later probe makes of the format an earlier one
  recorded, and which plugins a plan selects.
\<close>

subsection \<open>Ranking by count\<close>

lemma most_common_mem: "(x, n) \<in> set (most_common xs) \<longleftrightarrow> x \<in> set xs \<and> n = count_list xs x"
  by (auto simp: most_common_def)

lemma most_common_distinct: "distinct (map fst (most_common xs))"
proof -
  have "distinct (most_common xs)" by (simp add: most_common_def distinct_map inj_on_def)
  moreover have "inj_on fst (set (most_common xs))" by (auto simp: inj_on_def most_common_mem)
  ultimately show ?thesis by (simp add: distinct_map)
qed

lemma most_common_sorted: "sorted (map (\<lambda>(x, n). - int n) (most_common xs))"
  by (simp add: most_common_def)

lemma most_common_nth_mono:
  assumes "i \<le> j" "j < length (most_common xs)"
  shows "snd (most_common xs ! j) \<le> snd (most_common xs ! i)"
  using sorted_nth_mono[OF most_common_sorted assms(1), of xs] assms by (simp add: case_prod_unfold)

lemma most_common_nth:
  assumes "i < length (most_common xs)"
  shows "fst (most_common xs ! i) \<in> set xs" "snd (most_common xs ! i) = count_list xs (fst (most_common xs ! i))"
  using nth_mem[OF assms] most_common_mem[of "fst (most_common xs ! i)" "snd (most_common xs ! i)" xs] by simp_all

lemma most_common_Nil[simp]: "most_common xs = [] \<longleftrightarrow> xs = []"
proof
  assume "most_common xs = []"
  then have "x \<notin> set xs" for x using most_common_mem[of x "count_list xs x" xs] by simp
  then show "xs = []" by (cases xs) auto
qed (simp add: most_common_def)

lemma most_common_index:
  assumes "x \<in> set xs"
  obtains j where "j < length (most_common xs)" "most_common xs ! j = (x, count_list xs x)"
  using assms most_common_mem[of x "count_list xs x" xs] by (auto simp: in_set_conv_nth)

lemma most_common_first: "count_list xs x \<le> count_list xs (fst (most_common xs ! 0))"
proof (cases "x \<in> set xs")
  case True
  obtain j where j: "j < length (most_common xs)" "most_common xs ! j = (x, count_list xs x)" using most_common_index[OF True] .
  then show ?thesis using most_common_nth_mono[of 0 j xs] most_common_nth(2)[of 0 xs] by fastforce
qed simp

text \<open>The first beats every other by a factor of two exactly if it beats the second so.\<close>

lemma most_common_second:
  assumes "xs \<noteq> []"
  shows "(length (most_common xs) > 1 \<and> snd (most_common xs ! 0) < 2 * snd (most_common xs ! 1))
    \<longleftrightarrow> \<not> (\<forall>y. y \<noteq> fst (most_common xs ! 0) \<longrightarrow> 2 * count_list xs y \<le> count_list xs (fst (most_common xs ! 0)))"
    (is "?l \<longleftrightarrow> \<not> ?r")
proof -
  let ?mc = "most_common xs"
  have len: "0 < length ?mc" using assms by simp
  have first: "snd (?mc ! 0) = count_list xs (fst (?mc ! 0))" by (rule most_common_nth(2)[OF len])
  have "\<not> ?l \<Longrightarrow> ?r"
  proof (intro allI impI)
    fix y assume no: "\<not> ?l" and y: "y \<noteq> fst (?mc ! 0)"
    show "2 * count_list xs y \<le> count_list xs (fst (?mc ! 0))"
    proof (cases "y \<in> set xs")
      case True
      obtain j where j: "j < length ?mc" "?mc ! j = (y, count_list xs y)" using most_common_index[OF True] .
      have "j \<noteq> 0" using j(2) y by (metis fst_conv)
      then have "snd (?mc ! j) \<le> snd (?mc ! 1)" and "length ?mc > 1" using most_common_nth_mono[of 1 j xs] j(1) by auto
      then show ?thesis using no first j(2) by simp
    qed simp
  qed
  moreover have "?l \<Longrightarrow> \<not> ?r"
  proof
    assume l: ?l and r: ?r
    have "fst (?mc ! 1) \<noteq> fst (?mc ! 0)"
      using nth_eq_iff_index_eq[OF most_common_distinct[of xs], of 1 0] l len by simp
    then show False using r l first most_common_nth(2)[of 1 xs] by fastforce
  qed
  ultimately show ?thesis by blast
qed

subsection \<open>The vote on the kernel\<close>

definition clear_winner :: "'a list \<Rightarrow> 'a \<Rightarrow> bool" where
  "clear_winner xs p \<longleftrightarrow> p \<in> set xs \<and> (\<forall>q. q \<noteq> p \<longrightarrow> 2 * count_list xs q \<le> count_list xs p)"

lemma clear_winner_is_first:
  assumes "clear_winner xs p"
  shows "fst (most_common xs ! 0) = p"
proof (rule ccontr)
  assume ne: "fst (most_common xs ! 0) \<noteq> p"
  have "count_list xs p > 0" using assms by (simp add: clear_winner_def count_list_0_iff zero_less_iff_neq_zero)
  moreover have "2 * count_list xs (fst (most_common xs ! 0)) \<le> count_list xs p" using assms ne by (simp add: clear_winner_def)
  ultimately show False using most_common_first[of xs p] by linarith
qed

lemma identify_kernel_cases:
  assumes "sigs \<noteq> []"
  defines "ps \<equiv> map ks_platform sigs"
  defines "own \<equiv> filter (\<lambda>s. ks_platform s = fst (most_common ps ! 0)) sigs"
  shows "identify_kernel sigs = (if clear_winner ps (fst (most_common ps ! 0))
    then find (\<lambda>s. kernel_key s = fst (most_common (map kernel_key own) ! 0)) own else None)"
proof -
  have ps: "ps \<noteq> []" using assms(1) by (simp add: ps_def)
  have "fst (most_common ps ! 0) \<in> set ps" using ps by (intro most_common_nth(1)) simp
  then show ?thesis using most_common_second[OF ps] assms(1)
    by (auto simp: identify_kernel_def Let_def clear_winner_def ps_def own_def)
qed

lemma identify_kernel_own:
  assumes "clear_winner (map ks_platform sigs) p"
  obtains k where "identify_kernel sigs = Some k" "k \<in> set sigs" "ks_platform k = p"
    "\<And>s. s \<in> set sigs \<Longrightarrow> ks_platform s = p \<Longrightarrow>
       count_list (map kernel_key (filter (\<lambda>s. ks_platform s = p) sigs)) (kernel_key s)
         \<le> count_list (map kernel_key (filter (\<lambda>s. ks_platform s = p) sigs)) (kernel_key k)"
proof -
  let ?own = "filter (\<lambda>s. ks_platform s = p) sigs"
  let ?best = "fst (most_common (map kernel_key ?own) ! 0)"
  have p: "fst (most_common (map ks_platform sigs) ! 0) = p" by (rule clear_winner_is_first[OF assms])
  have ne: "sigs \<noteq> []" "?own \<noteq> []" using assms by (auto simp: clear_winner_def filter_empty_conv)
  have "?best \<in> set (map kernel_key ?own)" using ne(2) by (intro most_common_nth(1)) simp
  then obtain k where k: "find (\<lambda>s. kernel_key s = ?best) ?own = Some k"
    by (cases "find (\<lambda>s. kernel_key s = ?best) ?own") (auto simp: find_None_iff)
  have key: "kernel_key k = ?best" and mem: "k \<in> set ?own" using find_SomeD[OF k] by blast+
  show thesis
  proof (rule that[of k])
    show "identify_kernel sigs = Some k" using identify_kernel_cases[OF ne(1)] assms k p by simp
    show "k \<in> set sigs" "ks_platform k = p" using mem by auto
  qed (use key most_common_first[of "map kernel_key ?own"] in simp)
qed

text \<open>C30: Reading the kernel strings of an image decides for a platform exactly if the strings of
  that platform are at least twice as many as those of every other; the kernel returned is then
  one of the strings found, belongs to that platform, and no other kernel of that platform
  occurs more often. Otherwise nothing is decided.\<close>

theorem identify_kernel_majority:
  "(\<forall>p. clear_winner (map ks_platform sigs) p \<longrightarrow>
      (\<exists>k. identify_kernel sigs = Some k \<and> k \<in> set sigs \<and> ks_platform k = p
        \<and> (\<forall>s \<in> set sigs. ks_platform s = p \<longrightarrow>
          count_list (map kernel_key (filter (\<lambda>s. ks_platform s = p) sigs)) (kernel_key s)
            \<le> count_list (map kernel_key (filter (\<lambda>s. ks_platform s = p) sigs)) (kernel_key k))))
   \<and> ((\<nexists>p. clear_winner (map ks_platform sigs) p) \<longrightarrow> identify_kernel sigs = None)"
proof (intro conjI allI impI)
  fix p
  assume w: "clear_winner (map ks_platform sigs) p"
  show "\<exists>k. identify_kernel sigs = Some k \<and> k \<in> set sigs \<and> ks_platform k = p
        \<and> (\<forall>s \<in> set sigs. ks_platform s = p \<longrightarrow>
          count_list (map kernel_key (filter (\<lambda>s. ks_platform s = p) sigs)) (kernel_key s)
            \<le> count_list (map kernel_key (filter (\<lambda>s. ks_platform s = p) sigs)) (kernel_key k))"
    by (rule identify_kernel_own[OF w]) blast
next
  assume "\<nexists>p. clear_winner (map ks_platform sigs) p"
  then show "identify_kernel sigs = None"
    using identify_kernel_cases[of sigs] by (cases "sigs = []") (auto simp: identify_kernel_def)
qed

definition example_kernel :: "string \<Rightarrow> string \<Rightarrow> nat \<Rightarrow> KernelSignature" where
  "example_kernel p n off = \<lparr>ks_platform = p, ks_offset = off, ks_name = n, ks_pdb_guid = None, ks_pdb_age = None, ks_release = None, ks_banner = None\<rparr>"

theorem identify_kernel_majority_witness:
  "\<exists>k. identify_kernel [example_kernel ''windows'' ''ntoskrnl.pdb'' 0, example_kernel ''linux'' ''linux_banner'' 1,
     example_kernel ''windows'' ''ntkrnlmp.pdb'' 2, example_kernel ''windows'' ''ntkrnlmp.pdb'' 3] = Some k \<and> ks_name k = ''ntkrnlmp.pdb''"
proof -
  let ?sigs = "[example_kernel ''windows'' ''ntoskrnl.pdb'' 0, example_kernel ''linux'' ''linux_banner'' 1,
     example_kernel ''windows'' ''ntkrnlmp.pdb'' 2, example_kernel ''windows'' ''ntkrnlmp.pdb'' 3]"
  have "clear_winner (map ks_platform ?sigs) ''windows''" by (simp add: clear_winner_def example_kernel_def)
  then obtain k where k: "identify_kernel ?sigs = Some k" "k \<in> set ?sigs" "ks_platform k = ''windows''"
    "\<forall>s \<in> set ?sigs. ks_platform s = ''windows'' \<longrightarrow>
          count_list (map kernel_key (filter (\<lambda>s. ks_platform s = ''windows'') ?sigs)) (kernel_key s)
            \<le> count_list (map kernel_key (filter (\<lambda>s. ks_platform s = ''windows'') ?sigs)) (kernel_key k)"
    using identify_kernel_majority[of ?sigs] by blast
  have "ks_name k = ''ntkrnlmp.pdb''" using k(2,3,4) by (auto simp: example_kernel_def kernel_key_def)
  then show ?thesis using k(1) by blast
qed

subsection \<open>What a later probe makes of a recorded format\<close>

lemma kernel_probe_format:
  assumes "kernel_signature_probe sigs = Some r"
  shows "(probe_format r, probe_platform r) \<in> {(''windows_kernel_scan'', WINDOWS), (''linux_banner_scan'', LINUX), (''macos_kernel_scan'', MACOS)}"
    "probe_confidence r = MEDIUM"
  using assms by (auto simp: kernel_signature_probe_def probe_result_def split: option.splits if_splits)

lemma banner_scan_format:
  assumes "banner_scan n tail chunks = Some r"
  shows "probe_format r = ''linux_banner_scan'' \<and> probe_platform r = LINUX \<and> probe_confidence r = MEDIUM"
  using assms
  by (induction n tail chunks rule: banner_scan.induct) (auto simp: Let_def probe_result_def split: option.splits)

lemma volatility_verdict_format:
  assumes "volatility_verdict plugin out = Some r"
  shows "probe_format r = ''volatility_'' @ plugin \<and> probe_platform r \<in> {WINDOWS, LINUX} \<and> probe_confidence r = MEDIUM"
  using assms by (auto simp: volatility_verdict_def Let_def probe_result_def split: option.splits prod.splits if_splits)

lemma volatility_fallback_format:
  assumes "bounded_volatility_fallback env = Some r"
  shows "probe_format r \<in> {''volatility_windows.info'', ''volatility_linux.pslist''} \<and> probe_platform r \<in> {WINDOWS, LINUX}
      \<or> probe_format r = ''linux_banner_scan'' \<and> probe_platform r = LINUX" "probe_confidence r = MEDIUM"
  using assms by (auto simp: bounded_volatility_fallback_def dest!: volatility_verdict_format banner_scan_format
    split: option.splits if_splits)

lemma resolving_formats_normal: "list_all (\<lambda>(f, _). py_strip (py_lower f) = f \<and> f \<noteq> []) PLATFORM_RESOLVING_FORMATS"
  by code_simp

lemma resolving_format_stage:
  assumes "fst cur = UNKNOWN" "map_of PLATFORM_RESOLVING_FORMATS f = Some (p, a, c)"
  shows "format_stage (Some f) cur = (p, a, c, ''detected_format:'' @ f)"
proof -
  have "py_strip (py_lower f) = f \<and> f \<noteq> []" using resolving_formats_normal map_of_SomeD[OF assms(2)] by (auto simp: list_all_iff)
  then show ?thesis using assms by (simp add: format_stage_def)
qed

lemma stages_only_refine:
  assumes "fst (history_stage db sha (format_stage d cur)) = UNKNOWN"
  shows "fst cur = UNKNOWN"
  using assms by (auto simp: history_stage_def format_stage_def split: option.splits if_splits)

lemma history_keeps:
  assumes "fst cur \<noteq> UNKNOWN"
  shows "history_stage db sha cur = cur"
  using assms by (simp add: history_stage_def split: option.split)

lemma probe_of_resolving_format:
  assumes "fst (classify_from_head (image_head env)) = UNKNOWN" "map_of PLATFORM_RESOLVING_FORMATS f = Some (p, a, c)" "p \<noteq> UNKNOWN"
  shows "probe_platform (probe_memory_platform env (Some f) fb sha) = p" "probe_confidence (probe_memory_platform env (Some f) fb sha) = c"
  using resolving_format_stage[OF assms(1,2)] assms(3)
  by (simp_all add: probe_memory_platform_def Let_def history_keeps probe_result_def)

definition recorded_platform :: "MemoryProbeResult \<Rightarrow> PlatformFamily" where
  "recorded_platform r = (if probe_format r = ''volatility_windows.info'' then WINDOWS
     else if probe_format r = ''volatility_linux.pslist'' then LINUX else probe_platform r)"

lemma recorded_format_resolves:
  assumes "probe_format r \<in> {''volatility_windows.info'', ''volatility_linux.pslist''}
    \<or> (probe_format r, probe_platform r) \<in> {(''windows_kernel_scan'', WINDOWS), (''linux_banner_scan'', LINUX), (''macos_kernel_scan'', MACOS)}"
  shows "\<exists>a. map_of PLATFORM_RESOLVING_FORMATS (probe_format r) = Some (recorded_platform r, a, MEDIUM)" "recorded_platform r \<noteq> UNKNOWN"
  using assms by (auto simp: PLATFORM_RESOLVING_FORMATS_def recorded_platform_def)

lemma fallback_probe:
  assumes "probe_platform (probe_memory_platform env fmt False sha) = UNKNOWN"
    and "probe_platform (probe_memory_platform env fmt True sha) \<noteq> UNKNOWN"
  shows "kernel_signature_probe (signatures env) = Some (probe_memory_platform env fmt True sha)
    \<or> bounded_volatility_fallback env = Some (probe_memory_platform env fmt True sha)"
  using assms by (auto simp: probe_memory_platform_def Let_def probe_result_def split: option.splits prod.splits if_splits)

text \<open>C29: When the header, the declared format and the history leave the platform open and the
  deep probe decides it, then the format string the deep probe recorded resolves the platform
  in every later probe of the image, without the deep probe: to the same platform with the same
  confidence if the kernel strings or the banner decided, and to the platform of the plugin's
  name if Volatility did.\<close>

theorem recorded_format_persists:
  assumes "probe_platform (probe_memory_platform env fmt False sha) = UNKNOWN"
    and "probe_platform (probe_memory_platform env fmt True sha) \<noteq> UNKNOWN"
  defines "r \<equiv> probe_memory_platform env fmt True sha"
  shows "probe_platform (probe_memory_platform env (Some (probe_format r)) fb later_sha) = recorded_platform r
    \<and> probe_confidence (probe_memory_platform env (Some (probe_format r)) fb later_sha) = probe_confidence r"
proof -
  have head: "fst (classify_from_head (image_head env)) = UNKNOWN"
    by (rule stages_only_refine[of "history env" sha fmt]) (use assms(1) in \<open>simp add: probe_memory_platform_def Let_def probe_result_def case_prod_unfold\<close>)
  have "(probe_format r \<in> {''volatility_windows.info'', ''volatility_linux.pslist''}
    \<or> (probe_format r, probe_platform r) \<in> {(''windows_kernel_scan'', WINDOWS), (''linux_banner_scan'', LINUX), (''macos_kernel_scan'', MACOS)})
    \<and> probe_confidence r = MEDIUM"
    using fallback_probe[OF assms(1,2)] kernel_probe_format volatility_fallback_format unfolding r_def by blast
  then show ?thesis
    using recorded_format_resolves[of r] probe_of_resolving_format[OF head, of "probe_format r"] by auto
qed

definition example_env :: probe_env where
  "example_env = \<lparr>image_head = [0, 0, 0, 0], history = None,
     signatures = [example_kernel ''windows'' ''ntkrnlmp.pdb'' 4096], volatility_ready = True,
     plugin_output = (\<lambda>_. Some ('''', ''linux banner'')), banner_chunks = [], chunks_in_time = 1\<rparr>"

lemma le_bytes_numeral: "le_bytes (numeral k) v = of_nat (v mod 256) # le_bytes (pred_numeral k) (v div 256)"
  by (subst numeral_eq_Suc) simp

lemma lime_magic: "LIME_MAGIC_BYTES = [0x45, 0x4D, 0x69, 0x4C]"
  by (simp add: LIME_MAGIC_BYTES_def le_bytes_numeral)

lemma example_head: "classify_from_head (image_head (example_env\<lparr>signatures := sigs\<rparr>)) = (UNKNOWN, UnknownArchitecture, LOW, ''no_magic_match'')"
  by (simp add: example_env_def classify_from_head_def WINDOWS_CRASHDUMP_SIGNATURES_def HIBERNATION_SIGNATURES_def bytes_of_def
      lime_magic ELF_MAGIC_def sublist_Cons_right)

lemma raw_format_unresolved: "map_of PLATFORM_RESOLVING_FORMATS (py_strip (py_lower ''raw_candidate'')) = None"
  by code_simp

lemma example_static:
  "format_stage (Some ''raw_candidate'') (UNKNOWN, UnknownArchitecture, LOW, ''no_magic_match'') = (UNKNOWN, UnknownArchitecture, LOW, ''no_magic_match'')"
  using raw_format_unresolved by (simp add: format_stage_def)

lemma example_probe:
  "probe_platform (probe_memory_platform (example_env\<lparr>signatures := sigs\<rparr>) (Some ''raw_candidate'') False None) = UNKNOWN"
  "kernel_signature_probe sigs = Some r \<Longrightarrow> probe_memory_platform (example_env\<lparr>signatures := sigs\<rparr>) (Some ''raw_candidate'') True None = r"
  "kernel_signature_probe sigs = None \<Longrightarrow> bounded_volatility_fallback (example_env\<lparr>signatures := sigs\<rparr>) = Some r \<Longrightarrow>
     probe_memory_platform (example_env\<lparr>signatures := sigs\<rparr>) (Some ''raw_candidate'') True None = r"
  using example_head[of sigs] example_static by (simp_all add: probe_memory_platform_def Let_def history_stage_def probe_result_def)

theorem recorded_format_persists_witness:
  "probe_platform (probe_memory_platform example_env (Some ''windows_kernel_scan'') False None) = WINDOWS"
proof -
  have same: "example_env\<lparr>signatures := [example_kernel ''windows'' ''ntkrnlmp.pdb'' 4096]\<rparr> = example_env"
    by (simp add: example_env_def)
  have "kernel_signature_probe [example_kernel ''windows'' ''ntkrnlmp.pdb'' 4096] = Some (probe_result WINDOWS ''windows_kernel_scan'' X64 MEDIUM
      ''windows_kernel_scan:ntkrnlmp.pdb:None:None'')" by code_simp
  note p = example_probe(2)[OF this, unfolded same] example_probe(1)[of "[example_kernel ''windows'' ''ntkrnlmp.pdb'' 4096]", unfolded same]
  show ?thesis
    using recorded_format_persists[OF p(2), of False None] p(1) by (simp add: probe_result_def recorded_platform_def)
qed

text \<open>
  The verdict is not tied to the plugin that was run: a \<^verbatim>\<open>windows.info\<close> run whose output names a
  Linux banner makes the image Linux, records \<^verbatim>\<open>volatility_windows.info\<close>, and every later
  probe reads that as Windows. A failed \<^verbatim>\<open>windows.info\<close> run counts as Windows if its message
  mentions Windows and a layer.
\<close>

lemma linux_verdict_read_as_windows:
  "probe_platform (probe_memory_platform (example_env\<lparr>signatures := []\<rparr>) (Some ''raw_candidate'') True None) = LINUX
   \<and> probe_platform (probe_memory_platform (example_env\<lparr>signatures := []\<rparr>)
       (Some (probe_format (probe_memory_platform (example_env\<lparr>signatures := []\<rparr>) (Some ''raw_candidate'') True None))) False None) = WINDOWS"
proof -
  have k: "kernel_signature_probe [] = None" by (simp add: kernel_signature_probe_def identify_kernel_def)
  have "volatility_verdict ''windows.info'' (Some ('''', ''linux banner'')) =
      Some (probe_result LINUX ''volatility_windows.info'' X64 MEDIUM ''volatility_windows.info_linux'')" by code_simp
  then have "bounded_volatility_fallback (example_env\<lparr>signatures := []\<rparr>) = Some (probe_result LINUX ''volatility_windows.info'' X64 MEDIUM ''volatility_windows.info_linux'')"
    by (simp add: bounded_volatility_fallback_def example_env_def)
  from example_probe(3)[OF k this] show ?thesis
    using probe_of_resolving_format[of "example_env\<lparr>signatures := []\<rparr>" "''volatility_windows.info''" WINDOWS X64 MEDIUM] example_head[of "[]"]
    by (simp add: probe_result_def PLATFORM_RESOLVING_FORMATS_def)
qed

lemma failed_windows_info_is_windows:
  "map_option probe_platform (volatility_verdict ''windows.info''
     (Some ('''', ''Unsatisfied requirement plugins.Info.kernel.layer_name: Windows kernel''))) = Some WINDOWS"
  by code_simp

text \<open>The historical lookup looks at the newest evidence with the digest only.\<close>

lemma newest_hd:
  assumes "e \<in> set xs" "\<And>x. x \<in> set xs \<Longrightarrow> x \<noteq> e \<Longrightarrow> f x < f e"
  shows "newest f xs = Some e"
proof (cases "sort_key (\<lambda>x. - f x) xs")
  case Nil
  then have "set xs = {}" by (metis list.set(1) set_sort)
  then show ?thesis using assms(1) by simp
next
  case (Cons y ys)
  have mem: "y \<in> set xs" "e \<in> set (y # ys)" using Cons assms(1) by (metis list.set_intros(1) set_sort, metis set_sort)
  have "sorted (map (\<lambda>x. - f x) (y # ys))" using sorted_sort_key[of "\<lambda>x. - f x" xs] Cons by simp
  then have "f e \<le> f y" using mem(2) by auto
  then have "y = e" using assms(2)[OF mem(1)] by force
  then show ?thesis using Cons by (simp add: newest_def)
qed

lemma new_evidence_hides_history:
  assumes "e \<in> set evidences" "pe_sha256 e = sha" "pe_type e = ''memory_dump''"
    and "\<And>x. x \<in> set evidences \<Longrightarrow> x \<noteq> e \<Longrightarrow> pe_created_at x < pe_created_at e"
    and "\<And>r. r \<in> set runs \<Longrightarrow> run_evidence_id r \<noteq> pe_id e"
  shows "historical_platform_by_sha (Some (evidences, runs)) sha = None"
proof -
  have "newest pe_created_at (filter (\<lambda>e. pe_sha256 e = sha \<and> pe_type e = ''memory_dump'') evidences) = Some e"
    using assms(1-4) by (intro newest_hd) auto
  then show ?thesis using assms(5) by (auto simp: historical_platform_by_sha_def)
qed

lemma pagepg_never_matches: "take 4 head \<noteq> bytes_of ''PAGEPG''"
proof
  assume "take 4 head = bytes_of ''PAGEPG''"
  then have "length (take 4 head) = length (bytes_of ''PAGEPG'')" by simp
  then show False by (simp add: bytes_of_def)
qed

subsection \<open>The plan\<close>

lemma select_plugins_eq:
  "select_plugins p caps =
    (filter (\<lambda>c. plugins_for_capability p c \<noteq> []) caps,
     map (\<lambda>c. (c, PLATFORM_MISMATCH)) (filter (\<lambda>c. plugins_for_capability p c = []) caps),
     concat (map (\<lambda>c. map spec_plugin (plugins_for_capability p c)) caps),
     concat (map (\<lambda>c. map spec_framework (plugins_for_capability p c)) caps))"
  by (induction caps) (auto simp: Let_def)

definition requested_of :: "PlatformFamily \<Rightarrow> MemoryCapability list option \<Rightarrow> MemoryCapability list" where
  "requested_of p req = (case req of None \<Rightarrow> capabilities_for_platform p | Some cs \<Rightarrow> cs)"

definition plan_runs :: "PlatformFamily \<Rightarrow> MemoryCapability list option \<Rightarrow> bool" where
  "plan_runs p req \<longleftrightarrow> p \<in> {WINDOWS, LINUX} \<and> requested_of p req \<noteq> []"

lemma plan_platform:
  "detected_platform (build_memory_analysis_plan env_at resolve syms ev path req) =
    probe_platform (probe_memory_platform (env_at (fst (plan_path path resolve ev))) (me_detected_format ev) True (me_sha256 ev))"
  by (simp add: build_memory_analysis_plan_def Let_def empty_plan_def case_prod_unfold split: option.split)

lemma plan_empty:
  fixes env_at resolve syms ev path req
  defines "plan \<equiv> build_memory_analysis_plan env_at resolve syms ev path req"
  assumes "\<not> plan_runs (detected_platform plan) req"
  shows "selected_plugins plan = [] \<and> eligible_capabilities plan = [] \<and> ineligible_capabilities plan = []
    \<and> plan_readiness plan \<in> {INVALID_EVIDENCE, PLATFORM_UNKNOWN, PLATFORM_UNSUPPORTED}"
proof -
  define p where "p = probe_platform (probe_memory_platform (env_at (fst (plan_path path resolve ev))) (me_detected_format ev) True (me_sha256 ev))"
  have "p = UNKNOWN \<or> p \<in> {MACOS, UNSUPPORTED} \<or> p \<in> {WINDOWS, LINUX} \<and> (case req of None \<Rightarrow> capabilities_for_platform p | Some cs \<Rightarrow> cs) = []"
    using assms(2) unfolding plan_def plan_platform p_def[symmetric] by (cases p) (auto simp: plan_runs_def requested_of_def)
  then show ?thesis
    unfolding plan_def build_memory_analysis_plan_def Let_def case_prod_unfold p_def[symmetric]
    by (elim disjE) (auto simp: empty_plan_def split: option.split)
qed

lemma plan_full:
  fixes env_at resolve syms ev path req
  defines "plan \<equiv> build_memory_analysis_plan env_at resolve syms ev path req"
  assumes "plan_runs (detected_platform plan) req"
  shows "eligible_capabilities plan = filter (\<lambda>c. plugins_for_capability (detected_platform plan) c \<noteq> []) (requested_of (detected_platform plan) req)"
    "ineligible_capabilities plan = map (\<lambda>c. (c, PLATFORM_MISMATCH))
       (filter (\<lambda>c. plugins_for_capability (detected_platform plan) c = []) (requested_of (detected_platform plan) req))"
    "selected_plugins plan = concat (map (\<lambda>c. map spec_plugin (plugins_for_capability (detected_platform plan) c)) (requested_of (detected_platform plan) req))"
    "plan_readiness plan = fst (plan_state (detected_platform plan) (if detected_platform plan = LINUX then Some syms else None)
       (eligible_capabilities plan) (ineligible_capabilities plan) (length (requested_of (detected_platform plan) req)))"
proof -
  define p where "p = detected_platform plan"
  have pp: "probe_platform (probe_memory_platform (env_at (fst (plan_path path resolve ev))) (me_detected_format ev) True (me_sha256 ev)) = p"
    by (simp add: p_def plan_def plan_platform)
  have np: "p \<noteq> UNKNOWN" "p \<notin> {MACOS, UNSUPPORTED}" "requested_of p req \<noteq> []" using assms(2) by (auto simp: p_def[symmetric] plan_runs_def)
  note unf = plan_def build_memory_analysis_plan_def Let_def case_prod_unfold pp requested_of_def[symmetric] if_not_P[OF np(1)] if_not_P[OF np(2)] if_not_P[OF np(3)]
  show "eligible_capabilities plan = filter (\<lambda>c. plugins_for_capability (detected_platform plan) c \<noteq> []) (requested_of (detected_platform plan) req)"
    "ineligible_capabilities plan = map (\<lambda>c. (c, PLATFORM_MISMATCH))
       (filter (\<lambda>c. plugins_for_capability (detected_platform plan) c = []) (requested_of (detected_platform plan) req))"
    "selected_plugins plan = concat (map (\<lambda>c. map spec_plugin (plugins_for_capability (detected_platform plan) c)) (requested_of (detected_platform plan) req))"
    "plan_readiness plan = fst (plan_state (detected_platform plan) (if detected_platform plan = LINUX then Some syms else None)
       (eligible_capabilities plan) (ineligible_capabilities plan) (length (requested_of (detected_platform plan) req)))"
    unfolding p_def[symmetric] unfolding unf by (simp_all add: select_plugins_eq)
qed

lemma plan_state_ready:
  "fst (plan_state p status eligible ineligible n) = READY \<longleftrightarrow>
    eligible \<noteq> [] \<and> ineligible = [] \<and> (p = LINUX \<longrightarrow> (\<exists>s. status = Some s \<and> symbols_present s))"
  by (simp add: plan_state_def split: option.split)

lemma registry_prefixes:
  "list_all (\<lambda>s. spec_platform s = LINUX \<longrightarrow> \<not> prefix ''windows.'' (spec_plugin s)) MEMORY_CAPABILITY_REGISTRY"
  by (simp add: MEMORY_CAPABILITY_REGISTRY_def WINDOWS_SPECS_def LINUX_SPECS_def)

text \<open>C28: A plan selects plugins only for a detected Windows or Linux image, and exactly those the
  registry has for that platform under an eligible capability, so that no Windows plugin is ever
  run against Linux memory; every requested capability is either eligible or listed as not
  available for the platform; and the plan is ready exactly if something was requested, all of
  it is eligible and, on Linux, the symbols are present and usable.\<close>

theorem plan_selects_registered_plugins:
  fixes env_at resolve syms ev path req
  defines "plan \<equiv> build_memory_analysis_plan env_at resolve syms ev path req"
  shows "(plugin \<in> set (selected_plugins plan) \<longleftrightarrow> detected_platform plan \<in> {WINDOWS, LINUX} \<and>
      (\<exists>spec \<in> set MEMORY_CAPABILITY_REGISTRY. spec_platform spec = detected_platform plan \<and> spec_plugin spec = plugin
        \<and> spec_capability spec \<in> set (eligible_capabilities plan)))
    \<and> (detected_platform plan = LINUX \<longrightarrow> plugin \<in> set (selected_plugins plan) \<longrightarrow> \<not> prefix ''windows.'' plugin)
    \<and> (detected_platform plan \<in> {WINDOWS, LINUX} \<longrightarrow>
        (c \<in> set (requested_of (detected_platform plan) req) \<longleftrightarrow>
          c \<in> set (eligible_capabilities plan) \<or> (c, PLATFORM_MISMATCH) \<in> set (ineligible_capabilities plan))
        \<and> \<not> (c \<in> set (eligible_capabilities plan) \<and> (c, PLATFORM_MISMATCH) \<in> set (ineligible_capabilities plan)))
    \<and> (plan_readiness plan = READY \<longleftrightarrow> detected_platform plan \<in> {WINDOWS, LINUX}
        \<and> requested_of (detected_platform plan) req \<noteq> [] \<and> ineligible_capabilities plan = []
        \<and> (detected_platform plan = LINUX \<longrightarrow> symbols_present syms))"
proof (cases "plan_runs (detected_platform plan) req")
  case True
  note full = plan_full[of env_at resolve syms ev path req, folded plan_def, OF True]
  have d: "detected_platform plan \<in> {WINDOWS, LINUX}" "requested_of (detected_platform plan) req \<noteq> []" using True by (auto simp: plan_runs_def)
  have sel: "plugin \<in> set (selected_plugins plan) \<longleftrightarrow> detected_platform plan \<in> {WINDOWS, LINUX} \<and>
      (\<exists>spec \<in> set MEMORY_CAPABILITY_REGISTRY. spec_platform spec = detected_platform plan \<and> spec_plugin spec = plugin
        \<and> spec_capability spec \<in> set (eligible_capabilities plan))"
    using d(1) unfolding full(1,3) by (auto simp: plugins_for_capability_def filter_empty_conv)
  moreover have "detected_platform plan = LINUX \<longrightarrow> plugin \<in> set (selected_plugins plan) \<longrightarrow> \<not> prefix ''windows.'' plugin"
    unfolding sel using registry_prefixes by (auto simp: list_all_iff)
  moreover have "(c \<in> set (requested_of (detected_platform plan) req) \<longleftrightarrow>
      c \<in> set (eligible_capabilities plan) \<or> (c, PLATFORM_MISMATCH) \<in> set (ineligible_capabilities plan))
    \<and> \<not> (c \<in> set (eligible_capabilities plan) \<and> (c, PLATFORM_MISMATCH) \<in> set (ineligible_capabilities plan))"
    unfolding full(1,2) by auto
  moreover have "plan_readiness plan = READY \<longleftrightarrow> ineligible_capabilities plan = [] \<and> (detected_platform plan = LINUX \<longrightarrow> symbols_present syms)"
  proof -
    have "ineligible_capabilities plan = [] \<Longrightarrow> eligible_capabilities plan \<noteq> []"
      using d(2) unfolding full(1,2) by (auto simp: filter_empty_conv)
    then show ?thesis unfolding full(4) plan_state_ready by auto
  qed
  ultimately show ?thesis using d by blast
next
  case False
  then show ?thesis using plan_empty[of env_at resolve syms ev path req, folded plan_def, OF False]
    by (auto simp: plan_runs_def)
qed

definition example_plan :: MemoryAnalysisPlan where
  "example_plan = build_memory_analysis_plan (\<lambda>_. example_env) (Inr ''image.lime'')
     \<lparr>symbols_found = True, symbols_valid = True, symbols_compatible = True, volatility_selectable = True, symbol_reason_code = None\<rparr>
     \<lparr>me_id = ''e1'', me_stored_path = '''', me_detected_format = Some ''lime'', me_sha256 = None\<rparr> None (Some [PROCESSES, MODULES])"

theorem plan_selects_registered_plugins_witness:
  "detected_platform example_plan = LINUX \<and> ''linux.psaux'' \<in> set (selected_plugins example_plan)
    \<and> (MODULES, PLATFORM_MISMATCH) \<in> set (ineligible_capabilities example_plan) \<and> plan_readiness example_plan \<noteq> READY"
proof -
  have head: "fst (classify_from_head (image_head example_env)) = UNKNOWN"
    using example_head[of "signatures example_env"] by simp
  have d: "detected_platform example_plan = LINUX"
    unfolding example_plan_def plan_platform using probe_of_resolving_format[OF head, of "''lime''" LINUX X64 HIGH]
    by (simp add: PLATFORM_RESOLVING_FORMATS_def)
  note plan = plan_selects_registered_plugins[where plugin = "''linux.psaux''" and c = MODULES and env_at = "\<lambda>_. example_env"
    and resolve = "Inr ''image.lime''" and path = None and req = "Some [PROCESSES, MODULES]"
    and syms = "\<lparr>symbols_found = True, symbols_valid = True, symbols_compatible = True, volatility_selectable = True, symbol_reason_code = None\<rparr>"
    and ev = "\<lparr>me_id = ''e1'', me_stored_path = '''', me_detected_format = Some ''lime'', me_sha256 = None\<rparr>", folded example_plan_def]
  have r: "requested_of LINUX (Some [PROCESSES, MODULES]) = [PROCESSES, MODULES]" by (simp add: requested_of_def)
  have none: "plugins_for_capability LINUX MODULES = []" and some: "plugins_for_capability LINUX PROCESSES \<noteq> []"
    by code_simp+
  have runs: "plan_runs (detected_platform example_plan) (Some [PROCESSES, MODULES])" by (simp add: d plan_runs_def r)
  note full = plan_full(1,2)[OF runs[unfolded example_plan_def], folded example_plan_def, unfolded d r]
  have el: "PROCESSES \<in> set (eligible_capabilities example_plan)" "(MODULES, PLATFORM_MISMATCH) \<in> set (ineligible_capabilities example_plan)"
    using full none some by simp_all
  have "\<exists>spec \<in> set MEMORY_CAPABILITY_REGISTRY. spec_platform spec = LINUX \<and> spec_plugin spec = ''linux.psaux'' \<and> spec_capability spec = PROCESSES"
    by (simp add: MEMORY_CAPABILITY_REGISTRY_def LINUX_SPECS_def)
  then have "''linux.psaux'' \<in> set (selected_plugins example_plan)"
    using plan d el(1) by auto
  moreover have "plan_readiness example_plan \<noteq> READY" using plan el(2) by auto
  ultimately show ?thesis using d el by simp
qed

end
