(* ===== verification/Sigma_Tables.thy ===== *)
theory Sigma_Tables
  imports Python_Values
begin

section \<open>Sigma rules: fields, log sources and limits\<close>

text \<open>
  The tables of \<^verbatim>\<open>rules_engine/sigma.py\<close> in source order: which document fields a Sigma field
  reads, which channels, event identifiers and record types a log source stands for, and the
  limits of the engine. Sets are lists without repetition.
\<close>

definition SIGMA_FIELD_MAP :: "(string \<times> string list) list" where
  "SIGMA_FIELD_MAP =
    [(''EventID'', [''windows.event_id'']), (''EventId'', [''windows.event_id'']), (''Channel'', [''windows.channel'']),
     (''Provider_Name'', [''windows.provider'']), (''Computer'', [''host.name'']),
     (''User'', [''user.name'', ''linux.username'']), (''TargetUserName'', [''user.name'']),
     (''SubjectUserName'', [''user.name'']),
     (''Image'', [''process.executable'', ''process.path'', ''process.name'', ''linux.process'']),
     (''NewProcessName'', [''process.executable'', ''process.path'', ''process.name'']),
     (''ProcessName'', [''process.name'', ''process.executable'', ''process.path'', ''linux.process'']),
     (''CommandLine'', [''process.command_line'', ''linux.command'']),
     (''ParentImage'', [''process.parent.executable'', ''process.parent.path'', ''process.parent_path'', ''process.parent_name'', ''parent.process.executable'', ''parent.process.path'', ''parent.process.name'']),
     (''ParentProcessName'', [''process.parent.name'', ''process.parent.path'', ''process.parent_name'', ''process.parent_path'', ''parent.process.name'', ''parent.process.path'']),
     (''ParentCommandLine'', [''process.parent.command_line'', ''process.parent_command_line'', ''parent.process.command_line'']),
     (''TargetFilename'', [''file.path'', ''target.filename'']),
     (''ImageLoaded'', [''image.loaded.path'', ''module.path'', ''file.path'']),
     (''DestinationIp'', [''destination.ip'', ''network.destination_ip'']),
     (''DestinationPort'', [''destination.port'', ''network.destination_port'']),
     (''SourceIp'', [''source.ip'', ''network.source_ip'']), (''SourcePort'', [''source.port'', ''network.source_port'']),
     (''DestinationHostname'', [''destination.hostname'', ''url.domain'', ''dns.domain'']),
     (''QueryName'', [''dns.question.name'', ''dns.query'', ''dns.domain'', ''dns.name'']),
     (''Hashes'', [''process.hash.sha256'', ''process.hash.sha1'', ''process.hash.md5'', ''process.hashes.sha256'', ''process.hashes.sha1'', ''process.hashes.md5'', ''file.hash.sha256'', ''file.hash.sha1'', ''file.hash.md5'', ''file.sha256'', ''file.sha1'', ''file.md5'']),
     (''TargetObject'', [''registry.path'', ''registry.key_path'']),
     (''Details'', [''registry.data'', ''registry.value_data'']),
     (''EventType'', [''registry.event_type'', ''event.action'', ''event.type'']),
     (''GrantedAccess'', [''process.granted_access'', ''windows.event_data.GrantedAccess'', ''winlog.event_data.GrantedAccess'']),
     (''ScriptBlockText'', [''powershell.script_block_text'', ''search_text'']), (''Url'', [''url.full'', ''download.url'']),
     (''_keywords'', [''message'', ''search_text'']), (''cs-method'', [''http.request.method'', ''linux.http_method'']),
     (''sc-status'', [''http.response.status_code'', ''linux.http_status'']), (''cs-uri-stem'', [''linux.url_stem'']),
     (''cs-uri-query'', [''linux.url_query'']), (''cs-uri'', [''linux.url_path'', ''url.path'']),
     (''c-uri'', [''linux.url_path'', ''url.path'']), (''cs-user-agent'', [''user_agent.original'', ''linux.http_user_agent'']),
     (''c-useragent'', [''user_agent.original'', ''linux.http_user_agent'']), (''cs-referer'', [''linux.http_referrer'']),
     (''cs-referrer'', [''linux.http_referrer'']), (''cs-host'', [''linux.http_host'']),
     (''cs-username'', [''user.name'', ''linux.username'']),
     (''c-ip'', [''network.source_ip'', ''source.ip'', ''linux.source_ip'']), (''cs-version'', [''linux.http_protocol'']),
     (''sc-bytes'', [''linux.bytes_sent'']), (''type'', [''linux.audit_type'']),
     (''exe'', [''process.executable'', ''linux.exe'']), (''key'', [''linux.audit_key'']), (''euid'', [''linux.euid'']),
     (''SYSCALL'', [''linux.syscall'']), (''name'', [''linux.audit_name'']),
     (''cwd'', [''process.working_directory'', ''linux.cwd'']),
     (''CurrentDirectory'', [''process.working_directory'', ''linux.cwd'']), (''a0'', [''linux.audit_a0'']),
     (''a1'', [''linux.audit_a1'']), (''a2'', [''linux.audit_a2'']), (''a3'', [''linux.audit_a3'']),
     (''a4'', [''linux.audit_a4'']), (''a5'', [''linux.audit_a5'']), (''a6'', [''linux.audit_a6'']),
     (''a7'', [''linux.audit_a7'']), (''ServiceName'', [''service.name'', ''service.display_name'']),
     (''ServiceFileName'', [''service.image_path'']), (''ImagePath'', [''service.image_path'', ''process.executable'']),
     (''ObjectName'', [''object.name'', ''registry.path'']), (''ObjectType'', [''object.type'']),
     (''EventLog'', [''windows.channel'', ''event.channel'']), (''OriginalFileName'', [''process.original_file_name'']),
     (''IntegrityLevel'', [''process.integrity_level_name'']), (''Description'', [''process.description'']),
     (''Product'', [''process.product'']), (''Company'', [''process.company''])]"

definition WINDOWS_EVENT_LOG_ARTIFACT_TYPES :: "string list" where
  "WINDOWS_EVENT_LOG_ARTIFACT_TYPES = [''evtx_raw'', ''memprocfs_eventlog'', ''windows_event'']"

definition MODIFIER_SUFFIXES :: "string list" where
  "MODIFIER_SUFFIXES = [''|contains'', ''|endswith'', ''|startswith'', ''|re'', ''|all'']"

definition SEARCH_TEXT_FALLBACK_FIELDS :: "string list" where
  "SEARCH_TEXT_FALLBACK_FIELDS = [''CommandLine'', ''Details'', ''ParentCommandLine'', ''ScriptBlockText'']"

definition SIGMA_EVENT_ID_HINTS :: "(string \<times> int list) list" where
  "SIGMA_EVENT_ID_HINTS =
    [(''process_creation'', [1, 4688]), (''registry_set'', [12, 13, 14]), (''file_event'', [11, 15, 23, 26]),
     (''network_connection'', [3]), (''image_load'', [7]), (''pipe_created'', [17, 18]),
     (''powershell'', [400, 403, 4103, 4104, 600, 800])]"

definition SIGMA_CATEGORY_EVENT_TYPE_HINTS :: "(string \<times> string list) list" where
  "SIGMA_CATEGORY_EVENT_TYPE_HINTS =
    [(''process_creation'', [''process_creation'', ''process_created'', ''sysmon_process_created'', ''security_process_created'', ''linux_shell_history'', ''execve'', ''user_cmd'']),
     (''webserver'', [''apache_access'', ''web_access'']),
     (''registry_set'', [''registry_set'', ''registry_value_set'', ''sysmon_registry_set'']),
     (''file_event'', [''file_event'', ''file_create'', ''file_created'', ''sysmon_file_created'']),
     (''network_connection'', [''network_connection'', ''network_connected'', ''sysmon_network_connection'']),
     (''image_load'', [''image_load'', ''image_loaded'', ''sysmon_image_loaded'']),
     (''pipe_created'', [''pipe_created'', ''named_pipe_created'', ''sysmon_pipe_created'']),
     (''powershell'', [''powershell'', ''script_block'', ''powershell_script_block''])]"

definition LINUX_SERVICE_ARTIFACT_TYPES :: "(string \<times> string list) list" where
  "LINUX_SERVICE_ARTIFACT_TYPES =
    [(''auth'', [''linux_auth'', ''linux_generic_log'', ''linux_journal'', ''linux_syslog'']),
     (''sshd'', [''linux_auth'', ''linux_generic_log'', ''linux_journal'', ''linux_syslog'']),
     (''sudo'', [''linux_auth'', ''linux_generic_log'', ''linux_journal'', ''linux_syslog'']),
     (''syslog'', [''linux_generic_log'', ''linux_journal'', ''linux_syslog'']),
     (''cron'', [''linux_cron'', ''linux_generic_log'', ''linux_journal'', ''linux_syslog'']), (''auditd'', [''linux_audit''])]"

definition SIGMA_SERVICE_CHANNEL_HINTS :: "(string \<times> string list) list" where
  "SIGMA_SERVICE_CHANNEL_HINTS =
    [(''sysmon'', [''microsoft-windows-sysmon/operational'']), (''security'', [''security'']), (''system'', [''system'']),
     (''application'', [''application'']),
     (''powershell'', [''microsoft-windows-powershell/operational'', ''powershellcore/operational'', ''windows powershell'']),
     (''powershell-classic'', [''windows powershell'']),
     (''powershell-operational'', [''microsoft-windows-powershell/operational'', ''powershellcore/operational'']),
     (''defender'', [''microsoft-windows-windows defender/operational'']),
     (''windefend'', [''microsoft-windows-windows defender/operational'']),
     (''taskscheduler'', [''microsoft-windows-taskscheduler/operational'']),
     (''wmi'', [''microsoft-windows-wmi-activity/operational'']), (''applocker'', [''microsoft-windows-applocker/*'']),
     (''dns-server'', [''dns server'']), (''dns-server-analytic'', [''microsoft-windows-dns-server/analytical'']),
     (''dns-client'', [''microsoft-windows-dns-client/operational'', ''microsoft-windows-dns client events/operational'']),
     (''driver-framework'', [''microsoft-windows-driverframeworks-usermode/operational'']),
     (''ntlm'', [''microsoft-windows-ntlm/operational'']),
     (''codeintegrity-operational'', [''microsoft-windows-codeintegrity/operational'']),
     (''firewall-as'', [''microsoft-windows-windows firewall with advanced security/firewall'']),
     (''bits-client'', [''microsoft-windows-bits-client/operational'']),
     (''terminalservices-localsessionmanager'', [''microsoft-windows-terminalservices-localsessionmanager/operational'']),
     (''smbclient-security'', [''microsoft-windows-smbclient/security'']),
     (''smbclient-connectivity'', [''microsoft-windows-smbclient/connectivity'']),
     (''printservice-admin'', [''microsoft-windows-printservice/admin'']),
     (''printservice-operational'', [''microsoft-windows-printservice/operational'']),
     (''shell-core'', [''microsoft-windows-shell-core/operational'']), (''openssh'', [''openssh/operational'']),
     (''lsa-server'', [''microsoft-windows-lsa/operational'']), (''capi2'', [''microsoft-windows-capi2/operational'']),
     (''appxpackaging-om'', [''microsoft-windows-appxpackaging/operational'']),
     (''appxdeployment-server'', [''microsoft-windows-appxdeploymentserver/operational'']),
     (''appmodel-runtime'', [''microsoft-windows-appmodel-runtime/admin'']),
     (''security-mitigations'', [''microsoft-windows-security-mitigations/*'']),
     (''diagnosis-scripted'', [''microsoft-windows-diagnosis-scripted/operational'']),
     (''dhcp'', [''microsoft-windows-dhcp-server/operational'']), (''msexchange-management'', [''msexchange management'']),
     (''certificateservicesclient-lifecycle-system'', [''microsoft-windows-certificateservicesclient-lifecycle-system/operational'']),
     (''kernel-shimengine'', [''microsoft-windows-kernel-shimengine/*'']), (''ldap'', [''microsoft-windows-ldap-client/debug''])]"

definition SYSMON_ONLY_CATEGORIES :: "string list" where
  "SYSMON_ONLY_CATEGORIES =
    [''registry_set'', ''registry_add'', ''registry_delete'', ''registry_event'', ''registry_rename'', ''file_event'',
     ''file_delete'', ''file_change'', ''file_access'', ''file_rename'', ''file_block_executable'', ''file_block_shredding'',
     ''file_executable_detected'', ''network_connection'', ''image_load'', ''pipe_created'', ''process_access'',
     ''create_remote_thread'', ''driver_load'', ''dns_query'', ''wmi_event'', ''raw_access_thread'', ''create_stream_hash'',
     ''process_tampering'', ''clipboard_capture'', ''process_termination'', ''sysmon_status'', ''sysmon_error'']"

definition SIGMA_CATEGORY_SERVICE_HINTS :: "(string \<times> string list) list" where
  "SIGMA_CATEGORY_SERVICE_HINTS =
    map (\<lambda>category. (category, [''sysmon''])) SYSMON_ONLY_CATEGORIES @
    [(''process_creation'', [''sysmon'', ''security'']), (''powershell'', [''powershell'']),
     (''ps_script'', [''powershell-operational'']), (''ps_module'', [''powershell-operational'']),
     (''ps_classic_start'', [''powershell-classic'']), (''ps_classic_provider_start'', [''powershell-classic'']),
     (''ps_classic_script'', [''powershell-classic''])]"

definition SUPPORTED_MODIFIERS :: "string list" where
  "SUPPORTED_MODIFIERS = [''all'', ''contains'', ''endswith'', ''re'', ''startswith'', ''windash'']"

definition MAX_EXPANDED_SELECTORS_PER_RULE :: nat where "MAX_EXPANDED_SELECTORS_PER_RULE = 100"

definition MAX_TOTAL_LEAF_CONDITIONS :: nat where "MAX_TOTAL_LEAF_CONDITIONS = 200"

definition MAX_KEYWORDS_PER_SELECTION :: nat where "MAX_KEYWORDS_PER_SELECTION = 200"

definition MIN_KEYWORD_LITERAL_CHARS :: nat where "MIN_KEYWORD_LITERAL_CHARS = 3"

definition MIN_KEYWORD_RUN_CHARS :: nat where "MIN_KEYWORD_RUN_CHARS = 2"

definition KEYWORD_CANDIDATE_RUNS :: nat where "KEYWORD_CANDIDATE_RUNS = 3"

definition KEYWORD_PSEUDO_FIELD :: string where "KEYWORD_PSEUDO_FIELD = ''_keywords''"

definition NON_QUERYABLE_FIELD_PREFIXES :: "string list" where
  "NON_QUERYABLE_FIELD_PREFIXES = [''windows.event_data.'', ''winlog.event_data.'']"

definition BASENAME_ALTERNATE_FIELDS :: "(string \<times> string) list" where
  "BASENAME_ALTERNATE_FIELDS = [(''Image'', ''process.name''), (''ProcessName'', ''process.name''), (''ParentImage'', ''process.parent_name'')]"

end
