(* ===== verification/Sigma_Condition.thy ===== *)
theory Sigma_Condition
  imports Sigma_Tables "HOL-Library.Char_ord" "HOL-Library.List_Lexorder"
begin

section \<open>Sigma rules: conditions\<close>

text \<open>
  \<^verbatim>\<open>rules_engine/sigma.py\<close>, the language of \<^verbatim>\<open>detection.condition\<close>: expansion of the
  \<^verbatim>\<open>1 of\<close> and \<^verbatim>\<open>all of\<close> terms, tokens, the shunting-yard translation to reverse Polish
  notation, and its evaluation on a stack. The regular expressions of the source are written
  out as scanners; every alternative of them matches in at most one way, so that no
  backtracking is lost. A stack's top is the head of its list.
\<close>

datatype sigma_error = SigmaValueError string | SigmaIndexError | SigmaRegexError

subsection \<open>Tokens\<close>

definition cond_char :: "char \<Rightarrow> bool" where
  "cond_char c = (let n = code_point c in 48 \<le> n \<and> n \<le> 57 \<or> 65 \<le> n \<and> n \<le> 90 \<or> 97 \<le> n \<and> n \<le> 122 \<or> c = CHR ''_'' \<or> c = CHR ''*'')"

text \<open>\<^verbatim>\<open>\bword\b\<close>, ignoring case, at a place that follows a word character or not.\<close>

definition word_here :: "bool \<Rightarrow> string \<Rightarrow> string \<Rightarrow> bool" where
  "word_here after_word w s \<longleftrightarrow> \<not> after_word \<and> py_lower (take (length w) s) = w
     \<and> (drop (length w) s = [] \<or> \<not> re_word (hd (drop (length w) s)))"

definition keyword_at :: "bool \<Rightarrow> string \<Rightarrow> string option" where
  "keyword_at after_word s = map_option (\<lambda>w. take (length w) s) (find (\<lambda>w. word_here after_word w s) [''and'', ''or'', ''not''])"

lemma word_here_length: "word_here a w s \<Longrightarrow> length w \<le> length s"
  unfolding word_here_def py_lower_def by (metis length_map length_take min.absorb_iff2)

lemma keyword_atE:
  assumes "keyword_at a s = Some w"
  obtains k where "word_here a k s" "w = take (length k) s" "k \<in> {''and'', ''or'', ''not''}"
proof -
  obtain k where k: "find (\<lambda>k. word_here a k s) [''and'', ''or'', ''not''] = Some k" "w = take (length k) s"
    using assms by (auto simp: keyword_at_def)
  then show thesis using that find_SomeD[OF k(1)] by auto
qed

lemma keyword_at_length: "keyword_at a s = Some w \<Longrightarrow> 1 \<le> length w \<and> length w \<le> length s"
  by (erule keyword_atE) (auto dest: word_here_length)

function condition_tokens :: "bool \<Rightarrow> string \<Rightarrow> string list" where
  "condition_tokens after_word [] = []"
| "condition_tokens after_word (c # cs) =
    (if c = CHR ''('' \<or> c = CHR '')'' then [c] # condition_tokens False cs
     else case keyword_at after_word (c # cs) of
       Some w \<Rightarrow> w # condition_tokens True (drop (length w) (c # cs))
     | None \<Rightarrow>
         if cond_char c then
           (let run = takeWhile cond_char (c # cs) in
            run # condition_tokens (re_word (last run)) (drop (length run) (c # cs)))
         else condition_tokens (re_word c) cs)"
  by pat_completeness auto
termination
  by (relation "measure (\<lambda>(_, s). length s)") (auto dest!: keyword_at_length)

declare condition_tokens.simps(2) [simp del]

definition OPERATOR_TOKENS :: "string list" where
  "OPERATOR_TOKENS = [''and'', ''or'', ''not'', ''('', '')'']"

definition tokenize_condition :: "string \<Rightarrow> sigma_error + string list" where
  "tokenize_condition condition =
    (let tokens = condition_tokens False condition in
     if tokens = [] then Inl (SigmaValueError ''Unsupported empty Sigma condition.'')
     else Inr (map (\<lambda>t. if py_lower t \<in> set OPERATOR_TOKENS then py_lower t else t) tokens))"

subsection \<open>Reverse Polish notation\<close>

definition precedence :: "string \<Rightarrow> nat option" where
  "precedence = map_of [(''or'', 1), (''and'', 2), (''not'', 3)]"

definition binds :: "nat \<Rightarrow> string \<Rightarrow> bool" where
  "binds p t \<longleftrightarrow> (case precedence t of Some q \<Rightarrow> p \<le> q | None \<Rightarrow> False)"

definition unbalanced :: sigma_error where
  "unbalanced = SigmaValueError ''Unbalanced parentheses in Sigma condition.''"

fun rpn_loop :: "string list \<Rightarrow> string list \<Rightarrow> string list \<Rightarrow> sigma_error + string list" where
  "rpn_loop [] output stack = (if ''('' \<in> set stack \<or> '')'' \<in> set stack then Inl unbalanced else Inr (output @ stack))"
| "rpn_loop (t # ts) output stack =
    (if t = ''('' then rpn_loop ts output (t # stack)
     else if t = '')'' then
       (case dropWhile (\<lambda>x. x \<noteq> ''('') stack of
          [] \<Rightarrow> Inl unbalanced
        | _ # stack' \<Rightarrow> rpn_loop ts (output @ takeWhile (\<lambda>x. x \<noteq> ''('') stack) stack')
     else case precedence t of
       Some p \<Rightarrow> rpn_loop ts (output @ takeWhile (binds p) stack) (t # dropWhile (binds p) stack)
     | None \<Rightarrow> rpn_loop ts (output @ [t]) stack)"

definition to_rpn :: "string list \<Rightarrow> sigma_error + string list" where
  "to_rpn tokens = rpn_loop tokens [] []"

subsection \<open>Evaluation\<close>

text \<open>
  One selection's outcome: whether it matched, the matched fields and remarks on data
  quality. \<open>names\<close> are the selections a token stands for and \<open>look\<close> tests one of them; the
  outcomes found so far are kept.
\<close>

type_synonym 'm outcome = "bool \<times> (string \<times> 'm) list \<times> string list"

definition dict_merge :: "('k \<times> 'v) list \<Rightarrow> ('k \<times> 'v) list \<Rightarrow> ('k \<times> 'v) list" where
  "dict_merge d e = fold (\<lambda>(k, v). dict_set k v) e d"

fun aggregate :: "(string \<Rightarrow> sigma_error + 'm outcome) \<Rightarrow> string list \<Rightarrow> (string \<times> 'm outcome) list \<Rightarrow> 'm outcome
    \<Rightarrow> sigma_error + 'm outcome \<times> (string \<times> 'm outcome) list" where
  "aggregate look [] results acc = Inr (acc, results)"
| "aggregate look (name # names) results (m, fs, q) =
    (case map_of results name of
       Some (m', fs', q') \<Rightarrow> aggregate look names results (m \<or> m', if m' then dict_merge fs fs' else fs, q @ q')
     | None \<Rightarrow> res_bind (look name) (\<lambda>(m', fs', q').
         aggregate look names (dict_set name (m', fs', q') results) (m \<or> m', if m' then dict_merge fs fs' else fs, q @ q')))"

text \<open>One token of the loop, on the outcomes found so far and the stack.\<close>

definition rpn_not :: "'m outcome list \<Rightarrow> sigma_error + 'm outcome list" where
  "rpn_not stack = (case stack of
     (v, fs, q) # stack' \<Rightarrow> Inr ((\<not> v, if v then [] else fs, q) # stack')
   | [] \<Rightarrow> Inl SigmaIndexError)"

definition rpn_binary :: "bool \<Rightarrow> 'm outcome list \<Rightarrow> sigma_error + 'm outcome list" where
  "rpn_binary is_and stack = (case stack of
     (rv, rf, rq) # (lv, lf, lq) # stack' \<Rightarrow>
       Inr ((if is_and then (lv \<and> rv, dict_merge lf rf, lq @ rq) else (lv \<or> rv, if rv then rf else lf, lq @ rq)) # stack')
   | _ \<Rightarrow> Inl SigmaIndexError)"

definition rpn_step :: "(string \<Rightarrow> string list) \<Rightarrow> (string \<Rightarrow> sigma_error + 'm outcome) \<Rightarrow> string
    \<Rightarrow> (string \<times> 'm outcome) list \<times> 'm outcome list \<Rightarrow> sigma_error + (string \<times> 'm outcome) list \<times> 'm outcome list" where
  "rpn_step names look t st = (case st of (results, stack) \<Rightarrow>
     if t = ''not'' then res_bind (rpn_not stack) (\<lambda>stack'. Inr (results, stack'))
     else if t = ''and'' \<or> t = ''or'' then res_bind (rpn_binary (t = ''and'') stack) (\<lambda>stack'. Inr (results, stack'))
     else if names t = [] then Inl (SigmaValueError (''Unsupported Sigma condition token: '' @ t))
     else res_bind (aggregate look (names t) results (False, [], [])) (\<lambda>(r, results'). Inr (results', r # stack)))"

definition eval_condition :: "(string \<Rightarrow> string list) \<Rightarrow> (string \<Rightarrow> sigma_error + 'm outcome) \<Rightarrow> string list \<Rightarrow> sigma_error + 'm outcome" where
  "eval_condition names look rpn =
    res_bind (fold_res (rpn_step names look) rpn ([], [])) (\<lambda>(results, stack). case stack of
      [r] \<Rightarrow> Inr r
    | _ \<Rightarrow> Inl (SigmaValueError ''Unsupported Sigma condition expression.''))"

subsection \<open>Names with wildcards\<close>

text \<open>
  The pattern the source builds from a name: \<open>*\<close> is \<^verbatim>\<open>.*\<close>, the rest is literal, anchored at
  both ends (the \<^verbatim>\<open>$\<close> also before a final line feed).
\<close>

fun glob_match :: "string \<Rightarrow> string \<Rightarrow> bool" where
  "glob_match [] s = (s = [] \<or> s = [line_feed])"
| "glob_match (p # ps) [] = (p = CHR ''*'' \<and> glob_match ps [])"
| "glob_match (p # ps) (c # cs) =
    (if p = CHR ''*'' then glob_match ps (c # cs) \<or> c \<noteq> line_feed \<and> glob_match (p # ps) cs
     else c = p \<and> glob_match ps cs)"

definition expand_selection_tokens :: "string list \<Rightarrow> string \<Rightarrow> string list" where
  "expand_selection_tokens names token =
    (if CHR ''*'' \<notin> set token then [token] else filter (\<lambda>n. n \<noteq> ''condition'' \<and> glob_match token n) names)"

definition selector_matches :: "string \<Rightarrow> string list \<Rightarrow> string list" where
  "selector_matches selector candidates =
    (if selector = ''them'' then candidates
     else if CHR ''*'' \<notin> set selector then (if selector \<in> set candidates then [selector] else [])
     else filter (glob_match selector) candidates)"

subsection \<open>Expansion of quantified terms\<close>

text \<open>
  \<^verbatim>\<open>SIGMA_EXPANSION_PATTERN\<close> at a place: quantifier, selector and what follows. The quantifier is
  tried as \<open>1\<close> and as \<open>all\<close>.
\<close>

definition quantified_at :: "string \<Rightarrow> string \<Rightarrow> (string \<times> string \<times> string) option" where
  "quantified_at q s =
    (let s1 = drop (length q) s; sp1 = takeWhile py_isspace s1; s2 = drop (length sp1) s1;
         s3 = drop 2 s2; sp2 = takeWhile py_isspace s3; s4 = drop (length sp2) s3;
         sel = takeWhile cond_char s4; s5 = drop (length sel) s4 in
     if py_lower (take (length q) s) = q \<and> sp1 \<noteq> [] \<and> py_lower (take 2 s2) = ''of'' \<and> sp2 \<noteq> []
       \<and> sel \<noteq> [] \<and> hd sel \<noteq> CHR ''*'' \<and> (s5 = [] \<or> py_isspace (hd s5) \<or> hd s5 = CHR '')'')
     then Some (q, sel, s5) else None)"

definition expansion_at :: "string \<Rightarrow> (string \<times> string \<times> string) option" where
  "expansion_at s = (case quantified_at ''1'' s of Some r \<Rightarrow> Some r | None \<Rightarrow> quantified_at ''all'' s)"

lemma quantified_at_shorter: "quantified_at q s = Some (q', sel, rest) \<Longrightarrow> length rest < length s"
proof -
  assume a: "quantified_at q s = Some (q', sel, rest)"
  define s1 where "s1 = drop (length q) s"
  define s3 where "s3 = drop 2 (drop (length (takeWhile py_isspace s1)) s1)"
  define s4 where "s4 = drop (length (takeWhile py_isspace s3)) s3"
  have r: "rest = drop (length (takeWhile cond_char s4)) s4" and n: "takeWhile cond_char s4 \<noteq> []"
    using a unfolding quantified_at_def Let_def s1_def[symmetric] unfolding s3_def[symmetric] unfolding s4_def[symmetric]
    by (auto split: if_splits simp del: drop_drop takeWhile_eq_Nil_iff)
  have "length rest < length s4" using r n by (cases s4) auto
  also have "\<dots> \<le> length s" by (simp add: s4_def s3_def s1_def)
  finally show ?thesis .
qed

lemma expansion_at_shorter: "expansion_at s = Some (q, sel, rest) \<Longrightarrow> length rest < length s"
  by (auto simp: expansion_at_def dest: quantified_at_shorter split: option.splits)

record expansion_state =
  leaf_conditions :: nat
  matched_selectors :: "(string \<times> string list) list"
  exp_warnings :: "string list"
  exp_features :: "string list"

definition py_join :: "string \<Rightarrow> string list \<Rightarrow> string" where
  "py_join sep xs = (case xs of [] \<Rightarrow> [] | x # xs' \<Rightarrow> x @ concat (map (\<lambda>y. sep @ y) xs'))"

text \<open>The replacement of one term; \<open>Inl\<close> carries the reason of the \<^verbatim>\<open>ValueError\<close> and the state left behind.\<close>

definition replace_match :: "string list \<Rightarrow> string \<Rightarrow> string \<Rightarrow> expansion_state \<Rightarrow> (string \<times> expansion_state) + string \<times> expansion_state" where
  "replace_match block_names quantifier selector st =
    (let is_filter = (\<lambda>n. prefix ''filter'' (py_lower n));
         them = (py_lower selector = ''them'');
         names = selector_matches selector (if them then filter (\<lambda>n. \<not> is_filter n) block_names else block_names);
         st1 = (if them \<and> list_ex is_filter block_names
           then st\<lparr>exp_warnings := exp_warnings st @ [''condition_them_excluded_filter_blocks'']\<rparr> else st) in
     if names = [] then Inl (''unsupported_condition_empty_selector'', st1)
     else if length names > MAX_EXPANDED_SELECTORS_PER_RULE then Inl (''expanded_condition_too_large'', st1)
     else let st2 = st1\<lparr>leaf_conditions := leaf_conditions st1 + length names\<rparr> in
     if leaf_conditions st2 > MAX_TOTAL_LEAF_CONDITIONS then Inl (''expanded_condition_too_large'', st2)
     else let st3 = st2\<lparr>matched_selectors := dict_set selector names (matched_selectors st2),
              exp_features := exp_features st2 @ [''condition_'' @ quantifier @ (if them then ''_of_them'' else ''_of'')]\<rparr>;
              expanded = py_join (if quantifier = ''1'' then '' or '' else '' and '') names in
       Inr (if length names > 1 then ''('' @ expanded @ '')'' else expanded, st3))"

function sub_terms :: "string list \<Rightarrow> bool \<Rightarrow> string \<Rightarrow> expansion_state \<Rightarrow> (string \<times> expansion_state) + string \<times> expansion_state" where
  "sub_terms block_names after_space [] st = Inr ([], st)"
| "sub_terms block_names after_space (c # cs) st =
    (case (if after_space then expansion_at (c # cs) else None) of
       Some (q, sel, rest) \<Rightarrow>
         res_bind (replace_match block_names q sel st) (\<lambda>(txt, st').
         res_bind (sub_terms block_names False rest st') (\<lambda>(r, st''). Inr (txt @ r, st'')))
     | None \<Rightarrow> res_bind (sub_terms block_names (py_isspace c) cs st) (\<lambda>(r, st'). Inr (c # r, st')))"
  by pat_completeness auto
termination
  by (relation "measure (\<lambda>(_, _, s, _). length s)") (auto dest: expansion_at_shorter split: if_splits)

fun expand_loop :: "string list \<Rightarrow> nat \<Rightarrow> string \<Rightarrow> expansion_state \<Rightarrow> (string \<times> string \<times> expansion_state) + string \<times> expansion_state" where
  "expand_loop block_names 0 condition st = Inr (condition, st)"
| "expand_loop block_names (Suc n) condition st =
    (case sub_terms block_names True condition st of
       Inl (reason, st') \<Rightarrow> Inl (reason, condition, st')
     | Inr (updated, st') \<Rightarrow> if updated = condition then Inr (condition, st') else expand_loop block_names n updated st')"

fun search_expansion :: "bool \<Rightarrow> string \<Rightarrow> bool" where
  "search_expansion after_space [] = False"
| "search_expansion after_space (c # cs) = (after_space \<and> expansion_at (c # cs) \<noteq> None \<or> search_expansion (py_isspace c) cs)"

record expansion =
  exp_supported :: bool
  expanded_condition :: string
  exp_unsupported_features :: "string list"
  exp_matched_selectors :: "(string \<times> string list) list"
  expansion_warnings :: "string list"
  exp_reason :: string
  exp_supported_features :: "string list"

text \<open>\<^verbatim>\<open>sorted(dict.fromkeys(xs))\<close>.\<close>

definition sorted_distinct :: "string list \<Rightarrow> string list" where
  "sorted_distinct xs = sort (remdups xs)"

definition expansion_of :: "bool \<Rightarrow> string \<Rightarrow> string list \<Rightarrow> string \<Rightarrow> expansion_state \<Rightarrow> expansion" where
  "expansion_of ok condition unsupported reason st = \<lparr>exp_supported = ok, expanded_condition = condition,
     exp_unsupported_features = unsupported, exp_matched_selectors = matched_selectors st,
     expansion_warnings = sorted_distinct (exp_warnings st), exp_reason = reason,
     exp_supported_features = sorted_distinct (exp_features st)\<rparr>"

definition no_terms :: expansion_state where
  "no_terms = \<lparr>leaf_conditions = 0, matched_selectors = [], exp_warnings = [], exp_features = []\<rparr>"

definition expand_condition :: "string list \<Rightarrow> string \<Rightarrow> expansion" where
  "expand_condition block_names condition =
    (if condition = [] then expansion_of False [] [''empty_condition''] ''empty_condition'' no_terms
     else case expand_loop block_names 8 condition no_terms of
       Inl (reason, expanded, st) \<Rightarrow> expansion_of False expanded [reason] reason st
     | Inr (expanded, st) \<Rightarrow>
         if search_expansion True expanded then expansion_of False expanded [''unsupported_condition''] ''unsupported_condition'' st
         else expansion_of True expanded [] (if matched_selectors st \<noteq> [] then ''expanded'' else ''simple_condition'') st)"

subsection \<open>Supported conditions\<close>

definition quantifier_here :: "bool \<Rightarrow> string \<Rightarrow> bool" where
  "quantifier_here after_word s \<longleftrightarrow> \<not> after_word \<and>
    (\<exists>n \<in> {length (takeWhile ascii_digit s)} \<union> (if py_lower (take 3 s) = ''all'' then {3} else {}).
      0 < n \<and> takeWhile py_isspace (drop n s) \<noteq> [] \<and> word_here False ''of'' (dropWhile py_isspace (drop n s)))"

definition correlation_here :: "bool \<Rightarrow> string \<Rightarrow> bool" where
  "correlation_here after_word s \<longleftrightarrow> list_ex (\<lambda>w. word_here after_word w s) [''near'', ''within'', ''by'']"

definition unsupported_here :: "bool \<Rightarrow> string \<Rightarrow> bool" where
  "unsupported_here after_word s \<longleftrightarrow> correlation_here after_word s \<or> quantifier_here after_word s \<or> word_here after_word ''them'' s"

fun re_search_words :: "(bool \<Rightarrow> string \<Rightarrow> bool) \<Rightarrow> bool \<Rightarrow> string \<Rightarrow> bool" where
  "re_search_words here after_word [] = False"
| "re_search_words here after_word (c # cs) = (here after_word (c # cs) \<or> re_search_words here (re_word c) cs)"

definition sigma_condition_supported :: "string \<Rightarrow> bool \<times> string option" where
  "sigma_condition_supported condition =
    (let normalized = py_strip condition in
     if normalized = [] then (False, Some ''empty_condition'')
     else if re_search_words unsupported_here False normalized then (False, Some ''unsupported_condition'')
     else case res_bind (tokenize_condition normalized) to_rpn of
       Inl _ \<Rightarrow> (False, Some ''unsupported_condition'')
     | Inr _ \<Rightarrow> (True, None))"

end
