(* ===== verification/Sigma_Match.thy ===== *)
theory Sigma_Match
  imports Sigma_Condition
begin

section \<open>Sigma rules: matching selections\<close>

text \<open>
  \<^verbatim>\<open>rules_engine/sigma.py\<close>: values of a document, the modifiers of a field, keywords, and
  whether a selection matches a document. Parameters: the text of floats and of containers,
  whether a float is zero, and \<^verbatim>\<open>re.search\<close> with \<^verbatim>\<open>re.IGNORECASE\<close>, \<open>None\<close> where it raises.
  Keys of YAML mappings are strings.
\<close>

record 'f sigma_ext =
  sx_float_str :: "'f \<Rightarrow> string"
  sx_container_str :: "'f json \<Rightarrow> string"
  sx_float_zero :: "'f \<Rightarrow> bool"
  sx_re_search :: "string \<Rightarrow> string \<Rightarrow> bool option"

fun py_str :: "'f sigma_ext \<Rightarrow> 'f json \<Rightarrow> string" where
  "py_str X JNull = ''None''"
| "py_str X (JBool b) = (if b then ''True'' else ''False'')"
| "py_str X (JInt n) = py_str_int n"
| "py_str X (JFloat x) = sx_float_str X x"
| "py_str X (JStr s) = s"
| "py_str X v = sx_container_str X v"

fun py_truth :: "'f sigma_ext \<Rightarrow> 'f json \<Rightarrow> bool" where
  "py_truth X JNull = False"
| "py_truth X (JBool b) = b"
| "py_truth X (JInt n) = (n \<noteq> 0)"
| "py_truth X (JFloat x) = (\<not> sx_float_zero X x)"
| "py_truth X (JStr s) = (s \<noteq> [])"
| "py_truth X (JList xs) = (xs \<noteq> [])"
| "py_truth X (JObj d) = (d \<noteq> [])"

text \<open>\<^verbatim>\<open>str(d.get(k) or "")\<close>.\<close>

definition str_or_empty :: "'f sigma_ext \<Rightarrow> 'f json \<Rightarrow> string" where
  "str_or_empty X v = (if py_truth X v then py_str X v else [])"

definition get_or_null :: "(string \<times> 'f json) list \<Rightarrow> string \<Rightarrow> 'f json" where
  "get_or_null d k = (case map_of d k of Some v \<Rightarrow> v | None \<Rightarrow> JNull)"

subsection \<open>Values of a document\<close>

definition get_nested_value :: "'f json \<Rightarrow> string \<Rightarrow> 'f json" where
  "get_nested_value document dotted =
     foldl (\<lambda>current part. case current of JObj d \<Rightarrow> get_or_null d part | _ \<Rightarrow> JNull) document (py_split_dot dotted)"

fun stringify_values :: "'f sigma_ext \<Rightarrow> 'f json \<Rightarrow> string list" where
  "stringify_values X JNull = []"
| "stringify_values X (JList xs) = concat (map (stringify_values X) xs)"
| "stringify_values X v = [py_str X v]"

fun flatten_values :: "'f json \<Rightarrow> 'f json list" where
  "flatten_values (JList xs) = xs"
| "flatten_values v = [v]"

subsection \<open>Fields and modifiers\<close>

definition split_field_and_modifier :: "string \<Rightarrow> string \<times> string option" where
  "split_field_and_modifier field =
    (case find (\<lambda>sf. suffix sf field) MODIFIER_SUFFIXES of
       Some sf \<Rightarrow> (take (length field - length sf) field, Some (tl sf))
     | None \<Rightarrow> (field, None))"

definition mapped_sigma_fields :: "string \<Rightarrow> string list \<times> bool" where
  "mapped_sigma_fields field =
    (let base = py_strip (hd (py_split (CHR ''|'') field)) in
     case map_of SIGMA_FIELD_MAP base of
       Some mapped \<Rightarrow> (mapped, False)
     | None \<Rightarrow> if base \<in> set SEARCH_TEXT_FALLBACK_FIELDS then ([''search_text''], True) else ([base], False))"

definition COMPARISONS :: "string list" where
  "COMPARISONS = [''contains'', ''startswith'', ''endswith'', ''re'']"

definition parse_field_modifiers :: "string \<Rightarrow> string \<times> string option \<times> string set" where
  "parse_field_modifiers field =
    (let parts = map py_strip (py_split (CHR ''|'') field);
         modifiers = filter (\<lambda>m. m \<noteq> []) (tl parts);
         comparison = find (\<lambda>m. m \<in> set COMPARISONS) modifiers;
         transforms = set (filter (\<lambda>m. m \<noteq> ''all'' \<and> m \<notin> set COMPARISONS) modifiers) in
     (hd parts,
      if ''all'' \<in> set modifiers then Some (case comparison of Some m \<Rightarrow> m @ ''|all'' | None \<Rightarrow> ''all'') else comparison,
      transforms))"

text \<open>
  The en dash, the em dash and the horizontal bar lie above U+00FF; here they stand at U+0096,
  U+0097 and U+0098, control characters no rule uses.
\<close>

definition WINDASH_VARIANTS :: string where
  "WINDASH_VARIANTS = [CHR ''-'', CHR ''/'', CHR 0x96, CHR 0x97, CHR 0x98]"

definition windash_candidates :: "string \<Rightarrow> string list" where
  "windash_candidates text = text # concat (map (\<lambda>i.
     if text ! i \<in> set WINDASH_VARIANTS then map (\<lambda>v. text[i := v]) WINDASH_VARIANTS else []) [0..<length text])"

definition expand_windash_values :: "string list \<Rightarrow> string list" where
  "expand_windash_values values = first_seen (concat (map windash_candidates values))"

definition apply_value_transforms :: "string list \<Rightarrow> string set \<Rightarrow> string list" where
  "apply_value_transforms values transforms = (if ''windash'' \<in> transforms then expand_windash_values values else values)"

subsection \<open>Keywords\<close>

datatype kw_token = KLit char | KStar | KQuest

fun keyword_tokens :: "string \<Rightarrow> kw_token list" where
  "keyword_tokens [] = []"
| "keyword_tokens [c] = [if c = CHR ''*'' then KStar else if c = CHR ''?'' then KQuest else KLit c]"
| "keyword_tokens (c # d # cs) =
    (if c = CHR 0x5C \<and> d \<in> {CHR ''*'', CHR ''?'', CHR 0x5C} then KLit d # keyword_tokens cs
     else (if c = CHR ''*'' then KStar else if c = CHR ''?'' then KQuest else KLit c) # keyword_tokens (d # cs))"

text \<open>\<^verbatim>\<open>_keyword_regex\<close> at a place, and \<^verbatim>\<open>search\<close>: \<open>*\<close> and \<open>?\<close> match any characters, line feeds included.\<close>

fun kw_match :: "kw_token list \<Rightarrow> string \<Rightarrow> bool" where
  "kw_match [] s = True"
| "kw_match (KLit c # ts) [] = False"
| "kw_match (KLit c # ts) (d # ds) = (lower_char c = lower_char d \<and> kw_match ts ds)"
| "kw_match (KQuest # ts) [] = False"
| "kw_match (KQuest # ts) (d # ds) = kw_match ts ds"
| "kw_match (KStar # ts) [] = kw_match ts []"
| "kw_match (KStar # ts) (d # ds) = (kw_match ts (d # ds) \<or> kw_match (KStar # ts) ds)"

fun kw_search :: "kw_token list \<Rightarrow> string \<Rightarrow> bool" where
  "kw_search ts [] = kw_match ts []"
| "kw_search ts (c # cs) = (kw_match ts (c # cs) \<or> kw_search ts cs)"

fun literal_segments :: "string \<Rightarrow> kw_token list \<Rightarrow> string list" where
  "literal_segments current [] = (if current = [] then [] else [current])"
| "literal_segments current (KLit c # ts) = literal_segments (current @ [c]) ts"
| "literal_segments current (_ # ts) = (if current = [] then [] else [current]) @ literal_segments [] ts"

definition keyword_literal_segments :: "string \<Rightarrow> string list" where
  "keyword_literal_segments value = literal_segments [] (keyword_tokens value)"

text \<open>\<^verbatim>\<open>re.findall\<close> of maximal runs.\<close>

function char_runs :: "(char \<Rightarrow> bool) \<Rightarrow> string \<Rightarrow> string list" where
  "char_runs P [] = []"
| "char_runs P (c # cs) = (if P c then takeWhile P (c # cs) # char_runs P (dropWhile P cs) else char_runs P cs)"
  by pat_completeness auto
termination
  by (relation "measure (\<lambda>(_, s). length s)") (auto simp: less_Suc_eq_le length_dropWhile_le)

definition keyword_alnum_runs :: "string \<Rightarrow> string list" where
  "keyword_alnum_runs value = filter (\<lambda>r. MIN_KEYWORD_RUN_CHARS \<le> length r)
     (concat (map (char_runs (\<lambda>c. re_word c \<and> c \<noteq> CHR ''_'')) (keyword_literal_segments value)))"

definition keyword_selection_issue :: "string list \<Rightarrow> string option" where
  "keyword_selection_issue values =
    (if values = [] then Some ''empty_keyword''
     else if length values > MAX_KEYWORDS_PER_SELECTION then Some ''too_many_keywords''
     else if \<exists>v \<in> set values. sum_list (map length (keyword_literal_segments v)) < MIN_KEYWORD_LITERAL_CHARS \<or> keyword_alnum_runs v = []
       then Some ''keyword_too_broad'' else None)"

text \<open>The texts every candidate of a keyword has to contain.\<close>

definition keyword_candidate_runs :: "string \<Rightarrow> string list" where
  "keyword_candidate_runs value =
     take KEYWORD_CANDIDATE_RUNS (sort_key (\<lambda>r. - int (length r)) (first_seen (map py_lower (keyword_alnum_runs value))))"

subsection \<open>Comparison\<close>

definition match_values :: "'f sigma_ext \<Rightarrow> string list \<Rightarrow> string list \<Rightarrow> string option \<Rightarrow> sigma_error + bool" where
  "match_values X actual_values expected_values modifier =
    (let test = (\<lambda>P. Inr (\<exists>e \<in> set expected_values. \<exists>a \<in> set actual_values. P e a)) in
     if modifier = Some ''keyword'' then test (\<lambda>e a. kw_search (keyword_tokens e) a)
     else if modifier = Some ''contains'' then test (\<lambda>e a. py_in (py_lower e) (py_lower a))
     else if modifier = Some ''startswith'' then test (\<lambda>e a. prefix (py_lower e) (py_lower a))
     else if modifier = Some ''endswith'' then test (\<lambda>e a. suffix (py_lower e) (py_lower a))
     else if modifier = Some ''re'' then
       res_any (\<lambda>e. res_any (\<lambda>a. case sx_re_search X e a of Some b \<Rightarrow> Inr b | None \<Rightarrow> Inl SigmaRegexError) actual_values) expected_values
     else test (\<lambda>e a. py_lower a = py_lower e))"

function match_scalar :: "'f sigma_ext \<Rightarrow> string list \<Rightarrow> 'f json \<Rightarrow> string option \<Rightarrow> sigma_error + bool" where
  "match_scalar X actual_values expected modifier =
    (let expected_values = map (py_str X) (flatten_values expected) in
     case modifier of
       Some m \<Rightarrow>
         if m = ''all'' then res_all (\<lambda>item. match_scalar X actual_values (JStr item) None) expected_values
         else if suffix ''|all'' m then
           res_all (\<lambda>item. match_scalar X actual_values (JStr item) (Some (take (length m - 4) m))) expected_values
         else match_values X actual_values expected_values modifier
     | None \<Rightarrow> match_values X actual_values expected_values None)"
  by pat_completeness auto
termination
  by (relation "measure (\<lambda>(_, _, _, m). case m of None \<Rightarrow> 0 | Some s \<Rightarrow> Suc (length s))")
    (auto simp: suffix_def)

declare match_scalar.simps [simp del]

definition basename_alternates :: "'f sigma_ext \<Rightarrow> string \<Rightarrow> string option \<Rightarrow> 'f json \<Rightarrow> (string \<times> string list) option" where
  "basename_alternates X base_field modifier expected =
    (case map_of BASENAME_ALTERNATE_FIELDS base_field of
       None \<Rightarrow> None
     | Some name_field \<Rightarrow>
         if modifier \<noteq> Some ''endswith'' then None
         else let names = map tl (filter (\<lambda>t. length t > 1 \<and> hd t = CHR ''/'' \<and> CHR ''/'' \<notin> set (tl t))
                    (map (py_str X) (flatten_values expected))) in
           if names = [] then None else Some (name_field, names))"

definition match_basename_alternate :: "'f sigma_ext \<Rightarrow> 'f json \<Rightarrow> string \<Rightarrow> string option \<Rightarrow> 'f json
    \<Rightarrow> sigma_error + (string \<times> string list) option" where
  "match_basename_alternate X document base_field modifier expected =
    (case basename_alternates X base_field modifier expected of
       None \<Rightarrow> Inr None
     | Some (name_field, names) \<Rightarrow>
         let actual_values = stringify_values X (get_nested_value document name_field) in
         res_bind (match_scalar X actual_values (JList (map JStr names)) None) (\<lambda>hit.
           Inr (if hit then Some (name_field, actual_values) else None)))"

subsection \<open>Selections\<close>

record 'f field_match =
  fm_mapped_field :: string
  fm_expected :: "'f json"
  fm_actual :: "string list"

definition is_map_list_selection :: "'f json \<Rightarrow> bool" where
  "is_map_list_selection selection = (case selection of
     JList xs \<Rightarrow> xs \<noteq> [] \<and> list_all (\<lambda>x. case x of JObj d \<Rightarrow> d \<noteq> [] | _ \<Rightarrow> False) xs | _ \<Rightarrow> False)"

definition is_keyword_selection :: "'f json \<Rightarrow> bool" where
  "is_keyword_selection selection = (case selection of
     JList xs \<Rightarrow> xs \<noteq> [] \<and> list_all (\<lambda>x. case x of JStr _ \<Rightarrow> True | JInt _ \<Rightarrow> True | JFloat _ \<Rightarrow> True | _ \<Rightarrow> False) xs
   | _ \<Rightarrow> False)"

definition keyword_values :: "'f sigma_ext \<Rightarrow> 'f json \<Rightarrow> string list" where
  "keyword_values X selection = (if is_keyword_selection selection then map (py_str X) (flatten_values selection) else [])"

definition iter_selection_blocks :: "'f json \<Rightarrow> (string \<times> 'f json) list list" where
  "iter_selection_blocks selection = (case selection of
     JObj d \<Rightarrow> [d] | JList xs \<Rightarrow> concat (map (\<lambda>x. case x of JObj d \<Rightarrow> [d] | _ \<Rightarrow> []) xs) | _ \<Rightarrow> [])"

text \<open>The first of the mapped fields whose values match, with those values.\<close>

fun first_mapped_match :: "'f sigma_ext \<Rightarrow> 'f json \<Rightarrow> 'f json \<Rightarrow> string option \<Rightarrow> string list
    \<Rightarrow> sigma_error + (string \<times> string list) option" where
  "first_mapped_match X document expected modifier [] = Inr None"
| "first_mapped_match X document expected modifier (mapped # rest) =
    (let actual_values = stringify_values X (get_nested_value document mapped) in
     res_bind (match_scalar X actual_values expected modifier) (\<lambda>hit.
       if hit then Inr (Some (mapped, actual_values)) else first_mapped_match X document expected modifier rest))"

text \<open>
  One field of a selection, interpreted or compiled: the field it matched on, the values
  there and the remark on data quality.
\<close>

definition match_field :: "'f sigma_ext \<Rightarrow> 'f json \<Rightarrow> string list \<Rightarrow> bool \<Rightarrow> string \<Rightarrow> string option \<Rightarrow> 'f json
    \<Rightarrow> sigma_error + (string \<times> string list \<times> string list) option" where
  "match_field X document mapped_fields used_fallback base_field modifier expected =
     res_bind (first_mapped_match X document expected modifier mapped_fields) (\<lambda>hit. case hit of
       Some (mapped, actual_values) \<Rightarrow>
         Inr (Some (mapped, actual_values, if used_fallback then [''sigma_field_fallback_search_text''] else []))
     | None \<Rightarrow> res_bind (match_basename_alternate X document base_field modifier expected) (\<lambda>alternate.
         Inr (map_option (\<lambda>(name_field, actual_values). (name_field, actual_values, [''sigma_image_matched_by_process_name''])) alternate)))"

definition transformed :: "'f sigma_ext \<Rightarrow> string set \<Rightarrow> 'f json \<Rightarrow> 'f json" where
  "transformed X transforms expected =
    (if transforms = {} then expected
     else JList (map JStr (apply_value_transforms (map (py_str X) (flatten_values expected)) transforms)))"

fun match_block :: "'f sigma_ext \<Rightarrow> 'f json \<Rightarrow> (string \<times> 'f json) list \<Rightarrow> (string \<times> 'f field_match) list \<Rightarrow> string list
    \<Rightarrow> sigma_error + 'f field_match outcome" where
  "match_block X document [] matched_fields data_quality = Inr (True, matched_fields, data_quality)"
| "match_block X document ((sigma_field, value) # rest) matched_fields data_quality =
    (let (mapped_fields, used_fallback) = mapped_sigma_fields sigma_field;
         (base_field, modifier, transforms) = parse_field_modifiers sigma_field;
         expected = transformed X transforms value in
     res_bind (match_field X document mapped_fields used_fallback base_field modifier expected) (\<lambda>hit. case hit of
       Some (mapped, actual_values, quality) \<Rightarrow>
         match_block X document rest
           (dict_set sigma_field \<lparr>fm_mapped_field = mapped, fm_expected = expected, fm_actual = take 5 actual_values\<rparr> matched_fields)
           (data_quality @ quality)
     | None \<Rightarrow> Inr (False, [], data_quality)))"

fun match_alternatives :: "('b \<Rightarrow> sigma_error + 'm outcome) \<Rightarrow> 'b list \<Rightarrow> string list \<Rightarrow> sigma_error + 'm outcome" where
  "match_alternatives test [] qualities = Inr (False, [], qualities)"
| "match_alternatives test (block # blocks) qualities =
    res_bind (test block) (\<lambda>(matched, matched_fields, quality).
      if matched then Inr (True, matched_fields, qualities @ quality) else match_alternatives test blocks (qualities @ quality))"

definition match_selection :: "'f sigma_ext \<Rightarrow> string \<Rightarrow> 'f json \<Rightarrow> 'f json \<Rightarrow> bool \<Rightarrow> sigma_error + 'f field_match outcome" where
  "match_selection X selection_name selection document keywords_enabled =
    (if keywords_enabled \<and> is_keyword_selection selection then
       (let keywords = keyword_values X selection in
        res_bind (first_mapped_match X document (JList (map JStr keywords)) (Some ''keyword'') (fst (mapped_sigma_fields KEYWORD_PSEUDO_FIELD))) (\<lambda>hit.
          Inr (case hit of
            Some (mapped, actual_values) \<Rightarrow> (True, [(selection_name, \<lparr>fm_mapped_field = mapped,
              fm_expected = JList (map JStr (take 5 keywords)), fm_actual = take 1 actual_values\<rparr>)], [])
          | None \<Rightarrow> (False, [], []))))
     else if is_map_list_selection selection then
       match_alternatives (\<lambda>block. match_block X document block [] []) (iter_selection_blocks selection) []
     else case selection of
       JObj block \<Rightarrow> match_block X document block [] []
     | _ \<Rightarrow> Inr (False, [], [selection_name @ '' is not a valid mapping'']))"

end
