(* ===== verification/Sigma_Engine.thy ===== *)
theory Sigma_Engine
  imports Sigma_Match
begin

section \<open>Sigma rules: log sources, evaluation and compilation\<close>

text \<open>
  \<^verbatim>\<open>rules_engine/sigma.py\<close>: whether a document belongs to a rule's log source, the evaluation
  of a rule on a document, the compilation of a rule with the checks that refuse one, and the
  evaluation of the compiled rule. A rule is the two sections the engine reads, each a
  mapping as \<^verbatim>\<open>validate_sigma_rule_content\<close> demands.
\<close>

record 'f sigma_rule =
  rule_logsource :: "(string \<times> 'f json) list"
  rule_detection :: "(string \<times> 'f json) list"

definition lower_text :: "'f sigma_ext \<Rightarrow> 'f json \<Rightarrow> string" where
  "lower_text X v = py_lower (py_strip (str_or_empty X v))"

definition rule_condition :: "'f sigma_ext \<Rightarrow> 'f sigma_rule \<Rightarrow> string" where
  "rule_condition X rule = py_strip (str_or_empty X (get_or_null (rule_detection rule) ''condition''))"

definition keywords_supported :: "'f sigma_ext \<Rightarrow> 'f sigma_rule \<Rightarrow> bool" where
  "keywords_supported X rule \<longleftrightarrow> lower_text X (get_or_null (rule_logsource rule) ''product'') = ''linux''"

subsection \<open>Log sources\<close>

definition channel_matches_service :: "string \<Rightarrow> string \<Rightarrow> bool" where
  "channel_matches_service channel service =
    (case map_of SIGMA_SERVICE_CHANNEL_HINTS service of
       None \<Rightarrow> True
     | Some patterns \<Rightarrow>
         let lowered = py_lower (py_strip channel) in
         list_ex (\<lambda>pattern. if suffix ''*'' pattern then prefix (butlast pattern) lowered else lowered = pattern) patterns)"

text \<open>\<^verbatim>\<open>int(text)\<close> raises for the superscript digits that \<^verbatim>\<open>isdigit\<close> accepts, and beyond 4300 digits.\<close>

definition event_id_of :: "'f sigma_ext \<Rightarrow> 'f json \<Rightarrow> sigma_error + int option" where
  "event_id_of X value =
    (let first = (case value of JList [] \<Rightarrow> JNull | JList (x # _) \<Rightarrow> x | v \<Rightarrow> v); text = py_strip (py_str X first) in
     if first = JNull \<or> text = [] \<or> \<not> list_all py_isdigit text then Inr None
     else case py_int text of Some n \<Rightarrow> Inr (Some n) | None \<Rightarrow> Inl (SigmaValueError ''invalid literal for int() with base 10''))"

fun first_event_id :: "'f sigma_ext \<Rightarrow> 'f json \<Rightarrow> string list \<Rightarrow> sigma_error + int option" where
  "first_event_id X document [] = Inr None"
| "first_event_id X document (field # rest) =
    res_bind (event_id_of X (get_nested_value document field)) (\<lambda>n. case n of
      Some i \<Rightarrow> Inr (Some i) | None \<Rightarrow> first_event_id X document rest)"

definition document_event_id :: "'f sigma_ext \<Rightarrow> 'f json \<Rightarrow> sigma_error + int option" where
  "document_event_id X document = first_event_id X document [''windows.event_id'', ''event.code'', ''event.id'']"

definition normalized_label :: "string \<Rightarrow> string" where
  "normalized_label item = map (\<lambda>c. if c = CHR ''-'' \<or> c = CHR '' '' then CHR ''_'' else c) (py_lower (py_strip item))"

definition document_event_labels :: "'f sigma_ext \<Rightarrow> 'f json \<Rightarrow> string set" where
  "document_event_labels X document =
    set (filter (\<lambda>l. l \<noteq> []) (map normalized_label (concat (map (\<lambda>field. stringify_values X (get_nested_value document field))
      [''event.type'', ''event.action'', ''artifact.type'', ''artifact.parser'', ''linux.audit_type'']))))"

definition is_windows_record :: "'f sigma_ext \<Rightarrow> 'f json \<Rightarrow> bool" where
  "is_windows_record X document \<longleftrightarrow>
     lower_text X (get_nested_value document ''artifact.type'') \<in> set WINDOWS_EVENT_LOG_ARTIFACT_TYPES
   \<or> lower_text X (get_nested_value document ''os.type'') = ''windows''
   \<or> get_nested_value document ''windows.event_id'' \<notin> {JNull, JStr []}"

definition document_channel :: "'f sigma_ext \<Rightarrow> 'f json \<Rightarrow> string" where
  "document_channel X document =
    (let w = get_nested_value document ''windows.channel'' in
     py_lower (str_or_empty X (if py_truth X w then w else get_nested_value document ''event.channel'')))"

definition table_list :: "(string \<times> 'a list) list \<Rightarrow> string \<Rightarrow> 'a list" where
  "table_list d k = (case map_of d k of Some xs \<Rightarrow> xs | None \<Rightarrow> [])"

text \<open>The tests that need no event identifier: the product, the Linux service, and the channel.\<close>

definition logsource_excludes :: "'f sigma_ext \<Rightarrow> string \<Rightarrow> string \<Rightarrow> string \<Rightarrow> 'f json \<Rightarrow> bool" where
  "logsource_excludes X product_name service category document \<longleftrightarrow>
    (let artifact_type = lower_text X (get_nested_value document ''artifact.type''); channel = document_channel X document in
     product_name = ''windows'' \<and> artifact_type \<noteq> [] \<and> artifact_type \<notin> set WINDOWS_EVENT_LOG_ARTIFACT_TYPES
   \<or> product_name = ''linux'' \<and> is_windows_record X document
   \<or> product_name = ''linux'' \<and> (case map_of LINUX_SERVICE_ARTIFACT_TYPES service of
        Some types \<Rightarrow> prefix ''linux_'' artifact_type \<and> artifact_type \<notin> set types | None \<Rightarrow> False)
   \<or> service \<noteq> [] \<and> channel \<noteq> [] \<and> \<not> channel_matches_service channel service
   \<or> product_name = ''windows'' \<and> channel \<noteq> [] \<and> (case map_of SIGMA_CATEGORY_SERVICE_HINTS category of
        Some services \<Rightarrow> \<not> list_ex (channel_matches_service channel) services | None \<Rightarrow> False))"

definition document_matches_sigma_logsource :: "'f sigma_ext \<Rightarrow> (string \<times> 'f json) list \<Rightarrow> 'f json \<Rightarrow> sigma_error + bool \<times> string option" where
  "document_matches_sigma_logsource X logsource document =
    (let product_name = lower_text X (get_or_null logsource ''product''); service = lower_text X (get_or_null logsource ''service'');
         category = lower_text X (get_or_null logsource ''category'') in
     if logsource_excludes X product_name service category document then Inr (False, Some ''logsource_mismatch'')
     else if category = [] then Inr (True, None)
     else res_bind (document_event_id X document) (\<lambda>event_id.
       let ids = table_list SIGMA_EVENT_ID_HINTS category; labels = document_event_labels X document;
           hinted = set (table_list SIGMA_CATEGORY_EVENT_TYPE_HINTS category) in
       if (case event_id of Some i \<Rightarrow> ids \<noteq> [] \<and> i \<notin> set ids | None \<Rightarrow> False) then Inr (False, Some ''logsource_mismatch'')
       else if event_id = None \<and> hinted \<noteq> {} \<and> labels \<noteq> {} \<and> labels \<inter> hinted = {} then Inr (False, Some ''logsource_mismatch'')
       else if event_id = None \<and> labels \<inter> hinted = {} then Inr (False, Some ''missing_logsource_fields'')
       else Inr (True, None)))"

subsection \<open>Evaluation of a rule\<close>

definition detection_blocks :: "'f sigma_rule \<Rightarrow> (string \<times> 'f json) list" where
  "detection_blocks rule = filter (\<lambda>(name, _). name \<noteq> ''condition'') (rule_detection rule)"

definition sigma_detection_block_names :: "'f sigma_ext \<Rightarrow> 'f sigma_rule \<Rightarrow> string list" where
  "sigma_detection_block_names X rule = map fst (filter (\<lambda>(_, selection).
     (case selection of JObj d \<Rightarrow> d \<noteq> [] | _ \<Rightarrow> False) \<or> is_map_list_selection selection
     \<or> keywords_supported X rule \<and> is_keyword_selection selection) (detection_blocks rule))"

definition expand_sigma_condition_terms :: "'f sigma_ext \<Rightarrow> 'f sigma_rule \<Rightarrow> expansion" where
  "expand_sigma_condition_terms X rule = expand_condition (sigma_detection_block_names X rule) (rule_condition X rule)"

record 'f sigma_result =
  sr_matched :: bool
  sr_matched_fields :: "(string \<times> 'f field_match) list"
  sr_condition_summary :: string
  sr_expanded_condition :: string
  sr_data_quality :: "string list"
  sr_skip_reason :: "string option"
  sr_expected_logsource :: "(string \<times> 'f json) list"
  sr_actual_event_source :: "(string \<times> 'f json) list"

definition value_or :: "'f sigma_ext \<Rightarrow> 'f json \<Rightarrow> 'f json \<Rightarrow> 'f json" where
  "value_or X a b = (if py_truth X a then a else b)"

definition event_source_summary :: "'f sigma_ext \<Rightarrow> 'f json \<Rightarrow> sigma_error + (string \<times> 'f json) list" where
  "event_source_summary X document =
     res_bind (document_event_id X document) (\<lambda>event_id. let at = get_nested_value document in
       Inr [(''artifact_type'', at ''artifact.type''), (''artifact_parser'', at ''artifact.parser''),
            (''channel'', value_or X (at ''windows.channel'') (at ''event.channel'')),
            (''provider'', value_or X (at ''windows.provider'') (at ''event.provider'')),
            (''event_id'', case event_id of Some i \<Rightarrow> JInt i | None \<Rightarrow> JNull),
            (''event_type'', at ''event.type''), (''event_action'', at ''event.action'')])"

text \<open>
  The condition that is evaluated, and its text where the source has
  \<^verbatim>\<open>str(expansion.get("expanded_condition") or detection.get("condition") or "")\<close>.
\<close>

definition evaluated_condition :: "'f sigma_ext \<Rightarrow> 'f sigma_rule \<Rightarrow> string" where
  "evaluated_condition X rule = (let e = expanded_condition (expand_sigma_condition_terms X rule) in
     if e \<noteq> [] then e else str_or_empty X (get_or_null (rule_detection rule) ''condition''))"

definition rule_outcome :: "'f sigma_ext \<Rightarrow> 'f sigma_rule \<Rightarrow> 'f json \<Rightarrow> sigma_error + 'f field_match outcome" where
  "rule_outcome X rule document =
    (let expansion = expand_sigma_condition_terms X rule in
     if \<not> exp_supported expansion then Inl (SigmaValueError (exp_reason expansion))
     else res_bind (tokenize_condition (evaluated_condition X rule)) (\<lambda>tokens.
       res_bind (to_rpn tokens) (\<lambda>rpn.
       eval_condition (expand_selection_tokens (map fst (rule_detection rule)))
         (\<lambda>name. match_selection X name (get_or_null (rule_detection rule) name) document (keywords_supported X rule)) rpn)))"

definition evaluate_sigma_rule :: "'f sigma_ext \<Rightarrow> 'f sigma_rule \<Rightarrow> 'f json \<Rightarrow> sigma_error + 'f sigma_result" where
  "evaluate_sigma_rule X rule document =
     res_bind (document_matches_sigma_logsource X (rule_logsource rule) document) (\<lambda>(ok, skip).
     if \<not> ok then res_bind (event_source_summary X document) (\<lambda>source.
       Inr \<lparr>sr_matched = False, sr_matched_fields = [], sr_condition_summary = rule_condition X rule,
         sr_expanded_condition = rule_condition X rule, sr_data_quality = [], sr_skip_reason = skip,
         sr_expected_logsource = rule_logsource rule, sr_actual_event_source = source\<rparr>)
     else res_bind (rule_outcome X rule document) (\<lambda>(matched, fields, quality). res_bind (event_source_summary X document) (\<lambda>source.
       Inr \<lparr>sr_matched = matched, sr_matched_fields = fields, sr_condition_summary = rule_condition X rule,
         sr_expanded_condition = py_strip (evaluated_condition X rule), sr_data_quality = sorted_distinct quality, sr_skip_reason = None,
         sr_expected_logsource = rule_logsource rule, sr_actual_event_source = source\<rparr>)))"

subsection \<open>What the engine refuses\<close>

definition extract_sigma_detection_fields :: "'f sigma_ext \<Rightarrow> 'f sigma_rule \<Rightarrow> string list" where
  "extract_sigma_detection_fields X rule = sorted_distinct (concat (map (\<lambda>(_, selection).
     if keywords_supported X rule \<and> is_keyword_selection selection then [KEYWORD_PSEUDO_FIELD]
     else concat (map (\<lambda>block. map (\<lambda>(field, _). fst (split_field_and_modifier field)) block) (iter_selection_blocks selection)))
     (detection_blocks rule)))"

definition detect_unsupported_modifiers :: "'f sigma_rule \<Rightarrow> string list" where
  "detect_unsupported_modifiers rule = sorted_distinct (concat (map (\<lambda>(_, selection).
     concat (map (\<lambda>block. concat (map (\<lambda>(field, _).
       filter (\<lambda>m. m \<noteq> [] \<and> m \<notin> set SUPPORTED_MODIFIERS) (map py_strip (tl (py_split (CHR ''|'') field)))) block))
       (iter_selection_blocks selection))) (detection_blocks rule)))"

definition unmapped_field :: "string \<Rightarrow> bool" where
  "unmapped_field base \<longleftrightarrow> base \<noteq> [] \<and> base \<notin> set SEARCH_TEXT_FALLBACK_FIELDS \<and>
    (case map_of SIGMA_FIELD_MAP base of
       None \<Rightarrow> True
     | Some targets \<Rightarrow> list_all (\<lambda>target. list_ex (\<lambda>p. prefix p target) NON_QUERYABLE_FIELD_PREFIXES) targets)"

definition detect_unmapped_fields :: "'f sigma_ext \<Rightarrow> 'f sigma_rule \<Rightarrow> string list" where
  "detect_unmapped_fields X rule = sorted_distinct (filter unmapped_field
     (map (\<lambda>extracted. py_strip (hd (py_split (CHR ''|'') extracted))) (extract_sigma_detection_fields X rule)))"

text \<open>The status a check leaves: the list of unsupported features, the primary status and its reason.\<close>

record engine_status =
  unsupported_features :: "string list"
  primary_status :: string
  status_reason :: string

definition EXECUTABLE :: string where "EXECUTABLE = ''executable_by_current_engine''"

definition set_status :: "string list \<Rightarrow> string \<Rightarrow> string \<Rightarrow> engine_status \<Rightarrow> engine_status" where
  "set_status features status reason st =
     \<lparr>unsupported_features = unsupported_features st @ features, primary_status = status, status_reason = reason\<rparr>"

text \<open>Sets the status only when no other check has.\<close>

definition add_status :: "string list \<Rightarrow> string \<Rightarrow> string \<Rightarrow> engine_status \<Rightarrow> engine_status" where
  "add_status features status reason st =
    (if primary_status st = EXECUTABLE then set_status features status reason st
     else st\<lparr>unsupported_features := unsupported_features st @ features\<rparr>)"

definition check_fields :: "'f sigma_ext \<Rightarrow> 'f sigma_rule \<Rightarrow> engine_status \<Rightarrow> engine_status" where
  "check_fields X rule st =
    (let st1 = (if extract_sigma_detection_fields X rule = [] \<and> rule_detection rule \<noteq> []
           then set_status [''keyword_only_detection''] ''keyword_only_detection'' ''detection names no field this engine can query'' st else st);
         unmapped = detect_unmapped_fields X rule in
     if unmapped = [] then st1
     else set_status (map (\<lambda>f. ''unmapped_field:'' @ f) unmapped) ''unmapped_field'' (py_join '','' unmapped) st1)"

definition check_keywords :: "'f sigma_ext \<Rightarrow> 'f sigma_rule \<Rightarrow> engine_status \<Rightarrow> engine_status" where
  "check_keywords X rule st =
    (let keyword_selections = filter (\<lambda>(_, selection). is_keyword_selection selection) (detection_blocks rule) in
     if keywords_supported X rule then
       fold (\<lambda>(_, selection) st. case keyword_selection_issue (keyword_values X selection) of
           Some issue \<Rightarrow> add_status [issue] issue issue st | None \<Rightarrow> st) keyword_selections st
     else if keyword_selections = [] then st
     else add_status [''keyword_selection_unsupported''] ''keyword_selection_unsupported''
       (''free-text keyword selection ('' @ py_join '', '' (sort (map fst keyword_selections)) @ '') is only evaluated for logsource product linux'') st)"

definition check_modifiers :: "'f sigma_rule \<Rightarrow> engine_status \<Rightarrow> engine_status" where
  "check_modifiers rule st =
    (let unsupported = detect_unsupported_modifiers rule in
     if unsupported = [] then st
     else set_status (map (\<lambda>m. ''unsupported_modifier:'' @ m) unsupported) ''unsupported_modifier'' (py_join '','' unsupported) st)"

definition check_condition :: "'f sigma_ext \<Rightarrow> 'f sigma_rule \<Rightarrow> engine_status \<Rightarrow> engine_status" where
  "check_condition X rule st =
    (let condition = rule_condition X rule; expansion = expand_sigma_condition_terms X rule;
         st1 = (if re_search_words correlation_here False condition
           then add_status [''unsupported_correlation''] ''unsupported_correlation'' ''unsupported_correlation'' st else st);
         st2 = (if exp_supported expansion then st1
           else set_status (exp_unsupported_features expansion) (exp_reason expansion) (exp_reason expansion) st1);
         expanded = (if expanded_condition expansion \<noteq> [] then expanded_condition expansion else condition) in
     case sigma_condition_supported expanded of
       (False, Some compile_reason) \<Rightarrow>
         if primary_status st2 \<noteq> EXECUTABLE then st2
         else if compile_reason = ''unsupported_condition''
         then set_status [''unsupported_condition''] ''unsupported_condition'' compile_reason st2
         else set_status [compile_reason] ''compile_error'' compile_reason st2
     | _ \<Rightarrow> st2)"

definition analyze_sigma_engine_compatibility :: "'f sigma_ext \<Rightarrow> 'f sigma_rule \<Rightarrow> engine_status" where
  "analyze_sigma_engine_compatibility X rule =
     check_condition X rule (check_modifiers rule (check_keywords X rule (check_fields X rule
       \<lparr>unsupported_features = [], primary_status = EXECUTABLE, status_reason = ''compiled''\<rparr>)))"

subsection \<open>Compilation\<close>

record 'f clause =
  cl_sigma_field :: string
  cl_base_field :: string
  cl_mapped_fields :: "string list"
  cl_modifier :: "string option"
  cl_expected :: "'f json list"
  cl_used_fallback :: bool
  cl_alternative :: "nat option"

record 'f compiled_rule =
  cr_compile_status :: string
  cr_compile_error :: "string option"
  cr_logsource :: "(string \<times> 'f json) list"
  cr_condition :: string
  cr_expanded_condition :: string
  cr_condition_rpn :: "string list"
  cr_selections :: "(string \<times> 'f clause list) list"

definition compile_field :: "'f sigma_ext \<Rightarrow> nat option \<Rightarrow> string \<times> 'f json \<Rightarrow> 'f clause" where
  "compile_field X alternative item = (case item of (sigma_field, expected) \<Rightarrow>
     let (mapped_fields, used_fallback) = mapped_sigma_fields sigma_field;
         (base_field, modifier, transforms) = parse_field_modifiers sigma_field in
     \<lparr>cl_sigma_field = sigma_field, cl_base_field = base_field, cl_mapped_fields = mapped_fields, cl_modifier = modifier,
      cl_expected = flatten_values (transformed X transforms expected), cl_used_fallback = used_fallback, cl_alternative = alternative\<rparr>)"

definition compile_blocks :: "'f sigma_ext \<Rightarrow> (string \<times> 'f json) list list \<Rightarrow> 'f clause list" where
  "compile_blocks X blocks = concat (map (\<lambda>(i, block).
     map (compile_field X (if length blocks > 1 then Some i else None)) block) (zip [0..<length blocks] blocks))"

definition compile_selection :: "'f sigma_ext \<Rightarrow> bool \<Rightarrow> 'f json \<Rightarrow> 'f clause list option" where
  "compile_selection X keywords_enabled selection =
    (if keywords_enabled \<and> is_keyword_selection selection then
       Some [\<lparr>cl_sigma_field = KEYWORD_PSEUDO_FIELD, cl_base_field = KEYWORD_PSEUDO_FIELD,
         cl_mapped_fields = fst (mapped_sigma_fields KEYWORD_PSEUDO_FIELD), cl_modifier = Some ''keyword'',
         cl_expected = map JStr (keyword_values X selection), cl_used_fallback = False, cl_alternative = None\<rparr>]
     else case selection of
       JObj d \<Rightarrow> Some (compile_blocks X [d])
     | _ \<Rightarrow> if is_map_list_selection selection then Some (compile_blocks X (iter_selection_blocks selection)) else None)"

definition compile_selections :: "'f sigma_ext \<Rightarrow> 'f sigma_rule \<Rightarrow> (string \<times> 'f clause list) list" where
  "compile_selections X rule = concat (map (\<lambda>(name, selection).
     case compile_selection X (keywords_supported X rule) selection of Some cs \<Rightarrow> [(name, cs)] | None \<Rightarrow> []) (detection_blocks rule))"

definition compile_sigma_rule :: "'f sigma_ext \<Rightarrow> 'f sigma_rule \<Rightarrow> 'f compiled_rule" where
  "compile_sigma_rule X rule =
    (let condition = rule_condition X rule; compatibility = analyze_sigma_engine_compatibility X rule;
         e = expanded_condition (expand_sigma_condition_terms X rule);
         expanded = (if e \<noteq> [] then e else condition);
         (supported, reason) = (if primary_status compatibility \<noteq> EXECUTABLE then (False, Some (primary_status compatibility))
           else sigma_condition_supported expanded);
         rpn = (if supported then (case res_bind (tokenize_condition expanded) to_rpn of Inr r \<Rightarrow> r | Inl _ \<Rightarrow> []) else []) in
     \<lparr>cr_compile_status = (if supported then ''compiled'' else ''skipped_'' @ (case reason of Some r \<Rightarrow> r | None \<Rightarrow> ''compile_error'')),
      cr_compile_error = (if supported then None else reason), cr_logsource = rule_logsource rule, cr_condition = condition,
      cr_expanded_condition = expanded, cr_condition_rpn = rpn,
      cr_selections = (if supported then compile_selections X rule else [])\<rparr>)"

subsection \<open>Evaluation of a compiled rule\<close>

definition clause_name :: "'f clause \<Rightarrow> string" where
  "clause_name c = (if cl_sigma_field c \<noteq> [] then cl_sigma_field c else cl_base_field c)"

fun match_compiled_clauses :: "'f sigma_ext \<Rightarrow> 'f json \<Rightarrow> 'f clause list \<Rightarrow> (string \<times> 'f field_match) list \<Rightarrow> string list
    \<Rightarrow> sigma_error + 'f field_match outcome" where
  "match_compiled_clauses X document [] matched_fields qualities = Inr (True, matched_fields, qualities)"
| "match_compiled_clauses X document (c # cs) matched_fields qualities =
    (let modifier = (if cl_modifier c = Some [] then None else cl_modifier c); expected = JList (cl_expected c) in
     res_bind (match_field X document (cl_mapped_fields c) (cl_used_fallback c) (cl_base_field c) modifier expected) (\<lambda>hit. case hit of
       Some (mapped, actual_values, quality) \<Rightarrow>
         match_compiled_clauses X document cs
           (dict_set (clause_name c) \<lparr>fm_mapped_field = mapped, fm_expected = expected, fm_actual = take 5 actual_values\<rparr> matched_fields)
           (qualities @ quality)
     | None \<Rightarrow> Inr (False, [], qualities)))"

text \<open>The clauses by alternative, in order of first occurrence.\<close>

definition clause_groups :: "'f clause list \<Rightarrow> 'f clause list list" where
  "clause_groups cs = (if cs = [] then [[]]
     else map (\<lambda>a. filter (\<lambda>c. cl_alternative c = a) cs) (first_seen (map cl_alternative cs)))"

definition match_compiled_selection :: "'f sigma_ext \<Rightarrow> 'f json \<Rightarrow> 'f clause list \<Rightarrow> sigma_error + 'f field_match outcome" where
  "match_compiled_selection X document cs =
     match_alternatives (\<lambda>clauses. match_compiled_clauses X document clauses [] []) (clause_groups cs) []"

definition compiled_outcome :: "'f sigma_ext \<Rightarrow> 'f compiled_rule \<Rightarrow> 'f json \<Rightarrow> sigma_error + 'f field_match outcome" where
  "compiled_outcome X compiled document =
     eval_condition (expand_selection_tokens (''condition'' # map fst (cr_selections compiled)))
       (\<lambda>name. match_compiled_selection X document (case map_of (cr_selections compiled) name of Some cs \<Rightarrow> cs | None \<Rightarrow> []))
       (cr_condition_rpn compiled)"

definition evaluate_compiled_sigma_rule :: "'f sigma_ext \<Rightarrow> 'f compiled_rule \<Rightarrow> 'f json \<Rightarrow> sigma_error + 'f sigma_result" where
  "evaluate_compiled_sigma_rule X compiled document =
    (let expanded = py_strip (if cr_expanded_condition compiled \<noteq> [] then cr_expanded_condition compiled else cr_condition compiled) in
     res_bind (document_matches_sigma_logsource X (cr_logsource compiled) document) (\<lambda>(ok, skip).
     if \<not> ok then res_bind (event_source_summary X document) (\<lambda>source.
       Inr \<lparr>sr_matched = False, sr_matched_fields = [], sr_condition_summary = py_strip (cr_condition compiled),
         sr_expanded_condition = expanded, sr_data_quality = [], sr_skip_reason = skip,
         sr_expected_logsource = cr_logsource compiled, sr_actual_event_source = source\<rparr>)
     else res_bind (compiled_outcome X compiled document) (\<lambda>(matched, fields, quality). res_bind (event_source_summary X document) (\<lambda>source.
       Inr \<lparr>sr_matched = matched, sr_matched_fields = fields, sr_condition_summary = py_strip (cr_condition compiled),
         sr_expanded_condition = expanded, sr_data_quality = sorted_distinct quality, sr_skip_reason = None,
         sr_expected_logsource = cr_logsource compiled, sr_actual_event_source = source\<rparr>))))"

end
