(* ===== verification/Sigma_Semantics.thy ===== *)
theory Sigma_Semantics
  imports Sigma_Engine
begin

section \<open>Sigma rules: the meaning of conditions\<close>

text \<open>
  A condition as a tree with its parentheses, the tokens it is written with, its reverse
  Polish notation and its truth value. The shunting-yard translation yields the notation of
  every tree written by the grammar, and the stack evaluation its truth value; keeping the
  outcomes of selections changes nothing.
\<close>

datatype ctree = TSel string | TParen ctree | TNot ctree | TAnd ctree ctree | TOr ctree ctree

fun level :: "ctree \<Rightarrow> nat" where
  "level (TSel _) = 4"
| "level (TParen _) = 4"
| "level (TNot _) = 3"
| "level (TAnd _ _) = 2"
| "level (TOr _ _) = 1"

definition selection_token :: "string \<Rightarrow> bool" where
  "selection_token n \<longleftrightarrow> n \<notin> set OPERATOR_TOKENS"

text \<open>
  The grammar: \<open>or\<close> over \<open>and\<close> over \<open>not\<close> over names and parentheses, both connectives to
  the left. A negation directly under a negation is not in it.
\<close>

fun ctree_wf :: "ctree \<Rightarrow> bool" where
  "ctree_wf (TSel n) = selection_token n"
| "ctree_wf (TParen t) = ctree_wf t"
| "ctree_wf (TNot t) = (ctree_wf t \<and> 4 \<le> level t)"
| "ctree_wf (TAnd a b) = (ctree_wf a \<and> ctree_wf b \<and> 2 \<le> level a \<and> 3 \<le> level b)"
| "ctree_wf (TOr a b) = (ctree_wf a \<and> ctree_wf b \<and> 2 \<le> level b)"

fun ctokens :: "ctree \<Rightarrow> string list" where
  "ctokens (TSel n) = [n]"
| "ctokens (TParen t) = ''('' # ctokens t @ ['')'']"
| "ctokens (TNot t) = ''not'' # ctokens t"
| "ctokens (TAnd a b) = ctokens a @ ''and'' # ctokens b"
| "ctokens (TOr a b) = ctokens a @ ''or'' # ctokens b"

fun postfix :: "ctree \<Rightarrow> string list" where
  "postfix (TSel n) = [n]"
| "postfix (TParen t) = postfix t"
| "postfix (TNot t) = postfix t @ [''not'']"
| "postfix (TAnd a b) = postfix a @ postfix b @ [''and'']"
| "postfix (TOr a b) = postfix a @ postfix b @ [''or'']"

fun holds :: "(string \<Rightarrow> bool) \<Rightarrow> ctree \<Rightarrow> bool" where
  "holds v (TSel n) = v n"
| "holds v (TParen t) = holds v t"
| "holds v (TNot t) = (\<not> holds v t)"
| "holds v (TAnd a b) = (holds v a \<and> holds v b)"
| "holds v (TOr a b) = (holds v a \<or> holds v b)"

subsection \<open>The shunting yard\<close>

lemma precedence_simps [simp]:
  "precedence ''or'' = Some 1" "precedence ''and'' = Some 2" "precedence ''not'' = Some 3" "precedence ''('' = None" "precedence '')'' = None"
  by (simp_all add: precedence_def)

lemma precedence_selection [simp]: "selection_token n \<Longrightarrow> precedence n = None"
  by (simp add: precedence_def selection_token_def OPERATOR_TOKENS_def)

lemma binds_le: "binds q t \<Longrightarrow> p \<le> q \<Longrightarrow> binds p t"
  by (auto simp: binds_def split: option.splits)

lemma binds_parens [simp]: "\<not> binds p ''(''" "\<not> binds p '')''"
  by (simp_all add: binds_def)

lemma binds_4: "\<not> binds 4 t"
  by (auto simp: binds_def precedence_def split: if_splits)

text \<open>The top of a stack binds less than a level.\<close>

definition weaker :: "nat \<Rightarrow> string list \<Rightarrow> bool" where
  "weaker p stack \<longleftrightarrow> (case stack of [] \<Rightarrow> True | t # _ \<Rightarrow> \<not> binds p t)"

lemma weaker_simps [simp]: "weaker p []" "weaker p (t # ts) \<longleftrightarrow> \<not> binds p t"
  by (simp_all add: weaker_def)

lemma weaker_mono: "weaker p st \<Longrightarrow> p \<le> q \<Longrightarrow> weaker q st"
  by (auto simp: weaker_def dest: binds_le split: list.splits)

lemma pop_strong:
  assumes "\<forall>x \<in> set ops. binds p x" "weaker p st"
  shows "takeWhile (binds p) (ops @ st) = ops" "dropWhile (binds p) (ops @ st) = st"
  using assms by (induction ops) (auto simp: weaker_def takeWhile_append dropWhile_append split: list.splits)

lemma pop_to_paren:
  assumes "\<forall>x \<in> set ops. binds p x"
  shows "takeWhile (\<lambda>x. x \<noteq> ''('') (ops @ ''('' # st) = ops" "dropWhile (\<lambda>x. x \<noteq> ''('') (ops @ ''('' # st) = ''('' # st"
proof -
  have "\<forall>x \<in> set ops. x \<noteq> ''(''" using assms binds_parens by metis
  then show "takeWhile (\<lambda>x. x \<noteq> ''('') (ops @ ''('' # st) = ops" "dropWhile (\<lambda>x. x \<noteq> ''('') (ops @ ''('' # st) = ''('' # st"
    by (simp_all add: takeWhile_append dropWhile_append)
qed

lemma rpn_loop_binary:
  assumes op: "precedence op = Some p" "op \<noteq> ''(''" "op \<noteq> '')''"
    and a: "oa @ pa = A" "\<forall>x \<in> set pa. binds p x" "weaker p st"
    and b: "ob @ pb = B" "\<forall>x \<in> set pb. binds p x"
      "rpn_loop (tb @ rest) (o0 @ A) (op # st) = rpn_loop rest ((o0 @ A) @ ob) (pb @ op # st)"
  shows "\<exists>out ops. out @ ops = A @ B @ [op] \<and> (\<forall>x \<in> set ops. binds p x)
    \<and> rpn_loop (op # tb @ rest) (o0 @ oa) (pa @ st) = rpn_loop rest (o0 @ out) (ops @ st)"
proof (rule exI[of _ "A @ ob"], rule exI[of _ "pb @ [op]"], intro conjI)
  show "\<forall>x \<in> set (pb @ [op]). binds p x" using b(2) op(1) by (auto simp: binds_def[of _ op])
  have "rpn_loop (op # tb @ rest) (o0 @ oa) (pa @ st) = rpn_loop (tb @ rest) (o0 @ A) (op # st)"
    using op by (simp add: pop_strong[OF a(2,3)] flip: a(1))
  then show "rpn_loop (op # tb @ rest) (o0 @ oa) (pa @ st) = rpn_loop rest (o0 @ A @ ob) ((pb @ [op]) @ st)" using b(3) by simp
qed (simp flip: b(1))

lemma rpn_loop_tree:
  assumes "ctree_wf t" "weaker (level t) st"
  shows "\<exists>out ops. out @ ops = postfix t \<and> (\<forall>x \<in> set ops. binds (level t) x)
    \<and> rpn_loop (ctokens t @ rest) o0 st = rpn_loop rest (o0 @ out) (ops @ st)"
  using assms
proof (induction t arbitrary: st o0 rest)
  case (TSel n)
  then have "rpn_loop (ctokens (TSel n) @ rest) o0 st = rpn_loop rest (o0 @ [n]) ([] @ st)"
    by (auto simp: selection_token_def OPERATOR_TOKENS_def precedence_def)
  then show ?case by (intro exI[of _ "[n]"] exI[of _ "[]"]) auto
next
  case (TParen t)
  obtain out ops where t: "out @ ops = postfix t" "\<forall>x \<in> set ops. binds (level t) x"
    "rpn_loop (ctokens t @ '')'' # rest) o0 (''('' # st) = rpn_loop ('')'' # rest) (o0 @ out) (ops @ ''('' # st)"
    using TParen.IH[of "''('' # st" "'')'' # rest" o0] TParen.prems by auto
  then have "rpn_loop (ctokens (TParen t) @ rest) o0 st = rpn_loop rest (o0 @ postfix t) ([] @ st)"
    by (simp add: pop_to_paren[OF t(2)] flip: t(1))
  then show ?case by (intro exI[of _ "postfix t"] exI[of _ "[]"]) auto
next
  case (TNot t)
  have "weaker (level t) (''not'' # st)" using TNot.prems by (simp add: binds_def)
  then obtain out ops where t: "out @ ops = postfix t" "\<forall>x \<in> set ops. binds (level t) x"
    "rpn_loop (ctokens t @ rest) o0 (''not'' # st) = rpn_loop rest (o0 @ out) (ops @ ''not'' # st)"
    using TNot.IH[of "''not'' # st" rest o0] TNot.prems by auto
  moreover have "rpn_loop (ctokens (TNot t) @ rest) o0 st = rpn_loop (ctokens t @ rest) o0 (''not'' # st)"
    using pop_strong[of "[]" 3 st] TNot.prems by simp
  moreover have "\<forall>x \<in> set (ops @ [''not'']). binds 3 x" using t(2) TNot.prems(1) by (auto simp: binds_def[of _ "''not''"] intro: binds_le)
  ultimately show ?case by (metis append.assoc append_Cons append_Nil level.simps(3) postfix.simps(3))
next
  case (TAnd a b)
  obtain oa pa where a: "oa @ pa = postfix a" "\<forall>x \<in> set pa. binds (level a) x"
    "rpn_loop (ctokens a @ ''and'' # ctokens b @ rest) o0 st = rpn_loop (''and'' # ctokens b @ rest) (o0 @ oa) (pa @ st)"
    using TAnd.IH(1)[of st "''and'' # ctokens b @ rest" o0] TAnd.prems weaker_mono[of 2 st "level a"] by auto
  have "weaker (level b) (''and'' # st)" using TAnd.prems(1) by (simp add: binds_def)
  then obtain ob pb where b: "ob @ pb = postfix b" "\<forall>x \<in> set pb. binds (level b) x"
    "rpn_loop (ctokens b @ rest) (o0 @ postfix a) (''and'' # st) = rpn_loop rest ((o0 @ postfix a) @ ob) (pb @ ''and'' # st)"
    using TAnd.IH(2)[of "''and'' # st" rest "o0 @ postfix a"] TAnd.prems by auto
  have "\<forall>x \<in> set pa. binds 2 x" "\<forall>x \<in> set pb. binds 2 x" using a(2) b(2) TAnd.prems(1) by (auto intro: binds_le)
  from rpn_loop_binary[OF _ _ _ a(1) this(1) _ b(1) this(2) b(3)] show ?case using a(3) TAnd.prems(2) by simp
next
  case (TOr a b)
  have la: "1 \<le> level a" by (cases a) auto
  obtain oa pa where a: "oa @ pa = postfix a" "\<forall>x \<in> set pa. binds (level a) x"
    "rpn_loop (ctokens a @ ''or'' # ctokens b @ rest) o0 st = rpn_loop (''or'' # ctokens b @ rest) (o0 @ oa) (pa @ st)"
    using TOr.IH(1)[of st "''or'' # ctokens b @ rest" o0] TOr.prems weaker_mono[of 1 st "level a"] la by auto
  have "weaker (level b) (''or'' # st)" using TOr.prems(1) by (simp add: binds_def)
  then obtain ob pb where b: "ob @ pb = postfix b" "\<forall>x \<in> set pb. binds (level b) x"
    "rpn_loop (ctokens b @ rest) (o0 @ postfix a) (''or'' # st) = rpn_loop rest ((o0 @ postfix a) @ ob) (pb @ ''or'' # st)"
    using TOr.IH(2)[of "''or'' # st" rest "o0 @ postfix a"] TOr.prems by auto
  have "\<forall>x \<in> set pa. binds 1 x" "\<forall>x \<in> set pb. binds 1 x" using a(2) b(2) la TOr.prems(1) by (auto intro: binds_le)
  from rpn_loop_binary[OF _ _ _ a(1) this(1) _ b(1) this(2) b(3)] show ?case using a(3) TOr.prems(2) by simp
qed

lemma to_rpn_tree:
  assumes "ctree_wf t"
  shows "to_rpn (ctokens t) = Inr (postfix t)"
proof -
  obtain out ops where t: "out @ ops = postfix t" "\<forall>x \<in> set ops. binds (level t) x"
    "rpn_loop (ctokens t @ []) [] [] = rpn_loop [] ([] @ out) (ops @ [])"
    using rpn_loop_tree[OF assms, of "[]" "[]" "[]"] by auto
  then have "''('' \<notin> set ops" "'')'' \<notin> set ops" using binds_parens by metis+
  then show ?thesis using t by (simp add: to_rpn_def)
qed

subsection \<open>Kept outcomes change nothing\<close>

definition combine :: "'m outcome \<Rightarrow> 'm outcome \<Rightarrow> 'm outcome" where
  "combine acc r = (case acc of (m, fs, q) \<Rightarrow> case r of (m', fs', q') \<Rightarrow> (m \<or> m', if m' then dict_merge fs fs' else fs, q @ q'))"

definition token_outcome :: "(string \<Rightarrow> string list) \<Rightarrow> (string \<Rightarrow> sigma_error + 'm outcome) \<Rightarrow> string \<Rightarrow> sigma_error + 'm outcome" where
  "token_outcome names look t =
    (if names t = [] then Inl (SigmaValueError (''Unsupported Sigma condition token: '' @ t))
     else res_bind (res_map look (names t)) (\<lambda>rs. Inr (foldl combine (False, [], []) rs)))"

definition plain_step :: "(string \<Rightarrow> string list) \<Rightarrow> (string \<Rightarrow> sigma_error + 'm outcome) \<Rightarrow> string \<Rightarrow> 'm outcome list \<Rightarrow> sigma_error + 'm outcome list" where
  "plain_step names look t stack =
    (if t = ''not'' then rpn_not stack
     else if t = ''and'' \<or> t = ''or'' then rpn_binary (t = ''and'') stack
     else res_bind (token_outcome names look t) (\<lambda>r. Inr (r # stack)))"

definition agrees :: "(string \<Rightarrow> sigma_error + 'm outcome) \<Rightarrow> (string \<times> 'm outcome) list \<Rightarrow> bool" where
  "agrees look results \<longleftrightarrow> (\<forall>n r. map_of results n = Some r \<longrightarrow> look n = Inr r)"

lemma aggregate_Cons:
  "aggregate look (name # names) results acc = (case map_of results name of
     Some r \<Rightarrow> aggregate look names results (combine acc r)
   | None \<Rightarrow> res_bind (look name) (\<lambda>r. aggregate look names (dict_set name r results) (combine acc r)))"
  by (cases acc; cases "look name") (auto simp: combine_def case_prod_unfold split: option.split)

lemma aggregate_plain:
  assumes "agrees look results"
  shows "(\<exists>e. aggregate look ns results acc = Inl e \<and> res_map look ns = Inl e)
    \<or> (\<exists>results' rs. aggregate look ns results acc = Inr (foldl combine acc rs, results') \<and> agrees look results' \<and> res_map look ns = Inr rs)"
  using assms
proof (induction ns arbitrary: results acc)
  case (Cons n ns)
  show ?case
  proof (cases "look n")
    case (Inl e)
    then have "map_of results n = None" using Cons.prems by (cases "map_of results n") (auto simp: agrees_def)
    then show ?thesis using Inl by (simp add: aggregate_Cons)
  next
    case (Inr r)
    define results' where "results' = (if map_of results n = None then dict_set n r results else results)"
    have "aggregate look (n # ns) results acc = aggregate look ns results' (combine acc r)"
      using Cons.prems Inr by (auto simp: aggregate_Cons results'_def agrees_def split: option.split)
    moreover have "agrees look results'" using Cons.prems Inr by (auto simp: results'_def agrees_def dict_set_get)
    ultimately show ?thesis using Cons.IH[of results' "combine acc r"] Inr by auto
  qed
qed simp

lemma rpn_step_plain:
  assumes "agrees look results"
  shows "case rpn_step names look t (results, stack) of
      Inl e \<Rightarrow> plain_step names look t stack = Inl e
    | Inr (results', stack') \<Rightarrow> agrees look results' \<and> plain_step names look t stack = Inr stack'"
proof -
  consider "t = ''not''" | "t \<noteq> ''not''" "t = ''and'' \<or> t = ''or''" | "t \<noteq> ''not''" "\<not> (t = ''and'' \<or> t = ''or'')" by blast
  then show ?thesis
  proof cases
    case 1
    then show ?thesis using assms by (cases "rpn_not stack") (simp_all add: rpn_step_def plain_step_def)
  next
    case 2
    then show ?thesis using assms by (cases "rpn_binary (t = ''and'') stack") (simp_all add: rpn_step_def plain_step_def if_not_P)
  next
    case 3
    then show ?thesis using aggregate_plain[OF assms, of "names t" "(False, [], [])"]
      by (auto simp: rpn_step_def plain_step_def token_outcome_def simp del: de_Morgan_disj)
  qed
qed

lemma fold_plain:
  assumes "agrees look results"
  shows "res_bind (fold_res (rpn_step names look) rpn (results, stack)) (\<lambda>(_, stack'). Inr stack')
    = fold_res (plain_step names look) rpn stack"
  using assms
proof (induction rpn arbitrary: results stack)
  case (Cons t ts)
  show ?case
  proof (cases "rpn_step names look t (results, stack)")
    case (Inl e)
    then show ?thesis using rpn_step_plain[OF Cons.prems, of names t stack] by simp
  next
    case (Inr p)
    obtain results' stack' where p: "p = (results', stack')" by (cases p)
    have "agrees look results'" "plain_step names look t stack = Inr stack'"
      using rpn_step_plain[OF Cons.prems, of names t stack] Inr p by auto
    then show ?thesis using Cons.IH[of results' stack'] Inr p by simp
  qed
qed simp

definition final_outcome :: "'m outcome list \<Rightarrow> sigma_error + 'm outcome" where
  "final_outcome stack = (case stack of [r] \<Rightarrow> Inr r | _ \<Rightarrow> Inl (SigmaValueError ''Unsupported Sigma condition expression.''))"

lemma eval_condition_plain:
  "eval_condition names look rpn = res_bind (fold_res (plain_step names look) rpn []) final_outcome"
proof -
  have "eval_condition names look rpn
      = res_bind (res_bind (fold_res (rpn_step names look) rpn ([], [])) (\<lambda>(_, stack'). Inr stack')) final_outcome"
    by (cases "fold_res (rpn_step names look) rpn ([], [])") (auto simp: eval_condition_def final_outcome_def split: list.split)
  then show ?thesis using fold_plain[of look "[]" names rpn "[]"] by (simp add: agrees_def)
qed

subsection \<open>The truth value\<close>

lemma foldl_combine_fst: "fst (foldl combine acc rs) \<longleftrightarrow> fst acc \<or> (\<exists>r \<in> set rs. fst r)"
  by (induction rs arbitrary: acc) (auto simp: combine_def case_prod_unfold)

fun selections_of :: "ctree \<Rightarrow> string set" where
  "selections_of (TSel n) = {n}"
| "selections_of (TParen t) = selections_of t"
| "selections_of (TNot t) = selections_of t"
| "selections_of (TAnd a b) = selections_of a \<union> selections_of b"
| "selections_of (TOr a b) = selections_of a \<union> selections_of b"

definition defined_selections :: "(string \<Rightarrow> string list) \<Rightarrow> (string \<Rightarrow> sigma_error + 'm outcome) \<Rightarrow> (string \<Rightarrow> 'm outcome) \<Rightarrow> ctree \<Rightarrow> bool" where
  "defined_selections names look out t \<longleftrightarrow>
    (\<forall>n \<in> selections_of t. names n \<noteq> [] \<and> (\<forall>m \<in> set (names n). look m = Inr (out m)))"

lemma defined_selections_simps [simp]:
  "defined_selections names look out (TParen t) = defined_selections names look out t"
  "defined_selections names look out (TNot t) = defined_selections names look out t"
  "defined_selections names look out (TAnd a b) = (defined_selections names look out a \<and> defined_selections names look out b)"
  "defined_selections names look out (TOr a b) = (defined_selections names look out a \<and> defined_selections names look out b)"
  by (auto simp: defined_selections_def)

abbreviation truth :: "(string \<Rightarrow> string list) \<Rightarrow> (string \<Rightarrow> 'm outcome) \<Rightarrow> ctree \<Rightarrow> bool" where
  "truth names out \<equiv> holds (\<lambda>n. \<exists>m \<in> set (names n). fst (out m))"

lemma rpn_ops:
  "fold_res (plain_step names look) [''not''] (r # stack) = Inr ((\<not> fst r, if fst r then [] else fst (snd r), snd (snd r)) # stack)"
  "\<exists>x. fold_res (plain_step names look) [''and''] (r # l # stack) = Inr (x # stack) \<and> fst x = (fst l \<and> fst r)"
  "\<exists>x. fold_res (plain_step names look) [''or''] (r # l # stack) = Inr (x # stack) \<and> fst x = (fst l \<or> fst r)"
  by (cases r; cases l; simp add: plain_step_def rpn_not_def rpn_binary_def)+

lemma eval_tree:
  assumes "ctree_wf t" "defined_selections names look out t"
  shows "\<exists>r. fold_res (plain_step names look) (postfix t) stack = Inr (r # stack) \<and> fst r = truth names out t"
  using assms
proof (induction t arbitrary: stack)
  case (TSel n)
  have "n \<noteq> ''not''" "\<not> (n = ''and'' \<or> n = ''or'')" using TSel.prems(1) by (auto simp: selection_token_def OPERATOR_TOKENS_def)
  moreover have "names n \<noteq> []" "res_map look (names n) = Inr (map out (names n))"
    using TSel.prems(2) by (auto simp: defined_selections_def intro: res_map_Inr)
  ultimately show ?case by (simp add: plain_step_def token_outcome_def foldl_combine_fst del: de_Morgan_disj)
next
  case (TParen t)
  then show ?case by simp
next
  case (TNot t)
  obtain r where "fold_res (plain_step names look) (postfix t) stack = Inr (r # stack)" "fst r = truth names out t"
    using TNot.IH[of stack] TNot.prems by auto
  then show ?case by (simp only: postfix.simps fold_res_append res_bind_Inr rpn_ops) simp
next
  case (TAnd a b)
  obtain l where l: "fold_res (plain_step names look) (postfix a) stack = Inr (l # stack)" "fst l = truth names out a"
    using TAnd.IH(1)[of stack] TAnd.prems by auto
  obtain r where r: "fold_res (plain_step names look) (postfix b) (l # stack) = Inr (r # l # stack)" "fst r = truth names out b"
    using TAnd.IH(2)[of "l # stack"] TAnd.prems by auto
  show ?case using rpn_ops(2)[of names look r l stack] l r by (simp only: postfix.simps fold_res_append res_bind_Inr holds.simps)
next
  case (TOr a b)
  obtain l where l: "fold_res (plain_step names look) (postfix a) stack = Inr (l # stack)" "fst l = truth names out a"
    using TOr.IH(1)[of stack] TOr.prems by auto
  obtain r where r: "fold_res (plain_step names look) (postfix b) (l # stack) = Inr (r # l # stack)" "fst r = truth names out b"
    using TOr.IH(2)[of "l # stack"] TOr.prems by auto
  show ?case using rpn_ops(3)[of names look r l stack] l r by (simp only: postfix.simps fold_res_append res_bind_Inr holds.simps)
qed

lemma eval_condition_tree:
  assumes "ctree_wf t" "defined_selections names look out t"
  obtains r where "res_bind (to_rpn (ctokens t)) (eval_condition names look) = Inr r" "fst r = truth names out t"
proof -
  obtain r where "fold_res (plain_step names look) (postfix t) [] = Inr [r]" "fst r = truth names out t"
    using eval_tree[OF assms, of "[]"] by auto
  then show thesis using that[of r] by (simp add: to_rpn_tree[OF assms(1)] eval_condition_plain final_outcome_def)
qed

subsection \<open>Written conditions\<close>

text \<open>A name that is one token: letters, digits and underscores.\<close>

definition plain_name :: "string \<Rightarrow> bool" where
  "plain_name n \<longleftrightarrow> n \<noteq> [] \<and> list_all (\<lambda>c. cond_char c \<and> c \<noteq> CHR ''*'') n"

lemma cond_char_word: "cond_char c \<Longrightarrow> c \<noteq> CHR ''*'' \<Longrightarrow> re_word c"
  by (auto simp: cond_char_def re_word_def Let_def)

lemma blank_ends [simp]:
  "\<not> re_word (CHR '' '')" "\<not> cond_char (CHR '' '')" "\<not> re_word (CHR '')'')" "\<not> cond_char (CHR '')'')"
  "lower_char (CHR '' '') = CHR '' ''" "lower_char (CHR '')'') = CHR '')''"
  by (simp_all add: cond_char_def re_word_def lower_char_def)

lemma condition_tokens_name:
  assumes "plain_name n" "rest = [] \<or> hd rest \<in> {CHR '' '', CHR '')''}"
  shows "condition_tokens False (n @ rest) = n # condition_tokens True rest"
proof -
  obtain c cs where n: "n = c # cs" using assms(1) by (cases n) (auto simp: plain_name_def)
  have ends: "rest = [] \<or> \<not> re_word (hd rest) \<and> \<not> cond_char (hd rest)" using assms(2) by auto
  have chars: "\<forall>x \<in> set n. cond_char x \<and> re_word x" using assms(1) cond_char_word by (auto simp: plain_name_def list_all_iff)
  have np: "c \<noteq> CHR ''(''" "c \<noteq> CHR '')''" using chars n by (auto simp: cond_char_def)
  have run: "takeWhile cond_char (n @ rest) = n" using chars ends by (intro takeWhile_app) auto
  have kw: "w = n" if kwn: "keyword_at False (n @ rest) = Some w" for w
  proof -
    obtain k where k: "word_here False k (n @ rest)" "w = take (length k) (n @ rest)" "k \<in> {''and'', ''or'', ''not''}"
      by (rule keyword_atE[OF kwn])
    have "length k \<ge> length n"
    proof (rule ccontr)
      assume "\<not> length n \<le> length k"
      then have "hd (drop (length k) (n @ rest)) \<in> set n" "drop (length k) (n @ rest) \<noteq> []"
        by (simp_all add: hd_drop_conv_nth nth_append)
      then show False using k(1) chars by (auto simp: word_here_def)
    qed
    moreover have "length k \<le> length n"
    proof (rule ccontr)
      assume "\<not> length k \<le> length n"
      then have "hd rest \<in> set (take (length k) (n @ rest))" "rest \<noteq> []"
        using word_here_length[OF k(1)] by (cases rest; auto simp: take_Cons')+
      moreover have "list_all re_word (py_lower (take (length k) (n @ rest)))"
        using k(1,3) by (auto simp: word_here_def) (auto simp: re_word_def)
      ultimately have "re_word (lower_char (hd rest))" "rest \<noteq> []" by (auto simp: list_all_iff py_lower_def simp del: take_append)
      then show False using assms(2) by auto
    qed
    ultimately show ?thesis using k(2) by simp
  qed
  have "last n \<in> set n" using n by simp
  then have "re_word (last n)" using chars by blast
  moreover have "condition_tokens False (n @ rest) = (case keyword_at False (n @ rest) of
      Some w \<Rightarrow> w # condition_tokens True (drop (length w) (n @ rest))
    | None \<Rightarrow> n # condition_tokens (re_word (last n)) (drop (length n) (n @ rest)))"
    using np chars unfolding n append_Cons condition_tokens.simps(2)[of False c "cs @ rest"] Let_def run[unfolded n append_Cons]
    by (auto split: option.split)
  ultimately show ?thesis using kw by (auto split: option.split)
qed

end
