(* ===== verification/Sigma_Written.thy ===== *)
theory Sigma_Written
  imports Sigma_Semantics
begin

section \<open>Sigma rules: conditions as they are written\<close>

text \<open>
  The tokens of a condition written with single blanks, and what becomes of a condition that
  is one quantified term.
\<close>

lemma condition_tokens_blank [simp]: "condition_tokens b (CHR '' '' # s) = condition_tokens False s"
  by (simp add: condition_tokens.simps keyword_at_def word_here_def py_lower_def lower_char_def cond_char_def re_word_def)

lemma condition_tokens_paren [simp]:
  "condition_tokens b (CHR ''('' # s) = ''('' # condition_tokens False s"
  "condition_tokens b (CHR '')'' # s) = '')'' # condition_tokens False s"
  by (simp_all add: condition_tokens.simps)

lemma plain_operators [simp]: "plain_name ''and''" "plain_name ''or''" "plain_name ''not''"
  by (simp_all add: plain_name_def cond_char_def)

definition written :: "string list \<Rightarrow> string" where
  "written ts = py_join '' '' ts"

lemma written_simps [simp]:
  "written [] = []" "written [t] = t" "written (t # u # ts) = t @ CHR '' '' # written (u # ts)"
  by (simp_all add: written_def py_join_def)

definition token_text :: "string \<Rightarrow> bool" where
  "token_text t \<longleftrightarrow> t = ''('' \<or> t = '')'' \<or> plain_name t"

lemma operator_token_text: "t \<in> set OPERATOR_TOKENS \<Longrightarrow> token_text t"
  unfolding OPERATOR_TOKENS_def token_text_def using plain_operators by (simp, elim disjE) simp_all

lemma condition_tokens_written:
  assumes "\<forall>t \<in> set ts. token_text t" "rest = [] \<or> (ts \<noteq> [] \<and> hd rest = CHR '')'')"
  shows "\<exists>b. condition_tokens False (written ts @ rest) = ts @ condition_tokens b rest"
  using assms
proof (induction ts rule: induct_list012)
  case 1
  then show ?case by auto
next
  case (2 t)
  then show ?case
  proof (cases "t = ''('' \<or> t = '')''")
    case False
    then have "plain_name t" using 2 by (simp add: token_text_def)
    then have "condition_tokens False (t @ rest) = t # condition_tokens True rest" using 2 by (intro condition_tokens_name) auto
    then show ?thesis by auto
  qed auto
next
  case (3 t u ts)
  then obtain b where b: "condition_tokens False (written (u # ts) @ rest) = (u # ts) @ condition_tokens b rest" by auto
  have "condition_tokens False (t @ CHR '' '' # written (u # ts) @ rest) = t # condition_tokens False (written (u # ts) @ rest)"
  proof (cases "t = ''('' \<or> t = '')''")
    case False
    then have "plain_name t" using 3 by (simp add: token_text_def)
    then show ?thesis using condition_tokens_name[of t "CHR '' '' # written (u # ts) @ rest"] by simp
  qed auto
  then show ?case using b by auto
qed

lemma operator_tokens_lower: "t \<in> set OPERATOR_TOKENS \<Longrightarrow> py_lower t = t"
  by (auto simp: OPERATOR_TOKENS_def py_lower_def lower_char_def)

lemma tokenize_written:
  assumes "ts \<noteq> []" "\<forall>t \<in> set ts. t \<in> set OPERATOR_TOKENS \<or> plain_name t \<and> py_lower t \<notin> set OPERATOR_TOKENS"
  shows "tokenize_condition (written ts) = Inr ts"
proof -
  have "\<forall>t \<in> set ts. token_text t" using assms(2) operator_token_text by (auto simp: token_text_def)
  then have "condition_tokens False (written ts) = ts" using condition_tokens_written[of ts "[]"] by auto
  moreover have "map (\<lambda>t. if py_lower t \<in> set OPERATOR_TOKENS then py_lower t else t) ts = ts"
    using assms(2) operator_tokens_lower by (intro map_idI) auto
  ultimately show ?thesis using assms(1) by (simp add: tokenize_condition_def)
qed

subsection \<open>Texts without quantified terms\<close>

fun has_of :: "string \<Rightarrow> bool" where
  "has_of [] = False"
| "has_of (a # s) = (py_isspace a \<and> (case s of b # c # d # _ \<Rightarrow> py_lower [b, c] = ''of'' \<and> py_isspace d | _ \<Rightarrow> False) \<or> has_of s)"

lemma has_of_append: "has_of s \<Longrightarrow> has_of (pre @ s)"
  by (induction pre) auto

lemma quantified_has_of:
  assumes "quantified_at q s = Some r"
  shows "has_of s"
proof -
  define s1 where "s1 = drop (length q) s"
  define sp where "sp = takeWhile py_isspace s1"
  define s2 where "s2 = drop (length sp) s1"
  have h: "sp \<noteq> []" "py_lower (take 2 s2) = ''of''" "takeWhile py_isspace (drop 2 s2) \<noteq> []"
    using assms unfolding quantified_at_def Let_def s1_def[symmetric] unfolding sp_def[symmetric] unfolding s2_def[symmetric]
    by (auto split: if_splits simp del: drop_drop takeWhile_eq_Nil_iff)
  obtain b c s3 where s2: "s2 = b # c # s3" using h(2) by (cases s2; cases "tl s2") (auto simp: py_lower_def)
  then obtain d s4 where s3: "s3 = d # s4" "py_isspace d" using h(3) by (cases s3) (auto split: if_splits)
  have "py_isspace (last sp)" using last_in_set[OF h(1)] unfolding sp_def by (metis set_takeWhileD)
  moreover have "s = take (length q) s @ butlast sp @ last sp # s2"
  proof -
    have "s1 = sp @ s2" unfolding s2_def sp_def by (metis dropWhile_eq_drop takeWhile_dropWhile_id)
    also have "\<dots> = butlast sp @ last sp # s2" using h(1) append_butlast_last_id[OF h(1)] by (metis append.assoc append_Cons append_Nil)
    finally show ?thesis using append_take_drop_id[of "length q" s] unfolding s1_def by metis
  qed
  moreover have "has_of (last sp # s2)" using calculation(1) h(2) s2 s3 by simp
  ultimately show ?thesis by (metis has_of_append append.assoc)
qed

lemma search_has_of: "search_expansion b s \<Longrightarrow> has_of s"
  by (induction b s rule: search_expansion.induct)
    (auto simp: expansion_at_def dest: quantified_has_of split: option.splits)

lemma sub_terms_none: "\<not> search_expansion b s \<Longrightarrow> sub_terms names b s st = Inr (s, st)"
  by (induction b s rule: search_expansion.induct) (auto split: option.splits)

lemma has_of_name: "list_all (\<lambda>c. \<not> py_isspace c) t \<Longrightarrow> has_of (t @ s) = has_of s"
  by (induction t) auto

lemma has_of_blank:
  assumes "list_all (\<lambda>c. \<not> py_isspace c) t" "py_lower t \<noteq> ''of''" "s = [] \<or> hd s = CHR '' ''"
  shows "has_of (CHR '' '' # t @ s) = has_of s"
proof -
  have "\<not> (case t @ s of b # c # d # _ \<Rightarrow> py_lower [b, c] = ''of'' \<and> py_isspace d | _ \<Rightarrow> False)"
  proof (cases "\<exists>b c d us. t = b # c # d # us")
    case False
    then consider "t = []" | b where "t = [b]" | b c where "t = [b, c]" by (metis list.exhaust)
    then show ?thesis
    proof cases
      case 1
      then show ?thesis using assms(3) by (cases s) (auto simp: py_lower_def lower_char_def split: list.splits)
    next
      case (2 b)
      then show ?thesis using assms(3) by (cases s) (auto simp: py_lower_def lower_char_def split: list.splits)
    next
      case (3 b c)
      then show ?thesis using assms(2) by (auto split: list.splits)
    qed
  qed (use assms(1) in auto)
  then show ?thesis using has_of_name[OF assms(1), of s] by auto
qed

lemma has_of_written:
  assumes "\<forall>t \<in> set ts. list_all (\<lambda>c. \<not> py_isspace c) t \<and> py_lower t \<noteq> ''of''"
  shows "\<not> has_of (written ts) \<and> \<not> has_of (CHR '' '' # written ts)"
  using assms
proof (induction ts rule: induct_list012)
  case (2 t)
  then show ?case using has_of_blank[of t "[]"] has_of_name[of t "[]"] by simp
next
  case (3 t u ts)
  then have "\<not> has_of (CHR '' '' # written (u # ts))" by simp
  then show ?case using has_of_blank[of t "CHR '' '' # written (u # ts)"] has_of_name[of t "CHR '' '' # written (u # ts)"] 3(3) by simp
qed simp

end
