(* ===== verification/Sigma_Quantified.thy ===== *)
theory Sigma_Quantified
  imports Sigma_Written
begin

section \<open>Sigma rules: quantified conditions\<close>

text \<open>
  A condition that is one term, \<^verbatim>\<open>1 of\<close> or \<^verbatim>\<open>all of\<close> a selector: what it expands to, and
  the tree that its expansion is written from.
\<close>

definition quant_op :: "string \<Rightarrow> string" where
  "quant_op q = (if q = ''1'' then ''or'' else ''and'')"

definition quant_tree :: "string \<Rightarrow> string \<Rightarrow> string list \<Rightarrow> ctree" where
  "quant_tree q n ns = foldl (\<lambda>t m. if q = ''1'' then TOr t (TSel m) else TAnd t (TSel m)) (TSel n) ns"

definition quant_tokens :: "string \<Rightarrow> string list \<Rightarrow> string list" where
  "quant_tokens q names = (case names of [] \<Rightarrow> [] | n # ns \<Rightarrow> n # concat (map (\<lambda>m. [quant_op q, m]) ns))"

lemma quant_tree_snoc: "quant_tree q n (ns @ [m]) = (if q = ''1'' then TOr (quant_tree q n ns) (TSel m) else TAnd (quant_tree q n ns) (TSel m))"
  by (simp add: quant_tree_def)

lemma ctokens_quant_tree: "ctokens (quant_tree q n ns) = quant_tokens q (n # ns)"
proof (induction ns rule: rev_induct)
  case (snoc m ns)
  then show ?case by (auto simp: quant_tree_snoc quant_tokens_def quant_op_def)
qed (simp add: quant_tree_def quant_tokens_def)

lemma quant_tree_level: "2 \<le> level (quant_tree q n ns) \<or> q = ''1''"
  by (cases ns rule: rev_cases) (simp_all add: quant_tree_snoc quant_tree_def[of _ _ "[]"])

lemma quant_tree_wf: "\<forall>m \<in> set (n # ns). selection_token m \<Longrightarrow> ctree_wf (quant_tree q n ns)"
proof (induction ns rule: rev_induct)
  case (snoc m ns)
  then show ?case using quant_tree_level[of q n ns] by (auto simp: quant_tree_snoc)
qed (simp add: quant_tree_def)

lemma holds_quant_tree:
  "holds v (quant_tree q n ns) = (if q = ''1'' then \<exists>m \<in> set (n # ns). v m else \<forall>m \<in> set (n # ns). v m)"
  by (induction ns rule: rev_induct) (auto simp: quant_tree_snoc quant_tree_def[of _ _ "[]"])

lemma selections_quant_tree: "selections_of (quant_tree q n ns) = set (n # ns)"
  by (induction ns rule: rev_induct) (auto simp: quant_tree_snoc quant_tree_def[of _ _ "[]"])

lemma written_Cons: "ts \<noteq> [] \<Longrightarrow> written (t # ts) = t @ CHR '' '' # written ts"
  by (cases ts) simp_all

lemma join_quant_tokens:
  assumes "names \<noteq> []"
  shows "py_join (CHR '' '' # quant_op q @ '' '') names = written (quant_tokens q names)"
proof -
  obtain n ns where "names = n # ns" using assms by (cases names) auto
  moreover have "py_join (CHR '' '' # quant_op q @ '' '') (n # ns) = written (quant_tokens q (n # ns))"
  proof (induction ns arbitrary: n)
    case (Cons m ns)
    have "py_join (CHR '' '' # quant_op q @ '' '') (n # m # ns) = n @ CHR '' '' # quant_op q @ '' '' @ py_join (CHR '' '' # quant_op q @ '' '') (m # ns)"
      by (simp add: py_join_def)
    also have "\<dots> = n @ CHR '' '' # quant_op q @ CHR '' '' # written (quant_tokens q (m # ns))" using Cons by simp
    also have "\<dots> = written (n # quant_op q # quant_tokens q (m # ns))" by (simp add: written_Cons quant_tokens_def)
    finally show ?case by (simp add: quant_tokens_def)
  qed (simp add: py_join_def quant_tokens_def)
  ultimately show ?thesis by simp
qed

subsection \<open>The text of an expansion\<close>

definition quant_text :: "string \<Rightarrow> string list \<Rightarrow> string" where
  "quant_text q names = (if length names > 1 then ''('' @ written (quant_tokens q names) @ '')'' else written (quant_tokens q names))"

text \<open>A selection name that the condition's own words do not hide.\<close>

definition clear_name :: "string \<Rightarrow> bool" where
  "clear_name n \<longleftrightarrow> plain_name n \<and> py_lower n \<notin> set (''of'' # OPERATOR_TOKENS)"

lemma cond_char_no_space: "cond_char c \<Longrightarrow> \<not> py_isspace c"
proof (cases "c = CHR ''_'' \<or> c = CHR ''*''")
  case False
  assume "cond_char c"
  with False show ?thesis unfolding cond_char_def py_isspace_def Let_def by linarith
qed (auto simp: py_isspace_def)

lemma plain_no_space: "plain_name n \<Longrightarrow> list_all (\<lambda>c. \<not> py_isspace c) n"
  using cond_char_no_space by (auto simp: plain_name_def list_all_iff)

lemma clear_selection: "clear_name n \<Longrightarrow> py_lower n \<notin> set OPERATOR_TOKENS \<and> selection_token n"
  using operator_tokens_lower[of n] by (auto simp: clear_name_def selection_token_def)

lemma quant_op_cases: "quant_op q = ''or'' \<or> quant_op q = ''and''"
  by (simp add: quant_op_def)

lemma quant_tokens_set: "set (quant_tokens q names) \<subseteq> set names \<union> {quant_op q}"
  by (cases names) (auto simp: quant_tokens_def)

lemma has_of_snoc: "\<not> py_isspace c \<Longrightarrow> has_of (s @ [c]) = has_of s"
  by (induction s) (auto split: list.splits)

lemma quant_text_no_of:
  assumes "\<forall>n \<in> set names. clear_name n"
  shows "\<not> has_of (quant_text q names)"
proof -
  have "\<forall>t \<in> set (quant_tokens q names). list_all (\<lambda>c. \<not> py_isspace c) t \<and> py_lower t \<noteq> ''of''"
  proof
    fix t assume "t \<in> set (quant_tokens q names)"
    then have "clear_name t \<or> t = quant_op q" using quant_tokens_set[of q names] assms by auto
    then show "list_all (\<lambda>c. \<not> py_isspace c) t \<and> py_lower t \<noteq> ''of''"
    proof
      assume "t = quant_op q"
      then show ?thesis using quant_op_cases[of q] by (elim disjE) (simp_all add: py_isspace_def py_lower_def lower_char_def)
    qed (simp add: clear_name_def plain_no_space)
  qed
  then have w: "\<not> has_of (written (quant_tokens q names))" using has_of_written by blast
  have "has_of (''('' @ written (quant_tokens q names) @ '')'') = has_of (written (quant_tokens q names))"
    using has_of_snoc[of "CHR '')''" "written (quant_tokens q names)"] by (simp add: py_isspace_def)
  then show ?thesis using w by (simp add: quant_text_def)
qed

lemma tokenize_quant_text:
  assumes "names = n # ns" "\<forall>n \<in> set names. clear_name n"
  shows "tokenize_condition (quant_text q names)
    = Inr (ctokens (if length names > 1 then TParen (quant_tree q n ns) else quant_tree q n ns))"
proof -
  define ts where "ts = quant_tokens q names"
  have ts: "ts = ctokens (quant_tree q n ns)" "ts \<noteq> []" by (simp_all add: ts_def ctokens_quant_tree assms(1) quant_tokens_def)
  have ok: "\<forall>t \<in> set ts. t \<in> set OPERATOR_TOKENS \<or> plain_name t \<and> py_lower t \<notin> set OPERATOR_TOKENS"
  proof
    fix t assume "t \<in> set ts"
    then have "clear_name t \<or> t = quant_op q" using quant_tokens_set[of q names] assms(2) by (auto simp: ts_def)
    then show "t \<in> set OPERATOR_TOKENS \<or> plain_name t \<and> py_lower t \<notin> set OPERATOR_TOKENS"
    proof
      assume "t = quant_op q"
      then show ?thesis using quant_op_cases[of q] by (auto simp: OPERATOR_TOKENS_def)
    qed (simp add: clear_name_def)
  qed
  show ?thesis
  proof (cases "length names > 1")
    case False
    then show ?thesis using tokenize_written[OF ts(2) ok] ts(1) by (simp add: quant_text_def flip: ts_def)
  next
    case True
    have "\<forall>t \<in> set ts. token_text t" using ok operator_token_text by (auto simp: token_text_def)
    then have "condition_tokens False (quant_text q names) = ''('' # ts @ ['')'']"
      using condition_tokens_written[of ts "'')''"] True ts(2) by (auto simp: quant_text_def ts_def)
    moreover have "''('' \<in> set OPERATOR_TOKENS" "'')'' \<in> set OPERATOR_TOKENS" by (simp_all add: OPERATOR_TOKENS_def)
    then have "\<forall>t \<in> set (''('' # ts @ ['')'']). t \<in> set OPERATOR_TOKENS \<or> py_lower t \<notin> set OPERATOR_TOKENS" using ok by auto
    then have "map (\<lambda>t. if py_lower t \<in> set OPERATOR_TOKENS then py_lower t else t) (''('' # ts @ ['')'']) = ''('' # ts @ ['')'']"
      using operator_tokens_lower by (intro map_idI) metis
    ultimately show ?thesis using True ts(1) by (simp add: tokenize_condition_def del: map_append list.map)
  qed
qed

subsection \<open>Expansion\<close>

definition selector_text :: "string \<Rightarrow> bool" where
  "selector_text s \<longleftrightarrow> s \<noteq> [] \<and> list_all cond_char s \<and> hd s \<noteq> CHR ''*''"

lemma quantified_at_term:
  assumes "selector_text sel" "py_lower q = q"
  shows "quantified_at q (q @ '' of '' @ sel) = Some (q, sel, [])"
proof -
  obtain c s where sel: "sel = c # s" "cond_char c" "c \<noteq> CHR ''*''" using assms(1) by (cases sel) (auto simp: selector_text_def)
  have run: "takeWhile cond_char s = s" using assms(1) sel(1) by (simp add: selector_text_def list_all_iff)
  then show ?thesis using assms(2) sel cond_char_no_space[OF sel(2)]
    by (simp add: run quantified_at_def Let_def py_isspace_def[of "CHR '' ''"] py_isspace_def[of "CHR ''o''"] py_lower_def lower_char_def)
qed

lemma expansion_at_term:
  assumes "selector_text sel" "q \<in> {''1'', ''all''}"
  shows "expansion_at (q @ '' of '' @ sel) = Some (q, sel, [])"
  using assms(2)
proof (elim insertE emptyE)
  assume "q = ''1''"
  then show ?thesis using quantified_at_term[OF assms(1), of q] by (simp add: expansion_at_def py_lower_def lower_char_def)
next
  assume "q = ''all''"
  moreover have "quantified_at ''1'' (''all'' @ '' of '' @ sel) = None" by (simp add: quantified_at_def Let_def py_lower_def lower_char_def)
  ultimately show ?thesis using quantified_at_term[OF assms(1), of q] by (simp add: expansion_at_def py_lower_def lower_char_def)
qed

text \<open>The names a term stands for: \<open>them\<close> leaves out the filters.\<close>

definition term_names :: "string list \<Rightarrow> string \<Rightarrow> string list" where
  "term_names blocks selector = selector_matches selector
     (if py_lower selector = ''them'' then filter (\<lambda>n. \<not> prefix ''filter'' (py_lower n)) blocks else blocks)"

lemma replace_term:
  assumes "names = term_names blocks selector" "names \<noteq> []" "length names \<le> 100"
  obtains st where "replace_match blocks q selector no_terms = Inr (quant_text q names, st)"
proof -
  have "py_join (if q = ''1'' then '' or '' else '' and '') names = written (quant_tokens q names)"
    using join_quant_tokens[OF assms(2), of q] by (simp add: quant_op_def split: if_splits)
  moreover have "selector_matches selector (if py_lower selector = ''them'' then filter (\<lambda>n. \<not> prefix ''filter'' (py_lower n)) blocks else blocks) = names"
    by (simp add: assms(1) term_names_def)
  ultimately have "\<exists>st. replace_match blocks q selector no_terms = Inr (quant_text q names, st)" using assms(2,3)
    by (cases "py_lower selector = ''them''"; cases "list_ex (\<lambda>n. prefix ''filter'' (py_lower n)) blocks")
      (simp_all add: replace_match_def Let_def no_terms_def MAX_EXPANDED_SELECTORS_PER_RULE_def MAX_TOTAL_LEAF_CONDITIONS_def quant_text_def)
  then show thesis using that by blast
qed

lemma expand_term:
  assumes "selector_text selector" "q \<in> {''1'', ''all''}"
    and "names = term_names blocks selector" "names \<noteq> []" "length names \<le> 100" "\<forall>n \<in> set names. clear_name n"
  shows "exp_supported (expand_condition blocks (q @ '' of '' @ selector))"
    "expanded_condition (expand_condition blocks (q @ '' of '' @ selector)) = quant_text q names"
proof -
  define condition where "condition = q @ '' of '' @ selector"
  obtain st where r: "replace_match blocks q selector no_terms = Inr (quant_text q names, st)"
    by (rule replace_term[OF assms(3-5)])
  have e: "expansion_at condition = Some (q, selector, [])" using expansion_at_term[OF assms(1,2)] by (simp add: condition_def)
  obtain c cs where c: "condition = c # cs" using assms(2) by (auto simp: condition_def)
  have "search_expansion True condition" using e c by simp
  then have "quant_text q names \<noteq> condition" using search_has_of quant_text_no_of[OF assms(6), of q] by metis
  moreover have "sub_terms blocks True condition no_terms = Inr (quant_text q names, st)" using e c r by simp
  moreover have n: "\<not> search_expansion True (quant_text q names)" using search_has_of quant_text_no_of[OF assms(6), of q] by metis
  moreover have "sub_terms blocks True (quant_text q names) st = Inr (quant_text q names, st)" by (rule sub_terms_none[OF n])
  ultimately have "expand_loop blocks 8 condition no_terms = Inr (quant_text q names, st)" by (simp add: numeral_eq_Suc)
  then have "expand_condition blocks condition = expansion_of True (quant_text q names) [] (if matched_selectors st \<noteq> [] then ''expanded'' else ''simple_condition'') st"
    using n c by (simp add: expand_condition_def)
  then show "exp_supported (expand_condition blocks (q @ '' of '' @ selector))"
    "expanded_condition (expand_condition blocks (q @ '' of '' @ selector)) = quant_text q names"
    by (simp_all add: expansion_of_def condition_def)
qed

end
