(* ===== verification/Sigma_Compiled.thy ===== *)
theory Sigma_Compiled
  imports Sigma_Quantified
begin

section \<open>Sigma rules: compiled and interpreted rules\<close>

text \<open>
  The compiled form of a rule decides as the rule itself: field by field, selection by
  selection and token by token. \<open>verdict\<close> of an outcome leaves out the matched fields, whose
  texts differ between the two.
\<close>

subsection \<open>Blanks around a condition\<close>

lemma space_codes:
  assumes "py_isspace c"
  shows "lower_char c = c \<and> \<not> re_word c \<and> \<not> cond_char c \<and> c \<notin> set ''()anordt''"
proof (intro conjI)
  have codes: "9 \<le> code_point c \<and> code_point c \<le> 13 \<or> 28 \<le> code_point c \<and> code_point c \<le> 32 \<or> code_point c = 133 \<or> code_point c = 160"
    using assms by (simp add: py_isspace_def Let_def)
  then have "\<not> (65 \<le> code_point c \<and> code_point c \<le> 90 \<or> 192 \<le> code_point c \<and> code_point c \<le> 214 \<or> 216 \<le> code_point c \<and> code_point c \<le> 222)"
    by linarith
  then show "lower_char c = c" unfolding lower_char_def Let_def by (rule if_not_P)
  show "\<not> re_word c" using codes unfolding re_word_def Let_def by (elim disjE conjE) simp_all
  show "\<not> cond_char c" using assms cond_char_no_space by blast
  show "c \<notin> set ''()anordt''" using assms by (auto simp: py_isspace_def)
qed

lemma keyword_at_space: "py_isspace c \<Longrightarrow> keyword_at b (c # s) = None"
  using space_codes[of c] by (auto simp: keyword_at_def word_here_def py_lower_def)

lemma condition_tokens_space: "py_isspace c \<Longrightarrow> condition_tokens b (c # s) = condition_tokens False s"
  using space_codes[of c] by (simp add: condition_tokens.simps keyword_at_space)

lemma word_here_snoc:
  assumes "py_isspace c" "w \<in> {''and'', ''or'', ''not''}"
  shows "word_here b w (s @ [c]) = word_here b w s"
proof (cases "length w \<le> length s")
  case True
  then show ?thesis using space_codes[OF assms(1)] by (cases "drop (length w) s") (auto simp: word_here_def)
next
  case False
  have "py_lower (take (length w) (s @ [c])) \<noteq> w"
  proof
    assume a: "py_lower (take (length w) (s @ [c])) = w"
    have "take (length w) (s @ [c]) = s @ [c]" using False by simp
    then have "last w = c" "w \<noteq> []" using a space_codes[OF assms(1)] by (auto simp: py_lower_def)
    then show False using assms(2) space_codes[OF assms(1)] by auto
  qed
  then show ?thesis using False word_here_length[of b w s] by (auto simp: word_here_def)
qed

lemma keyword_at_snoc: "py_isspace c \<Longrightarrow> keyword_at b (s @ [c]) = keyword_at b s"
proof -
  assume c: "py_isspace c"
  have "find (\<lambda>w. word_here b w (s @ [c])) [''and'', ''or'', ''not''] = find (\<lambda>w. word_here b w s) [''and'', ''or'', ''not'']"
    using word_here_snoc[OF c] by (intro find_cong) auto
  moreover have "take (length w) (s @ [c]) = take (length w) s" if "find (\<lambda>w. word_here b w s) [''and'', ''or'', ''not''] = Some w" for w
    using find_SomeD[OF that] word_here_length[of b w s] by simp
  ultimately show ?thesis unfolding keyword_at_def by (auto intro!: map_option_cong simp del: find.simps)
qed

lemma condition_tokens_snoc: "py_isspace c \<Longrightarrow> condition_tokens b (s @ [c]) = condition_tokens b s"
proof (induction b s rule: condition_tokens.induct)
  case (1 b)
  then show ?case by (simp add: condition_tokens_space)
next
  case (2 b d cs)
  have k: "keyword_at b (d # cs @ [c]) = keyword_at b (d # cs)" using keyword_at_snoc[OF 2(5), of b "d # cs"] by simp
  have w: "drop (length w) (d # cs @ [c]) = drop (length w) (d # cs) @ [c]" if "keyword_at b (d # cs) = Some w" for w
    using keyword_at_length[OF that] by (metis append_Cons drop_append append_eq_conv_conj diff_is_0_eq drop0)
  have r: "takeWhile cond_char (d # cs @ [c]) = takeWhile cond_char (d # cs)"
    "drop (length (takeWhile cond_char (d # cs))) (d # cs @ [c]) = drop (length (takeWhile cond_char (d # cs))) (d # cs) @ [c]"
  proof -
    have "takeWhile cond_char (xs @ [c]) = takeWhile cond_char xs" for xs
      using space_codes[OF 2(5)] by (induction xs) auto
    from this[of "d # cs"] show "takeWhile cond_char (d # cs @ [c]) = takeWhile cond_char (d # cs)" by simp
    show "drop (length (takeWhile cond_char (d # cs))) (d # cs @ [c]) = drop (length (takeWhile cond_char (d # cs))) (d # cs) @ [c]"
      using length_takeWhile_le[of cond_char "d # cs"] drop_append[of _ "d # cs" "[c]"] by simp
  qed
  show ?case
  proof (cases "d = CHR ''('' \<or> d = CHR '')''")
    case True
    then show ?thesis using 2(1)[OF True 2(5)] by (auto simp: condition_tokens.simps)
  next
    case paren: False
    show ?thesis
    proof (cases "keyword_at b (d # cs)")
      case (Some v)
      then show ?thesis using 2(4)[OF paren Some 2(5)] paren w[OF Some] k by (simp add: condition_tokens.simps)
    next
      case None
      show ?thesis
      proof (cases "cond_char d")
        case True
        then show ?thesis using 2(2)[OF paren None True refl 2(5)] paren None k r
          unfolding append_Cons condition_tokens.simps(2) Let_def by simp
      next
        case False
        then show ?thesis using 2(3)[OF paren None False 2(5)] paren None k by (simp add: condition_tokens.simps)
      qed
    qed
  qed
qed

lemma condition_tokens_strip: "condition_tokens False (py_strip s) = condition_tokens False s"
proof -
  have "condition_tokens False (dropWhile py_isspace s) = condition_tokens False s"
    by (induction s) (auto simp: condition_tokens_space)
  moreover have "condition_tokens False (rev (dropWhile py_isspace r)) = condition_tokens False (rev r)" for r
    by (induction r) (auto simp: condition_tokens_snoc)
  ultimately show ?thesis by (simp add: py_strip_def py_rstrip_def)
qed

lemma tokenize_strip: "tokenize_condition (py_strip s) = tokenize_condition s"
  by (simp add: tokenize_condition_def condition_tokens_strip)

subsection \<open>Verdicts\<close>

definition verdict :: "'m outcome \<Rightarrow> bool \<times> string list" where
  "verdict r = (fst r, snd (snd r))"

abbreviation same_verdict :: "sigma_error + 'm outcome \<Rightarrow> sigma_error + 'm outcome \<Rightarrow> bool" where
  "same_verdict r s \<equiv> map_sum (\<lambda>e. e) verdict r = map_sum (\<lambda>e. e) verdict s"

abbreviation same_stack :: "sigma_error + 'm outcome list \<Rightarrow> sigma_error + 'm outcome list \<Rightarrow> bool" where
  "same_stack r s \<equiv> map_sum (\<lambda>e. e) (map verdict) r = map_sum (\<lambda>e. e) (map verdict) s"

lemma same_verdict_cases:
  assumes "same_verdict r s"
  obtains e where "r = Inl e" "s = Inl e" | x y where "r = Inr x" "s = Inr y" "verdict x = verdict y"
  using assms by (cases r; cases s) auto

lemma same_stack_cases:
  assumes "same_stack r s"
  obtains e where "r = Inl e" "s = Inl e" | x y where "r = Inr x" "s = Inr y" "map verdict x = map verdict y"
  using assms by (cases r; cases s) auto

lemma combine_verdict: "verdict a = verdict b \<Longrightarrow> verdict x = verdict y \<Longrightarrow> verdict (combine a x) = verdict (combine b y)"
  by (simp add: combine_def verdict_def case_prod_unfold)

lemma foldl_combine_verdict:
  "verdict a = verdict b \<Longrightarrow> map verdict xs = map verdict ys \<Longrightarrow> verdict (foldl combine a xs) = verdict (foldl combine b ys)"
proof (induction xs arbitrary: a b ys)
  case (Cons x xs)
  then obtain y ys' where "ys = y # ys'" "verdict x = verdict y" "map verdict xs = map verdict ys'" by (cases ys) auto
  then show ?case using Cons.IH[of "combine a x" "combine b y" ys'] combine_verdict[OF Cons.prems(1)] by simp
qed simp

lemma res_map_verdict:
  "(\<And>n. n \<in> set ns \<Longrightarrow> same_verdict (look n) (look' n)) \<Longrightarrow> same_stack (res_map look ns) (res_map look' ns)"
proof (induction ns)
  case (Cons n ns)
  have "same_verdict (look n) (look' n)" by (simp add: Cons.prems)
  moreover have "same_stack (res_map look ns) (res_map look' ns)" using Cons by simp
  ultimately show ?case by (elim same_verdict_cases same_stack_cases) simp_all
qed simp

lemma token_outcome_verdict:
  assumes "names t = names' t" "\<And>n. n \<in> set (names t) \<Longrightarrow> same_verdict (look n) (look' n)"
  shows "same_verdict (token_outcome names look t) (token_outcome names' look' t)"
proof -
  have "same_stack (res_map look (names t)) (res_map look' (names t))" using assms(2) by (rule res_map_verdict)
  then show ?thesis
  proof (cases rule: same_stack_cases)
    case (2 x y)
    then show ?thesis using foldl_combine_verdict[OF refl 2(3), of "(False, [], [])"] by (simp add: token_outcome_def flip: assms(1))
  qed (simp add: token_outcome_def flip: assms(1))
qed

lemma rpn_not_verdict: "map verdict s = map verdict s' \<Longrightarrow> same_stack (rpn_not s) (rpn_not s')"
  by (cases s; cases s') (auto simp: rpn_not_def verdict_def split: prod.split)

lemma rpn_binary_verdict:
  assumes "map verdict s = map verdict s'"
  shows "same_stack (rpn_binary a s) (rpn_binary a s')"
proof (cases s)
  case (Cons x xs)
  then obtain x' xs' where s': "s' = x' # xs'" using assms by (cases s') auto
  show ?thesis
  proof (cases xs)
    case Nil
    then show ?thesis using Cons s' assms by (simp add: rpn_binary_def split: prod.split)
  next
    case xs: (Cons y ys)
    then obtain y' ys' where "xs' = y' # ys'" using assms Cons s' by (cases xs') auto
    then show ?thesis using assms Cons s' xs by (cases x; cases x'; cases y; cases y') (auto simp: rpn_binary_def verdict_def)
  qed
qed (use assms in \<open>simp add: rpn_binary_def\<close>)

lemma plain_step_verdict:
  assumes "t \<notin> {''not'', ''and'', ''or''} \<Longrightarrow> names t = names' t"
    and "\<And>n. t \<notin> {''not'', ''and'', ''or''} \<Longrightarrow> n \<in> set (names t) \<Longrightarrow> same_verdict (look n) (look' n)"
    and "map verdict s = map verdict s'"
  shows "same_stack (plain_step names look t s) (plain_step names' look' t s')"
proof -
  consider "t = ''not''" | "t \<noteq> ''not''" "t = ''and'' \<or> t = ''or''" | "t \<notin> {''not'', ''and'', ''or''}" by blast
  then show ?thesis
  proof cases
    case 1
    then show ?thesis using rpn_not_verdict[OF assms(3)] by (simp add: plain_step_def)
  next
    case 2
    then show ?thesis using rpn_binary_verdict[OF assms(3)] by (simp add: plain_step_def if_not_P)
  next
    case 3
    have "same_verdict (token_outcome names look t) (token_outcome names' look' t)"
      using assms(1,2)[OF 3] by (intro token_outcome_verdict) auto
    moreover have "plain_step n l t s = res_bind (token_outcome n l t) (\<lambda>r. Inr (r # s))" for n l and s :: "'a outcome list"
      using 3 by (simp add: plain_step_def)
    ultimately show ?thesis using assms(3) by (elim same_verdict_cases) simp_all
  qed
qed

lemma eval_condition_verdict:
  assumes "\<And>t. t \<in> set rpn \<Longrightarrow> t \<notin> {''not'', ''and'', ''or''} \<Longrightarrow> names t = names' t"
    and "\<And>t n. t \<in> set rpn \<Longrightarrow> t \<notin> {''not'', ''and'', ''or''} \<Longrightarrow> n \<in> set (names t) \<Longrightarrow> same_verdict (look n) (look' n)"
  shows "same_verdict (eval_condition names look rpn) (eval_condition names' look' rpn)"
proof -
  have "same_stack (fold_res (plain_step names look) rpn s) (fold_res (plain_step names' look') rpn s')"
    if "map verdict s = map verdict s'" for s s' using assms that
  proof (induction rpn arbitrary: s s')
    case (Cons t ts)
    have "same_stack (plain_step names look t s) (plain_step names' look' t s')"
      by (rule plain_step_verdict) (use Cons.prems in auto)
    then show ?case
    proof (cases rule: same_stack_cases)
      case (2 x y)
      have "same_stack (fold_res (plain_step names look) ts x) (fold_res (plain_step names' look') ts y)"
        by (rule Cons.IH) (use Cons.prems 2(3) in auto)
      then show ?thesis using 2 by simp
    qed simp
  qed simp
  from this[OF refl, of "[]"] show ?thesis
  proof (cases rule: same_stack_cases)
    case (2 x y)
    then have "length x = length y" by (metis length_map)
    then show ?thesis using 2 unfolding eval_condition_plain
      by (cases x; cases y; cases "tl x"; cases "tl y") (auto simp: final_outcome_def)
  qed (simp add: eval_condition_plain)
qed

subsection \<open>Fields and selections\<close>

lemma match_scalar_flatten: "match_scalar X av (JList (flatten_values e)) m = match_scalar X av e m"
  by (simp add: match_scalar.simps[of X av _ m])

lemma first_mapped_match_flatten:
  "first_mapped_match X document (JList (flatten_values e)) m fs = first_mapped_match X document e m fs"
  by (induction fs) (simp_all add: match_scalar_flatten Let_def cong: if_cong)

lemma match_field_flatten:
  "match_field X document fs fallback base m (JList (flatten_values e)) = match_field X document fs fallback base m e"
  unfolding match_field_def first_mapped_match_flatten match_basename_alternate_def basename_alternates_def flatten_values.simps(1) ..

lemma parsed_modifier_nonempty: "parse_field_modifiers field = (base, m, tr) \<Longrightarrow> m \<noteq> Some []"
  by (auto simp: parse_field_modifiers_def Let_def COMPARISONS_def split: if_splits option.splits dest!: find_SomeD)

lemma match_compiled_block:
  "verdict a = verdict b \<Longrightarrow> fst a \<Longrightarrow> same_verdict (match_compiled_clauses X document (map (compile_field X alt) block) (fst (snd a)) (snd (snd a)))
    (match_block X document block (fst (snd b)) (snd (snd b)))"
proof (induction block arbitrary: a b)
  case (Cons item block)
  obtain field v where item: "item = (field, v)" by (cases item)
  obtain mapped fallback where mf: "mapped_sigma_fields field = (mapped, fallback)" by (cases "mapped_sigma_fields field")
  obtain base m tr where pm: "parse_field_modifiers field = (base, m, tr)" by (cases "parse_field_modifiers field")
  have m: "m \<noteq> Some []" by (rule parsed_modifier_nonempty[OF pm])
  then have f: "compile_field X alt (field, v) = \<lparr>cl_sigma_field = field, cl_base_field = base, cl_mapped_fields = mapped,
      cl_modifier = m, cl_expected = flatten_values (transformed X tr v), cl_used_fallback = fallback, cl_alternative = alt\<rparr>"
    "(if cl_modifier (compile_field X alt (field, v)) = Some [] then None else cl_modifier (compile_field X alt (field, v))) = m"
    by (simp_all add: compile_field_def mf pm)
  show ?case
  proof (cases "match_field X document mapped fallback base m (transformed X tr v)")
    case (Inl e)
    then show ?thesis by (simp add: item mf pm f m match_field_flatten Let_def)
  next
    case (Inr hit)
    show ?thesis
    proof (cases hit)
      case None
      then show ?thesis using Inr Cons.prems by (simp add: item mf pm f m match_field_flatten Let_def verdict_def)
    next
      case (Some h)
      obtain mp av q where h: "h = (mp, av, q)" by (cases h)
      show ?thesis using Inr Some h Cons.prems Cons.IH[of "(True, x, snd (snd a) @ q)" "(True, y, snd (snd b) @ q)" for x y]
        by (simp add: item mf pm f m match_field_flatten Let_def verdict_def)
    qed
  qed
qed (simp add: verdict_def)

lemma match_alternatives_verdict:
  assumes "list_all2 (\<lambda>x y. same_verdict (f x) (g y)) xs ys"
  shows "same_verdict (match_alternatives f xs q) (match_alternatives g ys q)"
  using assms
proof (induction arbitrary: q rule: list_all2_induct)
  case (Cons x xs y ys)
  from Cons(1) show ?case by (cases rule: same_verdict_cases) (use Cons.IH in \<open>auto simp: verdict_def\<close>)
qed simp

lemma match_alternatives_single: "same_verdict (match_alternatives f [x] []) (f x)"
  by (cases "f x") (auto simp: verdict_def)

lemma clause_groups_one: "cs \<noteq> [] \<Longrightarrow> \<forall>c \<in> set cs. cl_alternative c = a \<Longrightarrow> clause_groups cs = [cs]"
proof -
  assume n: "cs \<noteq> []" and a: "\<forall>c \<in> set cs. cl_alternative c = a"
  then have "set (map cl_alternative cs) = {a}" by (cases cs) auto
  then have "first_seen (map cl_alternative cs) = [a]" using n by (intro first_seen_same) auto
  then show ?thesis using n a by (simp add: clause_groups_def)
qed

lemma clause_groups_blocks:
  assumes "blocks \<noteq> []" "\<forall>b \<in> set blocks. b \<noteq> []"
  shows "clause_groups (concat (map (\<lambda>(i, b). map (compile_field X (Some i)) b) (zip [0..<length blocks] blocks)))
    = map (\<lambda>(i, b). map (compile_field X (Some i)) b) (zip [0..<length blocks] blocks)"
proof -
  define gs where "gs = map (\<lambda>(i, b). (Some i, map (compile_field X (Some i)) b)) (zip [0..<length blocks] blocks)"
  have alt: "cl_alternative (compile_field X a item) = a" for a item
    by (simp add: compile_field_def case_prod_unfold Let_def)
  have "map fst gs = map Some [0..<length blocks]"
    by (simp add: gs_def case_prod_unfold comp_def flip: map_map[of Some fst, unfolded comp_def])
  then have d: "distinct (map fst gs)" by (simp add: distinct_map)
  have k: "\<forall>g \<in> set gs. snd g \<noteq> [] \<and> (\<forall>c \<in> set (snd g). cl_alternative c = fst g)"
    using assms(2) by (auto simp: gs_def alt dest: set_zip_rightD)
  have s: "map snd gs = map (\<lambda>(i, b). map (compile_field X (Some i)) b) (zip [0..<length blocks] blocks)"
    by (simp add: gs_def case_prod_unfold)
  have "gs \<noteq> []" using assms(1) by (simp add: gs_def)
  then have "concat (map snd gs) \<noteq> []" using k by (cases gs) auto
  then show ?thesis unfolding s[symmetric] clause_groups_def using groups_by_key[OF d k] by (simp only: if_False)
qed

lemma compile_field_alternative: "cl_alternative (compile_field X a item) = a"
  by (simp add: compile_field_def case_prod_unfold Let_def)

lemma match_compiled_one:
  "same_verdict (match_compiled_selection X document (compile_blocks X [d])) (match_block X document d [] [])"
proof -
  have c: "compile_blocks X [d] = map (compile_field X None) d" by (simp add: compile_blocks_def)
  have g: "clause_groups (map (compile_field X None) d) = [map (compile_field X None) d]"
    by (cases "d = []") (simp_all add: clause_groups_def[of "[]"] clause_groups_one[of _ None] compile_field_alternative)
  have "same_verdict (match_compiled_clauses X document (map (compile_field X None) d) [] []) (match_block X document d [] [])"
    using match_compiled_block[of "(True, [], [])" "(True, [], [])"] by simp
  then show ?thesis unfolding match_compiled_selection_def c g using match_alternatives_single by metis
qed

lemma match_compiled_blocks:
  assumes "blocks \<noteq> []" "\<forall>b \<in> set blocks. b \<noteq> []"
  shows "same_verdict (match_compiled_selection X document (compile_blocks X blocks))
    (match_alternatives (\<lambda>block. match_block X document block [] []) blocks [])"
proof (cases "length blocks > 1")
  case True
  have "list_all2 (\<lambda>x y. same_verdict (match_compiled_clauses X document x [] []) (match_block X document y [] []))
      (map (\<lambda>(i, b). map (compile_field X (Some i)) b) (zip [0..<length blocks] blocks)) blocks"
    using match_compiled_block[of "(True, [], [])" "(True, [], [])"] by (auto simp: list_all2_conv_all_nth)
  then show ?thesis using True match_alternatives_verdict
    by (simp add: match_compiled_selection_def compile_blocks_def clause_groups_blocks[OF assms])
next
  case False
  then obtain d where "blocks = [d]" using assms(1) by (cases blocks; cases "tl blocks") auto
  then show ?thesis using match_compiled_one[of X document d] match_alternatives_single[of "\<lambda>block. match_block X document block [] []" d] by simp
qed

lemma match_compiled_keyword:
  assumes "is_keyword_selection selection" "compile_selection X True selection = Some cs"
  shows "same_verdict (match_compiled_selection X document cs) (match_selection X name selection document True)"
proof -
  obtain c where c: "cs = [c]" "cl_mapped_fields c = fst (mapped_sigma_fields KEYWORD_PSEUDO_FIELD)" "cl_modifier c = Some ''keyword''"
    "cl_expected c = map JStr (keyword_values X selection)" "\<not> cl_used_fallback c" "cl_base_field c = KEYWORD_PSEUDO_FIELD"
    using assms by (auto simp: compile_selection_def)
  have g: "clause_groups cs = [cs]" using c(1) by (simp add: clause_groups_one[of _ "cl_alternative c"])
  have b: "match_basename_alternate X document KEYWORD_PSEUDO_FIELD m e = Inr None" for m and e :: "'a json"
    by (simp add: match_basename_alternate_def basename_alternates_def BASENAME_ALTERNATE_FIELDS_def KEYWORD_PSEUDO_FIELD_def)
  have "same_verdict (match_compiled_clauses X document [c] [] []) (match_selection X name selection document True)"
    using assms(1) c
    by (cases "first_mapped_match X document (JList (map JStr (keyword_values X selection))) (Some ''keyword'') (fst (mapped_sigma_fields KEYWORD_PSEUDO_FIELD))")
      (auto simp: Let_def match_field_def match_selection_def b verdict_def split: option.split)
  then show ?thesis unfolding match_compiled_selection_def g unfolding c(1) using match_alternatives_single by metis
qed

lemma match_compiled_selection_verdict:
  assumes "compile_selection X keywords_enabled selection = Some cs"
  shows "same_verdict (match_compiled_selection X document cs) (match_selection X name selection document keywords_enabled)"
proof (cases "keywords_enabled \<and> is_keyword_selection selection")
  case True
  then show ?thesis using match_compiled_keyword[of selection X cs document name] assms by simp
next
  case nk: False
  consider d where "selection = JObj d" | "is_map_list_selection selection" "\<forall>d. selection \<noteq> JObj d"
    using assms nk by (auto simp: compile_selection_def split: json.splits if_splits)
  then show ?thesis
  proof cases
    case (1 d)
    then have "cs = compile_blocks X [d]" "match_selection X name selection document keywords_enabled = match_block X document d [] []"
      using assms nk by (auto simp: compile_selection_def match_selection_def is_map_list_selection_def is_keyword_selection_def)
    then show ?thesis using match_compiled_one by simp
  next
    case 2
    then have "iter_selection_blocks selection \<noteq> []" "\<forall>b \<in> set (iter_selection_blocks selection). b \<noteq> []"
      by (auto simp: is_map_list_selection_def iter_selection_blocks_def list_all_iff neq_Nil_conv split: json.splits)
    moreover have "cs = compile_blocks X (iter_selection_blocks selection)"
      using assms nk 2 by (auto simp: compile_selection_def split: json.splits if_splits)
    moreover have "match_selection X name selection document keywords_enabled
        = match_alternatives (\<lambda>block. match_block X document block [] []) (iter_selection_blocks selection) []"
      using nk 2(1) by (simp add: match_selection_def if_not_P)
    ultimately show ?thesis using match_compiled_blocks by simp
  qed
qed

end
