(* ===== verification/Sigma_Properties.thy ===== *)
theory Sigma_Properties
  imports Sigma_Compiled
begin

section \<open>Sigma rules: properties\<close>

text \<open>
  What a rule decides about a document: the meaning of its condition, of quantified terms,
  the agreement of the compiled rule, and what the keyword query leaves out.
\<close>

subsection \<open>Rules that compile\<close>

lemma sub_terms_reasons:
  "sub_terms blocks b s st = Inl (reason, st') \<Longrightarrow> reason \<in> {''unsupported_condition_empty_selector'', ''expanded_condition_too_large''}"
proof (induction blocks b s st rule: sub_terms.induct)
  case (2 blocks b c cs st)
  show ?case
  proof (cases "if b then expansion_at (c # cs) else None")
    case None
    then show ?thesis using 2(1)[OF None] 2(3) by (auto simp: res_simps)
  next
    case (Some r)
    obtain q sel rest where r: "r = (q, sel, rest)" by (cases r)
    have "reason \<in> {''unsupported_condition_empty_selector'', ''expanded_condition_too_large''}"
      if "replace_match blocks q sel st = Inl (reason, st')"
      using that by (auto simp: replace_match_def Let_def split: if_splits)
    then show ?thesis using 2(2)[OF Some r[symmetric] refl _ refl] Some r 2(3) by (auto simp: res_simps)
  qed
qed simp

lemma expand_loop_reasons:
  "expand_loop blocks n s st = Inl (reason, st') \<Longrightarrow> reason \<in> {''unsupported_condition_empty_selector'', ''expanded_condition_too_large''}"
  by (induction blocks n s st rule: expand_loop.induct)
    (auto split: sum.splits prod.splits if_splits dest: sub_terms_reasons)

lemma unsupported_reason: "\<not> exp_supported (expand_condition blocks s) \<Longrightarrow> exp_reason (expand_condition blocks s) \<noteq> EXECUTABLE"
  by (auto simp: expand_condition_def expansion_of_def EXECUTABLE_def dest!: expand_loop_reasons split: if_splits sum.splits prod.splits)

lemma executable_supported:
  assumes "primary_status (analyze_sigma_engine_compatibility X rule) = EXECUTABLE"
  shows "exp_supported (expand_sigma_condition_terms X rule)"
proof (rule ccontr)
  assume "\<not> exp_supported (expand_sigma_condition_terms X rule)"
  moreover from this have "exp_reason (expand_sigma_condition_terms X rule) \<noteq> EXECUTABLE"
    using unsupported_reason unfolding expand_sigma_condition_terms_def by blast
  ultimately have "primary_status (check_condition X rule st) \<noteq> EXECUTABLE" for st
    by (auto simp: check_condition_def Let_def set_status_def split: prod.split option.split bool.split)
  then show False using assms by (simp add: analyze_sigma_engine_compatibility_def)
qed

lemma evaluated_tokens:
  "tokenize_condition (evaluated_condition X rule) = tokenize_condition (cr_expanded_condition (compile_sigma_rule X rule))"
proof -
  have "cr_expanded_condition (compile_sigma_rule X rule)
      = (let e = expanded_condition (expand_sigma_condition_terms X rule) in if e \<noteq> [] then e else rule_condition X rule)"
    by (simp add: compile_sigma_rule_def Let_def case_prod_unfold)
  then show ?thesis by (simp add: evaluated_condition_def Let_def rule_condition_def tokenize_strip)
qed

lemma compiled_ok:
  assumes "cr_compile_status (compile_sigma_rule X rule) = ''compiled''"
  shows "exp_supported (expand_sigma_condition_terms X rule)"
    and "cr_selections (compile_sigma_rule X rule) = compile_selections X rule"
    and "res_bind (tokenize_condition (evaluated_condition X rule)) to_rpn = Inr (cr_condition_rpn (compile_sigma_rule X rule))"
proof -
  define e where "e = cr_expanded_condition (compile_sigma_rule X rule)"
  have "primary_status (analyze_sigma_engine_compatibility X rule) = EXECUTABLE \<and> fst (sigma_condition_supported e)
    \<and> cr_selections (compile_sigma_rule X rule) = compile_selections X rule
    \<and> cr_condition_rpn (compile_sigma_rule X rule) = (case res_bind (tokenize_condition e) to_rpn of Inr r \<Rightarrow> r | Inl _ \<Rightarrow> [])"
    using assms by (auto simp: e_def compile_sigma_rule_def Let_def case_prod_unfold split: if_splits)
  note c = this
  show "exp_supported (expand_sigma_condition_terms X rule)" using c executable_supported by blast
  show "cr_selections (compile_sigma_rule X rule) = compile_selections X rule" using c by blast
  have "fst (sigma_condition_supported e)" using c by blast
  then obtain r where "res_bind (tokenize_condition e) to_rpn = Inr r"
    by (auto simp: sigma_condition_supported_def Let_def tokenize_strip split: if_splits sum.splits)
  then show "res_bind (tokenize_condition (evaluated_condition X rule)) to_rpn = Inr (cr_condition_rpn (compile_sigma_rule X rule))"
    using c by (simp add: evaluated_tokens flip: e_def)
qed

lemma detection_blocks_names: "map fst (detection_blocks rule) = filter (\<lambda>n. n \<noteq> ''condition'') (map fst (rule_detection rule))"
  by (simp add: detection_blocks_def filter_map comp_def case_prod_unfold)

lemma map_of_detection_blocks: "n \<noteq> ''condition'' \<Longrightarrow> map_of (detection_blocks rule) n = map_of (rule_detection rule) n"
proof -
  have "n \<noteq> ''condition'' \<Longrightarrow> map_of (filter (\<lambda>(name, _). name \<noteq> ''condition'') d) n = map_of d n" for d :: "(string \<times> 'a json) list"
    by (induction d) auto
  then show "n \<noteq> ''condition'' \<Longrightarrow> ?thesis" by (simp add: detection_blocks_def)
qed

lemma compile_selections_all:
  assumes "\<forall>b \<in> set (detection_blocks rule). compile_selection X (keywords_supported X rule) (snd b) \<noteq> None"
  shows "compile_selections X rule = map (\<lambda>(n, s). (n, the (compile_selection X (keywords_supported X rule) s))) (detection_blocks rule)"
proof -
  have "concat (map (\<lambda>(n, s). case f s of Some cs \<Rightarrow> [(n, cs)] | None \<Rightarrow> []) bs) = map (\<lambda>(n, s). (n, the (f s))) bs"
    if "\<forall>b \<in> set bs. f (snd b) \<noteq> None" for f :: "'a json \<Rightarrow> 'a clause list option" and bs :: "(string \<times> 'a json) list"
    using that by (induction bs) auto
  then show ?thesis using assms unfolding compile_selections_def by blast
qed

lemma compiled_outcome_verdict:
  assumes c: "cr_compile_status (compile_sigma_rule X rule) = ''compiled''"
    and all: "\<forall>b \<in> set (detection_blocks rule). compile_selection X (keywords_supported X rule) (snd b) \<noteq> None"
    and tokens: "\<forall>t \<in> set (cr_condition_rpn (compile_sigma_rule X rule)).
      t \<in> {''not'', ''and'', ''or''} \<or> CHR ''*'' \<in> set t \<or> t \<in> fst ` set (detection_blocks rule)"
  shows "same_verdict (compiled_outcome X (compile_sigma_rule X rule) document) (rule_outcome X rule document)"
proof -
  note sel = compiled_ok(2)[OF c] compile_selections_all[OF all]
  have k: "map fst (compile_selections X rule) = filter (\<lambda>n. n \<noteq> ''condition'') (map fst (rule_detection rule))"
    unfolding detection_blocks_names[symmetric] sel(2) by (induction "detection_blocks rule") auto
  have f: "filter (\<lambda>n. n \<noteq> c \<and> g n) (c # filter (\<lambda>n. n \<noteq> c) xs) = filter (\<lambda>n. n \<noteq> c \<and> g n) xs" for c :: string and g xs
    by simp
  have names: "expand_selection_tokens (''condition'' # map fst (compile_selections X rule)) t = expand_selection_tokens (map fst (rule_detection rule)) t" for t
    unfolding expand_selection_tokens_def k f ..
  have look: "same_verdict (match_compiled_selection X document (case map_of (compile_selections X rule) n of Some cs \<Rightarrow> cs | None \<Rightarrow> []))
      (match_selection X n (get_or_null (rule_detection rule) n) document (keywords_supported X rule))"
    if "n \<in> fst ` set (detection_blocks rule)" for n
  proof -
    have "map_of (detection_blocks rule) n \<noteq> None" unfolding map_of_eq_None_iff using that by simp
    then obtain s where s: "map_of (detection_blocks rule) n = Some s" by auto
    then have "(n, s) \<in> set (detection_blocks rule)" by (rule map_of_SomeD)
    then obtain cs where cs: "compile_selection X (keywords_supported X rule) s = Some cs" and n: "n \<noteq> ''condition''"
      using all by (auto simp: detection_blocks_def)
    have "map_of (compile_selections X rule) n = Some cs" using s cs by (simp add: sel(2) map_of_map)
    moreover have "get_or_null (rule_detection rule) n = s" using s map_of_detection_blocks[OF n, of rule] by (simp add: get_or_null_def)
    ultimately show ?thesis using match_compiled_selection_verdict[OF cs] by simp
  qed
  have used: "n \<in> fst ` set (detection_blocks rule)"
    if "t \<in> set (cr_condition_rpn (compile_sigma_rule X rule))" "t \<notin> {''not'', ''and'', ''or''}"
      "n \<in> set (expand_selection_tokens (''condition'' # map fst (compile_selections X rule)) t)" for t n
    using tokens[rule_format, OF that(1)] that(2,3) unfolding names
    by (auto simp: expand_selection_tokens_def detection_blocks_names simp flip: set_map split: if_splits)
  have "rule_outcome X rule document = eval_condition (expand_selection_tokens (map fst (rule_detection rule)))
      (\<lambda>name. match_selection X name (get_or_null (rule_detection rule) name) document (keywords_supported X rule)) (cr_condition_rpn (compile_sigma_rule X rule))"
    using compiled_ok(1,3)[OF c] by (cases "tokenize_condition (evaluated_condition X rule)") (simp_all add: rule_outcome_def)
  then show ?thesis unfolding compiled_outcome_def sel(1)
    by (simp only:) (intro eval_condition_verdict names look used)
qed

text \<open>What two evaluations have to agree on: the decision, the remarks, the reason a document was skipped and its source.\<close>

definition decision :: "'f sigma_result \<Rightarrow> bool \<times> string list \<times> string option \<times> (string \<times> 'f json) list" where
  "decision r = (sr_matched r, sr_data_quality r, sr_skip_reason r, sr_actual_event_source r)"

text \<open>C11: a rule that compiles decides alike compiled and interpreted. Where every selection has a form
  that is compiled and the condition names no selection the rule does not define, evaluating the
  compiled rule on any document raises the same exception as evaluating the rule, or gives the same
  decision, the same remarks on data quality and the same reason for skipping the document.
\<close>

theorem compiled_rule_equivalent:
  assumes "cr_compile_status (compile_sigma_rule X rule) = ''compiled''"
    and "\<forall>b \<in> set (detection_blocks rule). compile_selection X (keywords_supported X rule) (snd b) \<noteq> None"
    and "\<forall>t \<in> set (cr_condition_rpn (compile_sigma_rule X rule)).
      t \<in> {''not'', ''and'', ''or''} \<or> CHR ''*'' \<in> set t \<or> t \<in> fst ` set (detection_blocks rule)"
  shows "map_sum (\<lambda>e. e) decision (evaluate_compiled_sigma_rule X (compile_sigma_rule X rule) document)
    = map_sum (\<lambda>e. e) decision (evaluate_sigma_rule X rule document)"
proof -
  have l: "cr_logsource (compile_sigma_rule X rule) = rule_logsource rule"
    by (simp add: compile_sigma_rule_def Let_def case_prod_unfold)
  have v: "same_verdict (compiled_outcome X (compile_sigma_rule X rule) document) (rule_outcome X rule document)"
    by (rule compiled_outcome_verdict[OF assms])
  show ?thesis
    by (cases "document_matches_sigma_logsource X (rule_logsource rule) document"; cases "event_source_summary X document"; rule same_verdict_cases[OF v])
      (auto simp: evaluate_compiled_sigma_rule_def evaluate_sigma_rule_def l Let_def decision_def verdict_def split: prod.splits)
qed

subsection \<open>An example\<close>

definition sample_ext :: "unit sigma_ext" where
  "sample_ext = \<lparr>sx_float_str = (\<lambda>_. ''0.0''), sx_container_str = (\<lambda>_. ''[]''), sx_float_zero = (\<lambda>_. True),
     sx_re_search = (\<lambda>p s. Some (py_in p s))\<rparr>"

definition sample_rule :: "string \<Rightarrow> unit sigma_rule" where
  "sample_rule condition = \<lparr>rule_logsource = [],
     rule_detection = [(''sel_a'', JObj [(''CommandLine|contains'', JStr ''whoami'')]),
       (''sel_b'', JList [JObj [(''Image|endswith'', JStr ''/bash'')], JObj [(''User'', JStr ''root'')]]),
       (''condition'', JStr condition)]\<rparr>"

definition sample_document :: "unit json" where
  "sample_document = JObj [(''process'', JObj [(''command_line'', JStr ''sh -c WHOAMI''), (''name'', JStr ''dash'')])]"

lemma sample_compiles:
  "cr_compile_status (compile_sigma_rule sample_ext (sample_rule ''1 of sel_*'')) = ''compiled''"
  "cr_condition_rpn (compile_sigma_rule sample_ext (sample_rule ''1 of sel_*'')) = [''sel_a'', ''sel_b'', ''or'']"
  by code_simp+

theorem compiled_rule_equivalent_witness:
  "map_sum (\<lambda>e. e) decision (evaluate_compiled_sigma_rule sample_ext (compile_sigma_rule sample_ext (sample_rule ''1 of sel_*'')) sample_document)
    = map_sum (\<lambda>e. e) decision (evaluate_sigma_rule sample_ext (sample_rule ''1 of sel_*'') sample_document)"
proof (rule compiled_rule_equivalent)
  show "cr_compile_status (compile_sigma_rule sample_ext (sample_rule ''1 of sel_*'')) = ''compiled''" by (rule sample_compiles)
  show "\<forall>b \<in> set (detection_blocks (sample_rule ''1 of sel_*'')). compile_selection sample_ext (keywords_supported sample_ext (sample_rule ''1 of sel_*'')) (snd b) \<noteq> None"
    by (simp add: detection_blocks_def sample_rule_def compile_selection_def is_keyword_selection_def is_map_list_selection_def)
  show "\<forall>t \<in> set (cr_condition_rpn (compile_sigma_rule sample_ext (sample_rule ''1 of sel_*''))).
      t \<in> {''not'', ''and'', ''or''} \<or> CHR ''*'' \<in> set t \<or> t \<in> fst ` set (detection_blocks (sample_rule ''1 of sel_*''))"
    unfolding sample_compiles by (simp add: detection_blocks_def sample_rule_def)
qed

subsection \<open>Conditions\<close>

text \<open>The selections of a rule as its condition sees them.\<close>

abbreviation rule_names :: "'f sigma_rule \<Rightarrow> string \<Rightarrow> string list" where
  "rule_names rule \<equiv> expand_selection_tokens (map fst (rule_detection rule))"

abbreviation rule_look :: "'f sigma_ext \<Rightarrow> 'f sigma_rule \<Rightarrow> 'f json \<Rightarrow> string \<Rightarrow> sigma_error + 'f field_match outcome" where
  "rule_look X rule document name \<equiv> match_selection X name (get_or_null (rule_detection rule) name) document (keywords_supported X rule)"

lemma rule_outcome_tree:
  assumes "exp_supported (expand_sigma_condition_terms X rule)"
    and "tokenize_condition (evaluated_condition X rule) = Inr (ctokens t)" "ctree_wf t"
    and "defined_selections (rule_names rule) (rule_look X rule document) out t"
  obtains r where "rule_outcome X rule document = Inr r" "fst r = truth (rule_names rule) out t"
proof -
  obtain r where "res_bind (to_rpn (ctokens t)) (eval_condition (rule_names rule) (rule_look X rule document)) = Inr r"
    "fst r = truth (rule_names rule) out t"
    by (rule eval_condition_tree[OF assms(3,4)])
  then show thesis using that[of r] assms(1,2) by (simp add: rule_outcome_def)
qed

lemma evaluate_outcome:
  assumes "document_matches_sigma_logsource X (rule_logsource rule) document = Inr (True, skip)" "event_source_summary X document = Inr source"
    and "rule_outcome X rule document = Inr r"
  obtains res where "evaluate_sigma_rule X rule document = Inr res" "sr_matched res = fst r"
  using assms by (cases r) (auto simp: evaluate_sigma_rule_def)

text \<open>C12: the meaning of a condition. Whenever the expanded condition is written from a tree of the
  grammar (or binds weaker than and, and binds weaker than not, parentheses anywhere) and the
  selections it names can be tested, a document of the rule's log source is matched exactly when
  the tree is true, a name being true when one of the selections it stands for matches.
\<close>

theorem sigma_condition_meaning:
  assumes "document_matches_sigma_logsource X (rule_logsource rule) document = Inr (True, skip)"
    and "event_source_summary X document = Inr source"
    and "exp_supported (expand_sigma_condition_terms X rule)"
    and "tokenize_condition (evaluated_condition X rule) = Inr (ctokens t)" "ctree_wf t"
    and "\<forall>n \<in> selections_of t. rule_names rule n \<noteq> [] \<and> (\<forall>m \<in> set (rule_names rule n). rule_look X rule document m = Inr (out m))"
  shows "\<exists>res. evaluate_sigma_rule X rule document = Inr res
    \<and> sr_matched res = holds (\<lambda>n. \<exists>m \<in> set (rule_names rule n). fst (out m)) t"
proof -
  have "defined_selections (rule_names rule) (rule_look X rule document) out t" using assms(6) by (simp add: defined_selections_def)
  then obtain r where r: "rule_outcome X rule document = Inr r" "fst r = truth (rule_names rule) out t"
    by (rule rule_outcome_tree[OF assms(3-5)])
  obtain res where "evaluate_sigma_rule X rule document = Inr res" "sr_matched res = fst r"
    by (rule evaluate_outcome[OF assms(1,2) r(1)])
  then show ?thesis using r(2) by (intro exI[of _ res]) simp
qed

text \<open>C13: the meaning of a quantified condition. A rule whose condition is '1 of' or 'all of' a selector
  matches a document of its log source exactly when one, or each, of the selections the selector
  stands for matches; there are at most a hundred of them, and their names are words that the
  condition language does not use.
\<close>

theorem sigma_quantifier_meaning:
  assumes "document_matches_sigma_logsource X (rule_logsource rule) document = Inr (True, skip)"
    and "event_source_summary X document = Inr source"
    and "rule_condition X rule = q @ '' of '' @ selector" "q \<in> {''1'', ''all''}" "selector_text selector"
    and "names = term_names (sigma_detection_block_names X rule) selector" "names \<noteq> []" "length names \<le> 100"
    and "\<forall>n \<in> set names. clear_name n \<and> rule_look X rule document n = Inr (out n)"
  shows "\<exists>res. evaluate_sigma_rule X rule document = Inr res
    \<and> sr_matched res = (if q = ''1'' then \<exists>n \<in> set names. fst (out n) else \<forall>n \<in> set names. fst (out n))"
proof -
  have clear: "\<forall>n \<in> set names. clear_name n" using assms(9) by blast
  note e = expand_term[OF assms(5,4,6,7,8) clear]
  obtain n ns where n: "names = n # ns" using assms(7) by (cases names) auto
  define t where "t = (if length names > 1 then TParen (quant_tree q n ns) else quant_tree q n ns)"
  have "ctree_wf (quant_tree q n ns)" using clear clear_selection n by (intro quant_tree_wf) auto
  then have tree: "ctree_wf t" "selections_of t = set names" "holds v t = holds v (quant_tree q n ns)" for v
    unfolding t_def by (cases "length names > 1"; simp add: selections_quant_tree flip: n)+
  have expansion: "evaluated_condition X rule = quant_text q names"
    using e(2) tokenize_quant_text[OF n clear, of q]
    by (auto simp: evaluated_condition_def Let_def expand_sigma_condition_terms_def assms(3) tokenize_condition_def)
  have one: "rule_names rule m = [m]" if "m \<in> set names" for m
    using clear that by (auto simp: expand_selection_tokens_def clear_name_def plain_name_def list_all_iff)
  have d: "defined_selections (rule_names rule) (rule_look X rule document) out t"
    using one assms(9) by (simp add: defined_selections_def tree(2))
  have supported: "exp_supported (expand_sigma_condition_terms X rule)" using e(1) by (simp add: expand_sigma_condition_terms_def assms(3))
  have toks: "tokenize_condition (evaluated_condition X rule) = Inr (ctokens t)" using tokenize_quant_text[OF n clear, of q] by (simp add: expansion t_def)
  obtain r where r: "rule_outcome X rule document = Inr r" "fst r = truth (rule_names rule) out t"
    by (rule rule_outcome_tree[OF supported toks tree(1) d])
  have "truth (rule_names rule) out t = (if q = ''1'' then \<exists>n \<in> set names. fst (out n) else \<forall>n \<in> set names. fst (out n))"
    using one n by (auto simp: tree(3) holds_quant_tree)
  moreover obtain res where "evaluate_sigma_rule X rule document = Inr res" "sr_matched res = fst r"
    by (rule evaluate_outcome[OF assms(1,2) r(1)])
  ultimately show ?thesis using r(2) by (intro exI[of _ res]) simp
qed

subsection \<open>The example's conditions\<close>

definition sample_out :: "string \<Rightarrow> unit field_match outcome" where
  "sample_out n = (case rule_look sample_ext (sample_rule []) sample_document n of Inr r \<Rightarrow> r | Inl _ \<Rightarrow> (False, [], []))"

lemma sample_source:
  "document_matches_sigma_logsource sample_ext (rule_logsource (sample_rule c)) sample_document = Inr (True, None)"
  "\<exists>source. event_source_summary sample_ext sample_document = Inr source"
proof -
  have "document_matches_sigma_logsource sample_ext [] sample_document = Inr (True, None)" by code_simp
  then show "document_matches_sigma_logsource sample_ext (rule_logsource (sample_rule c)) sample_document = Inr (True, None)"
    by (simp add: sample_rule_def)
  have "\<not> isl (event_source_summary sample_ext sample_document)" by code_simp
  then show "\<exists>source. event_source_summary sample_ext sample_document = Inr source"
    by (cases "event_source_summary sample_ext sample_document") auto
qed

lemma sample_look:
  assumes "n \<in> {''sel_a'', ''sel_b''}"
  shows "rule_look sample_ext (sample_rule c) sample_document n = Inr (sample_out n)"
proof -
  have "\<not> isl (rule_look sample_ext (sample_rule []) sample_document ''sel_a'')" by code_simp
  moreover have "\<not> isl (rule_look sample_ext (sample_rule []) sample_document ''sel_b'')" by code_simp
  ultimately have "\<not> isl (rule_look sample_ext (sample_rule []) sample_document n)" using assms by auto
  moreover have "rule_look sample_ext (sample_rule c) sample_document n = rule_look sample_ext (sample_rule []) sample_document n"
    using assms by (auto simp: sample_rule_def get_or_null_def keywords_supported_def)
  ultimately show ?thesis by (auto simp: sample_out_def split: sum.split)
qed

theorem sigma_condition_meaning_witness:
  "\<exists>res. evaluate_sigma_rule sample_ext (sample_rule ''sel_a and not sel_b'') sample_document = Inr res
    \<and> sr_matched res = holds (\<lambda>n. \<exists>m \<in> set (rule_names (sample_rule ''sel_a and not sel_b'') n). fst (sample_out m))
        (TAnd (TSel ''sel_a'') (TNot (TSel ''sel_b'')))"
proof -
  obtain source where source: "event_source_summary sample_ext sample_document = Inr source" using sample_source(2) by blast
  have e: "exp_supported (expand_sigma_condition_terms sample_ext (sample_rule ''sel_a and not sel_b''))" by code_simp
  have t: "tokenize_condition (evaluated_condition sample_ext (sample_rule ''sel_a and not sel_b''))
      = Inr (ctokens (TAnd (TSel ''sel_a'') (TNot (TSel ''sel_b''))))" by code_simp
  show ?thesis
    by (rule sigma_condition_meaning[OF sample_source(1) source e t])
      (simp_all add: selection_token_def OPERATOR_TOKENS_def expand_selection_tokens_def sample_look)
qed

theorem sigma_quantifier_meaning_witness:
  "\<exists>res. evaluate_sigma_rule sample_ext (sample_rule ''all of sel_*'') sample_document = Inr res
    \<and> sr_matched res = (if ''all'' = ''1'' then \<exists>n \<in> set [''sel_a'', ''sel_b'']. fst (sample_out n) else \<forall>n \<in> set [''sel_a'', ''sel_b'']. fst (sample_out n))"
proof -
  obtain source where source: "event_source_summary sample_ext sample_document = Inr source" using sample_source(2) by blast
  have c: "rule_condition sample_ext (sample_rule ''all of sel_*'') = ''all'' @ '' of '' @ ''sel_*''" by code_simp
  have s: "selector_text ''sel_*''" by code_simp
  have n: "[''sel_a'', ''sel_b''] = term_names (sigma_detection_block_names sample_ext (sample_rule ''all of sel_*'')) ''sel_*''" by code_simp
  have "clear_name ''sel_a''" "clear_name ''sel_b''" by code_simp+
  then show ?thesis
    by (intro sigma_quantifier_meaning[OF sample_source(1) source c _ s n]) (simp_all add: sample_look)
qed

subsection \<open>Candidates of a keyword\<close>

lemma sublist_ConsI: "sublist xs ys \<Longrightarrow> sublist xs (y # ys)"
  by (simp add: sublist_Cons_right)

lemma sublist_prependI: "sublist xs ys \<Longrightarrow> sublist xs (ps @ ys)"
  by (rule sublist_order.order.trans) auto

lemma py_in_sublist: "py_in needle s = sublist needle s"
proof (induction s)
  case (Cons c s)
  have "take (length needle) (c # s) = needle \<longleftrightarrow> prefix needle (c # s)" by (metis append_eq_conv_conj prefix_def take_is_prefix)
  then show ?case using Cons by (simp add: sublist_Cons_right)
qed simp

lemma literal_segments_found:
  "kw_match ts s \<Longrightarrow> seg \<in> set (literal_segments cur ts) \<Longrightarrow> sublist (py_lower seg) (py_lower cur @ py_lower s)"
proof (induction ts s arbitrary: cur rule: kw_match.induct)
  case (3 c ts d ds)
  then show ?case using 3(1)[of "cur @ [c]"] by (simp add: py_lower_def)
next
  case (5 ts d ds)
  have "sublist (py_lower seg) (py_lower ds)" if "seg \<in> set (literal_segments [] ts)" using 5(1)[of "[]"] 5(2) that by (simp add: py_lower_def)
  then show ?case using 5(3) by (auto simp: py_lower_def intro: sublist_prependI sublist_ConsI split: if_splits)
next
  case (6 ts)
  have "sublist (py_lower seg) []" if "seg \<in> set (literal_segments [] ts)" using 6(1)[of "[]"] 6(2) that by (simp add: py_lower_def)
  then show ?case using 6(3) by (auto simp: py_lower_def intro: sublist_prependI split: if_splits)
next
  case (7 ts d ds)
  have "sublist (py_lower seg) (py_lower (d # ds))" if "seg \<in> set (literal_segments [] ts)"
    using 7(1)[of "[]"] 7(2)[of "[]"] 7(3) that by (auto simp: py_lower_def split: if_splits intro: sublist_ConsI)
  then show ?case using 7(4) by (auto simp: py_lower_def intro: sublist_prependI split: if_splits)
qed (auto simp: py_lower_def split: if_splits)

lemma char_runs_sublist: "r \<in> set (char_runs P s) \<Longrightarrow> sublist r s"
proof (induction P s rule: char_runs.induct)
  case (2 P c cs)
  show ?case
  proof (cases "P c")
    case True
    have "sublist (takeWhile P (c # cs)) (c # cs)" "suffix (dropWhile P cs) (c # cs)"
      by (auto simp: takeWhile_is_prefix suffix_dropWhile suffix_ConsI simp del: takeWhile.simps)
    then show ?thesis using 2 True by (auto simp del: takeWhile.simps intro: sublist_order.order.trans suffix_imp_sublist)
  next
    case False
    then show ?thesis using 2 by (auto intro: sublist_ConsI)
  qed
qed simp

lemma kw_search_found: "kw_search ts s \<Longrightarrow> seg \<in> set (literal_segments [] ts) \<Longrightarrow> sublist (py_lower seg) (py_lower s)"
proof (induction s)
  case (Cons c s)
  then show ?case using literal_segments_found[of ts "c # s" seg "[]"] by (auto simp: py_lower_def intro: sublist_ConsI)
qed (use literal_segments_found[of ts "[]" seg "[]"] in \<open>auto simp: py_lower_def\<close>)

text \<open>A text the keyword matches contains each of the runs that its candidate query asks for.\<close>

lemma keyword_runs_found:
  assumes "kw_search (keyword_tokens keyword) text" "run \<in> set (keyword_candidate_runs keyword)"
  shows "py_in run (py_lower text)"
proof -
  obtain r where r: "run = py_lower r" "r \<in> set (keyword_alnum_runs keyword)"
    using assms(2) by (auto simp: keyword_candidate_runs_def dest!: in_set_takeD)
  then obtain seg where "seg \<in> set (keyword_literal_segments keyword)" "sublist r seg"
    by (auto simp: keyword_alnum_runs_def dest: char_runs_sublist)
  then have "sublist (py_lower r) (py_lower seg)" "sublist (py_lower seg) (py_lower text)"
    using kw_search_found[OF assms(1)] by (auto simp: py_lower_def keyword_literal_segments_def intro: map_mono_sublist)
  then show ?thesis using r(1) by (simp add: py_in_sublist)
qed

end
