(* ===== verification/Sigma_Candidates.thy ===== *)
theory Sigma_Candidates
  imports Sigma_Properties
begin

section \<open>Sigma rules: candidate queries\<close>

text \<open>
  \<^verbatim>\<open>rules_engine/sigma.py\<close> and \<^verbatim>\<open>workers/tasks.py\<close>: the OpenSearch query whose hits a rule is
  evaluated on, and the scope filters of a scan. The body of a query is its \<^verbatim>\<open>bool\<close> dictionary;
  \<open>minimum_should_match\<close> is the number under that key, \<open>None\<close> when it is missing.
\<close>

datatype es_clause =
    CTerm string string
  | CTerms string "string list"
  | CTermsInt string "int list"
  | CPrefix string string
  | CWildcard string string
  | CRegexp string string
  | CInsensitive string string string
  | CExists string
  | CRange string "string option" "string option"
  | CAllOf "es_clause list"

record bool_query =
  bq_should :: "es_clause list"
  bq_filter :: "es_clause list"
  minimum_should_match :: "int option"

definition MAX_LINUX_CANDIDATE_CLAUSES :: nat where "MAX_LINUX_CANDIDATE_CLAUSES = 400"

definition escape_wildcard_backslash :: "string \<Rightarrow> string" where
  "escape_wildcard_backslash s = concat (map (\<lambda>c. if c = CHR 0x5C then [c, c] else [c]) s)"

definition linux_clause :: "string \<Rightarrow> string \<Rightarrow> string \<Rightarrow> es_clause" where
  "linux_clause kind field v = CInsensitive kind field (if kind = ''wildcard'' then escape_wildcard_backslash v else v)"

definition keyword_candidate_clause :: "string \<Rightarrow> es_clause" where
  "keyword_candidate_clause v = CAllOf (map (\<lambda>run. CInsensitive ''wildcard'' ''search_text'' (''*'' @ run @ ''*'')) (keyword_candidate_runs v))"

text \<open>The modifier without \<^verbatim>\<open>|all\<close>, and the clause of one field: for several values only \<^verbatim>\<open>terms\<close> lists them.\<close>

definition drop_all :: "string option \<Rightarrow> string option" where
  "drop_all modifier = map_option (\<lambda>m. if suffix ''|all'' m then take (length m - 4) m else m) modifier"

definition field_clauses :: "string option \<Rightarrow> string list \<Rightarrow> string \<Rightarrow> es_clause list" where
  "field_clauses modifier values field =
    (case modifier of
       None \<Rightarrow> (case values of [] \<Rightarrow> [] | [v] \<Rightarrow> [CTerm field v] | _ \<Rightarrow> [CTerms field values])
     | Some m \<Rightarrow> (case values of [] \<Rightarrow> [] | v # _ \<Rightarrow>
         if m = ''startswith'' then [CPrefix field v]
         else if m = ''endswith'' then [CWildcard field (CHR ''*'' # v)]
         else if m = ''contains'' then [CWildcard field (CHR ''*'' # v @ ''*'')]
         else if m = ''re'' then [CRegexp field v] else []))"

definition linux_field_clauses :: "string option \<Rightarrow> string list \<Rightarrow> string \<Rightarrow> es_clause list" where
  "linux_field_clauses modifier values field = concat (map (\<lambda>v. case modifier of
       None \<Rightarrow> [linux_clause ''term'' field v]
     | Some m \<Rightarrow>
         if m = ''startswith'' then [linux_clause ''prefix'' field v]
         else if m = ''endswith'' then [linux_clause ''wildcard'' field (CHR ''*'' # v)]
         else if m = ''contains'' then [linux_clause ''wildcard'' field (CHR ''*'' # v @ ''*'')]
         else if m = ''re'' then [linux_clause ''regexp'' field v] else []) values)"

definition build_sigma_query :: "'f sigma_ext \<Rightarrow> 'f sigma_rule \<Rightarrow> bool_query" where
  "build_sigma_query X rule =
    (let should = concat (map (\<lambda>(_, selection). concat (map (\<lambda>(field, expected).
           concat (map (field_clauses (drop_all (fst (snd (parse_field_modifiers field)))) (map (py_str X) (flatten_values expected)))
             (fst (mapped_sigma_fields field)))) (concat (iter_selection_blocks selection)))) (detection_blocks rule)) in
     \<lparr>bq_should = take 50 should, bq_filter = [], minimum_should_match = (if should \<noteq> [] then Some 1 else None)\<rparr>)"

text \<open>One compiled clause: what it adds to the general, keyword and Linux clauses.\<close>

record candidate_clauses =
  cc_should :: "es_clause list"
  cc_keyword :: "es_clause list"
  cc_linux :: "es_clause list"
  cc_linux_fields :: "string list"

definition linux_field :: "string \<Rightarrow> bool" where
  "linux_field field \<longleftrightarrow> prefix ''linux.'' field"

definition add_clause :: "'f sigma_ext \<Rightarrow> 'f clause \<Rightarrow> candidate_clauses \<Rightarrow> candidate_clauses" where
  "add_clause X c cc =
    (let modifier = drop_all (if cl_modifier c = Some [] then None else cl_modifier c); values = map (py_str X) (cl_expected c) in
     if modifier = Some ''keyword'' then cc\<lparr>cc_keyword := cc_keyword cc @ map keyword_candidate_clause values\<rparr>
     else let alternates = (case basename_alternates X (cl_base_field c) modifier (JList (map JStr values)) of
            Some (field, names) \<Rightarrow> map (CInsensitive ''term'' field) names | None \<Rightarrow> []);
          (linux, other) = partition linux_field (cl_mapped_fields c) in
       cc\<lparr>cc_should := cc_should cc @ alternates @ concat (map (field_clauses modifier values) other),
          cc_linux := cc_linux cc @ concat (map (linux_field_clauses modifier values) linux),
          cc_linux_fields := cc_linux_fields cc @ linux\<rparr>)"

definition candidate_clauses_of :: "'f sigma_ext \<Rightarrow> 'f compiled_rule \<Rightarrow> candidate_clauses" where
  "candidate_clauses_of X compiled = fold (add_clause X) (concat (map snd (cr_selections compiled)))
     \<lparr>cc_should = [], cc_keyword = [], cc_linux = [], cc_linux_fields = []\<rparr>"

definition build_sigma_query_from_compiled :: "'f sigma_ext \<Rightarrow> 'f compiled_rule \<Rightarrow> bool_query" where
  "build_sigma_query_from_compiled X compiled =
    (let cc = candidate_clauses_of X compiled;
         linux = (if length (cc_linux cc) > MAX_LINUX_CANDIDATE_CLAUSES then map CExists (sorted_distinct (cc_linux_fields cc)) else cc_linux cc);
         any = (cc_should cc \<noteq> [] \<or> cc_keyword cc \<noteq> [] \<or> linux \<noteq> []) in
     \<lparr>bq_should = (if any then take 50 (cc_should cc) @ cc_keyword cc @ linux else []), bq_filter = [],
      minimum_should_match = (if any then Some 1 else None)\<rparr>)"

subsection \<open>The query of a scan\<close>

record scan_scope =
  scope_host :: "string option"
  scope_time_from :: "string option"
  scope_time_to :: "string option"
  prefilter_artifact_types :: "string list"
  prefilter_event_ids :: "int list"
  prefilter_channels :: "string list"
  prefilter_field_exists :: "string list"

definition present :: "string option \<Rightarrow> string option" where
  "present v = (if v = Some [] then None else v)"

definition sigma_scope_filter_clauses :: "string \<Rightarrow> string option \<Rightarrow> scan_scope \<Rightarrow> es_clause list" where
  "sigma_scope_filter_clauses case_id evidence_id scope =
     [CTerm ''case_id'' case_id]
     @ (case present evidence_id of Some e \<Rightarrow> [CTerm ''evidence_id'' e] | None \<Rightarrow> [])
     @ (case present (scope_host scope) of Some h \<Rightarrow> [CTerm ''host.name'' h] | None \<Rightarrow> [])
     @ (if present (scope_time_from scope) = None \<and> present (scope_time_to scope) = None then []
        else [CRange ''@timestamp'' (present (scope_time_from scope)) (present (scope_time_to scope))])"

definition not_blank :: "string \<Rightarrow> bool" where
  "not_blank s \<longleftrightarrow> py_strip s \<noteq> []"

definition build_sigma_search_body :: "'f sigma_ext \<Rightarrow> string \<Rightarrow> string option \<Rightarrow> 'f sigma_rule \<Rightarrow> scan_scope \<Rightarrow> bool_query" where
  "build_sigma_search_body X case_id evidence_id rule scope =
    (let q = build_sigma_query X rule;
         types = filter not_blank (prefilter_artifact_types scope); ids = prefilter_event_ids scope;
         channels = filter not_blank (prefilter_channels scope); fields = filter not_blank (prefilter_field_exists scope);
         should = bq_should q @ map CExists (take 8 fields) in
     \<lparr>bq_should = should,
      bq_filter = sigma_scope_filter_clauses case_id evidence_id scope
        @ (if types \<noteq> [] then [CTerms ''artifact.type'' types] else [])
        @ (if ids \<noteq> [] then [CTermsInt ''windows.event_id'' ids] else [])
        @ (if channels \<noteq> [] then [CTerms ''windows.channel'' channels] else []),
      minimum_should_match = (if should \<noteq> [] then Some (max (case minimum_should_match q of Some n \<Rightarrow> n | None \<Rightarrow> 0) 1)
        else minimum_should_match q)\<rparr>)"

text \<open>The query that a scan of a Sigma rule runs; a rule that compiled replaces it as a whole.\<close>

definition sigma_scan_query :: "'f sigma_ext \<Rightarrow> string \<Rightarrow> string option \<Rightarrow> 'f sigma_rule \<Rightarrow> scan_scope \<Rightarrow> 'f compiled_rule option \<Rightarrow> bool_query" where
  "sigma_scan_query X case_id evidence_id rule scope compiled =
    (let body = build_sigma_search_body X case_id evidence_id rule scope in
     case compiled of Some c \<Rightarrow> build_sigma_query_from_compiled X c | None \<Rightarrow> body)"

subsection \<open>Keywords\<close>

lemma add_clause_keeps: "set (cc_keyword cc) \<subseteq> set (cc_keyword (fold (add_clause X) cs cc))"
  by (induction cs arbitrary: cc) (fastforce simp: add_clause_def Let_def case_prod_unfold)+

lemma keyword_clause_added:
  assumes "c \<in> set cs" "cl_modifier c = Some ''keyword''" "JStr kw \<in> set (cl_expected c)"
  shows "keyword_candidate_clause kw \<in> set (cc_keyword (fold (add_clause X) cs cc))"
proof -
  obtain xs ys where cs: "cs = xs @ c # ys" using split_list[OF assms(1)] by blast
  have "drop_all (Some ''keyword'') = Some ''keyword''" by code_simp
  then have "keyword_candidate_clause kw \<in> set (cc_keyword (add_clause X c d))" for d
    using assms(2,3) by (auto simp: add_clause_def Let_def intro!: image_eqI[where x = kw] dest: imageI[where f = "py_str X"])
  then show ?thesis using add_clause_keeps[of "add_clause X c (fold (add_clause X) xs cc)" X ys] by (auto simp: cs)
qed

text \<open>C14: the candidate query keeps every event a keyword matches. For each keyword of a compiled rule,
  however many there are, the query has a clause of its own, and a text the keyword matches,
  wildcards, escapes and letter case included, contains every run of characters that clause asks for.
\<close>

theorem keyword_candidates_kept:
  assumes "c \<in> set (concat (map snd (cr_selections compiled)))" "cl_modifier c = Some ''keyword''" "JStr keyword \<in> set (cl_expected c)"
    and "kw_search (keyword_tokens keyword) text"
  shows "\<exists>runs. CAllOf (map (\<lambda>run. CInsensitive ''wildcard'' ''search_text'' (''*'' @ run @ ''*'')) runs)
      \<in> set (bq_should (build_sigma_query_from_compiled X compiled))
    \<and> (\<forall>run \<in> set runs. py_in run (py_lower text))"
proof (intro exI[of _ "keyword_candidate_runs keyword"] conjI)
  have "keyword_candidate_clause keyword \<in> set (cc_keyword (candidate_clauses_of X compiled))"
    unfolding candidate_clauses_of_def by (rule keyword_clause_added[OF assms(1-3)])
  then show "CAllOf (map (\<lambda>run. CInsensitive ''wildcard'' ''search_text'' (''*'' @ run @ ''*'')) (keyword_candidate_runs keyword))
      \<in> set (bq_should (build_sigma_query_from_compiled X compiled))"
    unfolding keyword_candidate_clause_def[symmetric] build_sigma_query_from_compiled_def Let_def by auto
  show "\<forall>run \<in> set (keyword_candidate_runs keyword). py_in run (py_lower text)"
    using keyword_runs_found[OF assms(4)] by blast
qed

definition keyword_rule :: "unit sigma_rule" where
  "keyword_rule = \<lparr>rule_logsource = [(''product'', JStr ''linux'')],
     rule_detection = [(''keywords'', JList [JStr ''etc?passwd*nc'']), (''condition'', JStr ''keywords'')]\<rparr>"

theorem keyword_candidates_kept_witness:
  "\<exists>runs. CAllOf (map (\<lambda>run. CInsensitive ''wildcard'' ''search_text'' (''*'' @ run @ ''*'')) runs)
      \<in> set (bq_should (build_sigma_query_from_compiled sample_ext (compile_sigma_rule sample_ext keyword_rule)))
    \<and> (\<forall>run \<in> set runs. py_in run (py_lower ''cat /ETC/PASSWD | nc''))"
proof -
  define c where "c = hd (concat (map snd (cr_selections (compile_sigma_rule sample_ext keyword_rule))))"
  have "concat (map snd (cr_selections (compile_sigma_rule sample_ext keyword_rule))) \<noteq> []" by code_simp
  then have "c \<in> set (concat (map snd (cr_selections (compile_sigma_rule sample_ext keyword_rule))))" unfolding c_def by (rule hd_in_set)
  moreover have "cl_modifier c = Some ''keyword''" "cl_expected c = [JStr ''etc?passwd*nc'']" unfolding c_def by code_simp+
  moreover have "kw_search (keyword_tokens ''etc?passwd*nc'') ''cat /ETC/PASSWD | nc''" by code_simp
  ultimately show ?thesis using keyword_candidates_kept[of c "compile_sigma_rule sample_ext keyword_rule" "''etc?passwd*nc''"] by simp
qed

subsection \<open>Where the engine departs from its rules\<close>

text \<open>The scan of a compiled rule has no scope left: neither the case, nor the evidence, nor the host and the time.\<close>

lemma compiled_scan_unscoped: "bq_filter (sigma_scan_query X case_id evidence_id rule scope (Some compiled)) = []"
  by (simp add: sigma_scan_query_def build_sigma_query_from_compiled_def Let_def)

lemma interpreted_scan_scoped:
  "evidence_id = Some e \<Longrightarrow> e \<noteq> [] \<Longrightarrow> {CTerm ''case_id'' case_id, CTerm ''evidence_id'' e} \<subseteq> set (bq_filter (sigma_scan_query X case_id evidence_id rule scope None))"
  by (simp add: sigma_scan_query_def build_sigma_search_body_def sigma_scope_filter_clauses_def present_def Let_def)

text \<open>
  Two negations in a row are accepted when the rule is checked, and raise \<^verbatim>\<open>IndexError\<close> on every
  document: the first one is taken from the stack before its operand.
\<close>

lemma double_negation_rpn: "selection_token a \<Longrightarrow> to_rpn [''not'', ''not'', a] = Inr [''not'', a, ''not'']"
  by (auto simp: to_rpn_def binds_def selection_token_def OPERATOR_TOKENS_def precedence_def)

lemma double_negation_accepted: "sigma_condition_supported ''not not sel_a'' = (True, None)"
  by code_simp

lemma double_negation_raises: "eval_condition names look (''not'' # rpn) = Inl SigmaIndexError"
  by (simp add: eval_condition_def rpn_step_def rpn_not_def)

text \<open>A selection the rule does not define is false when the rule is interpreted and true when it is compiled.\<close>

lemma undefined_selection_interpreted:
  "map_of (rule_detection rule) n = None \<Longrightarrow> rule_look X rule document n = Inr (False, [], [n @ '' is not a valid mapping''])"
  by (simp add: get_or_null_def match_selection_def is_keyword_selection_def is_map_list_selection_def)

lemma undefined_selection_compiled: "match_compiled_selection X document [] = Inr (True, [], [])"
  by (simp add: match_compiled_selection_def clause_groups_def)

lemma undefined_selection_matches_everything:
  "cr_compile_status (compile_sigma_rule sample_ext (sample_rule ''sel_a or sel_c'')) = ''compiled''"
  "map_sum (\<lambda>e. e) sr_matched (evaluate_sigma_rule sample_ext (sample_rule ''sel_a or sel_c'') (JObj [])) = Inr False"
  "map_sum (\<lambda>e. e) sr_matched (evaluate_compiled_sigma_rule sample_ext (compile_sigma_rule sample_ext (sample_rule ''sel_a or sel_c'')) (JObj [])) = Inr True"
  by code_simp+

text \<open>Of several values of a field outside \<^verbatim>\<open>linux.\<close>, only the first is asked for.\<close>

lemma first_value_only: "field_clauses (Some m) (v # vs) field = field_clauses (Some m) [v] field"
  by (simp add: field_clauses_def)

text \<open>A rule that is true of a document without its selections asks only for documents with one of their clauses.\<close>

lemma negated_rule_without_candidates:
  "map_sum (\<lambda>e. e) sr_matched (evaluate_compiled_sigma_rule sample_ext (compile_sigma_rule sample_ext (sample_rule ''not sel_a'')) (JObj [])) = Inr True"
  "minimum_should_match (build_sigma_query_from_compiled sample_ext (compile_sigma_rule sample_ext (sample_rule ''not sel_a''))) = Some 1"
  by code_simp+

end
