(* ===== verification/Chunk_Staging.thy ===== *)
theory Chunk_Staging
  imports Python_Values "HOL-Library.Sublist"
begin

section \<open>Chunked uploads: staging and finalization\<close>

text \<open>
  \<^verbatim>\<open>services/upload_shared\<close>: the classification of a staging directory, the assembly of
  chunks, and the workflow-agnostic middle of a finalization, which calls back into the
  backend that owns the session. A directory is the dictionary of its regular files; SHA-256 is
  a parameter. Hooks act on a state and may raise.
\<close>

datatype upload_error =
    UploadSessionError string
  | RegistrationError string
  | FinalizeSizeMismatch int int
  | FinalizeHashMismatch string string
  | OsFileNotFound
  | OsFailure
  | ClientDisconnect
  | PyValueError

subsection \<open>Actions that change a state and may raise\<close>

type_synonym ('s, 'a) act = "'s \<Rightarrow> (upload_error + 'a) \<times> 's"

definition act_return :: "'a \<Rightarrow> ('s, 'a) act" where
  "act_return x s = (Inr x, s)"

definition act_raise :: "upload_error \<Rightarrow> ('s, 'a) act" where
  "act_raise e s = (Inl e, s)"

definition act_bind :: "('s, 'a) act \<Rightarrow> ('a \<Rightarrow> ('s, 'b) act) \<Rightarrow> ('s, 'b) act" where
  "act_bind m f s = (case m s of (Inl e, s') \<Rightarrow> (Inl e, s') | (Inr x, s') \<Rightarrow> f x s')"

definition act_seq :: "('s, 'a) act \<Rightarrow> ('s, 'b) act \<Rightarrow> ('s, 'b) act" where
  "act_seq m k = act_bind m (\<lambda>_. k)"

lemma act_bind_Inr: "act_bind m f s = (Inr y, s') \<longleftrightarrow> (\<exists>x t. m s = (Inr x, t) \<and> f x t = (Inr y, s'))"
  by (auto simp: act_bind_def split: prod.split sum.split)

lemma act_seq_Inr: "act_seq m k s = (Inr y, s') \<longleftrightarrow> (\<exists>x t. m s = (Inr x, t) \<and> k t = (Inr y, s'))"
  by (simp add: act_seq_def act_bind_Inr)

lemmas act_simps = act_bind_Inr act_seq_Inr

subsection \<open>Chunk files\<close>

type_synonym directory = "(string \<times> bytes) list"

record staging =
  session_root_exists :: bool
  chunks_dir :: "directory option"

text \<open>\<^verbatim>\<open>f"{chunk_index:08d}.chunk"\<close>.\<close>

definition padded :: "int \<Rightarrow> string" where
  "padded i = (let d = nat_digits (nat i) in replicate (8 - length d) (CHR ''0'') @ d)"

definition chunk_name :: "int \<Rightarrow> string" where
  "chunk_name i = padded i @ ''.chunk''"

definition disk_index :: "string \<Rightarrow> int option" where
  "disk_index name =
    (if suffix ''.part'' name \<or> \<not> suffix ''.chunk'' name then None else py_int (hd (py_split (CHR ''.'') name)))"

record chunk_meta =
  meta_size :: int
  meta_sha256 :: string

record integrity =
  integrity_status :: string
  resumable :: bool
  repairable :: bool
  disk_chunks :: nat
  missing_db_chunks_on_disk :: "int list"
  extra_disk_chunks :: "int list"
  size_mismatches :: "int list"
  hash_mismatches :: "int list"

definition STAGING_HEALTHY :: string where "STAGING_HEALTHY = ''healthy''"
definition STAGING_MISSING :: string where "STAGING_MISSING = ''staging_missing''"
definition MISSING_CHUNKS :: string where "MISSING_CHUNKS = ''missing_chunks_on_disk''"
definition EXTRA_CHUNKS :: string where "EXTRA_CHUNKS = ''extra_chunks_on_disk''"
definition SIZE_MISMATCH :: string where "SIZE_MISMATCH = ''size_mismatch''"
definition HASH_MISMATCH :: string where "HASH_MISMATCH = ''hash_mismatch''"

lemmas staging_status_defs = STAGING_HEALTHY_def STAGING_MISSING_def MISSING_CHUNKS_def EXTRA_CHUNKS_def SIZE_MISMATCH_def HASH_MISMATCH_def

definition wrong_size :: "directory \<Rightarrow> int \<times> chunk_meta \<Rightarrow> bool" where
  "wrong_size dir im = (case map_of dir (chunk_name (fst im)) of
     Some content \<Rightarrow> meta_size (snd im) \<noteq> 0 \<and> int (length content) \<noteq> meta_size (snd im) | None \<Rightarrow> False)"

definition wrong_hash :: "(bytes \<Rightarrow> string) \<Rightarrow> directory \<Rightarrow> int \<times> chunk_meta \<Rightarrow> bool" where
  "wrong_hash sha dir im = (case map_of dir (chunk_name (fst im)) of
     Some content \<Rightarrow> \<not> wrong_size dir im \<and> meta_sha256 (snd im) \<noteq> [] \<and> sha content \<noteq> meta_sha256 (snd im) | None \<Rightarrow> False)"

definition classify_dir :: "(bytes \<Rightarrow> string) \<Rightarrow> directory \<Rightarrow> (int \<times> chunk_meta) list \<Rightarrow> bool \<Rightarrow> integrity" where
  "classify_dir sha dir chunk_metadata verify_hashes =
    (let db = sort_key fst chunk_metadata;
         disk_indices = sort (List.map_filter disk_index (map fst dir));
         missing = map fst (filter (\<lambda>im. map_of dir (chunk_name (fst im)) = None) db);
         sizes = map fst (filter (wrong_size dir) db);
         hashes = (if verify_hashes then map fst (filter (wrong_hash sha dir) db) else []);
         extra = sort (remdups (filter (\<lambda>i. i \<notin> fst ` set db) disk_indices));
         (status, ok) = (if missing \<noteq> [] then (MISSING_CHUNKS, False) else if sizes \<noteq> [] then (SIZE_MISMATCH, False)
           else if hashes \<noteq> [] then (HASH_MISMATCH, False) else if extra \<noteq> [] then (EXTRA_CHUNKS, True) else (STAGING_HEALTHY, True)) in
     \<lparr>integrity_status = status, resumable = ok, repairable = ok, disk_chunks = length disk_indices, missing_db_chunks_on_disk = missing,
      extra_disk_chunks = extra, size_mismatches = sizes, hash_mismatches = hashes\<rparr>)"

definition staging_missing :: "int list \<Rightarrow> integrity" where
  "staging_missing missing = \<lparr>integrity_status = STAGING_MISSING, resumable = False, repairable = False, disk_chunks = 0,
     missing_db_chunks_on_disk = missing, extra_disk_chunks = [], size_mismatches = [], hash_mismatches = []\<rparr>"

definition classify_chunk_staging :: "(bytes \<Rightarrow> string) \<Rightarrow> staging \<Rightarrow> (int \<times> chunk_meta) list \<Rightarrow> bool \<Rightarrow> integrity" where
  "classify_chunk_staging sha st chunk_metadata verify_hashes =
    (if \<not> session_root_exists st then staging_missing []
     else case chunks_dir st of
       None \<Rightarrow> staging_missing (sort (map fst chunk_metadata))
     | Some dir \<Rightarrow> classify_dir sha dir chunk_metadata verify_hashes)"

subsection \<open>Names of chunk files\<close>

lemma digits_val_zeros: "digits_val (replicate k (CHR ''0'') @ ds) = digits_val ds"
  by (induction k) (simp_all add: digits_val_def digit_val_def)

lemma padded_digits: "\<forall>c \<in> set (padded i). ascii_digit c" "padded i \<noteq> []"
  using nat_digits_ascii[of "nat i"] by (auto simp: padded_def Let_def ascii_digit_def)

lemma numeral_digits_ascii: "\<forall>c \<in> set ds. ascii_digit c \<Longrightarrow> b \<or> ds \<noteq> [] \<Longrightarrow> numeral_digits b ds = Some ds"
  by (induction ds arbitrary: b) auto

lemma py_strip_digits: "\<forall>c \<in> set ds. ascii_digit c \<Longrightarrow> py_strip ds = ds"
proof -
  assume a: "\<forall>c \<in> set ds. ascii_digit c"
  have d: "dropWhile py_isspace xs = xs" if "\<forall>c \<in> set xs. ascii_digit c" for xs
    using that ascii_digit_not_space by (cases xs) auto
  show ?thesis using d[of ds] d[of "rev ds"] a by (simp add: py_strip_def py_rstrip_def)
qed

lemma py_int_padded:
  assumes "0 \<le> i" "length (padded i) \<le> 4300"
  shows "py_int (padded i) = Some i"
proof -
  have "hd (padded i) \<noteq> CHR ''-''" "hd (padded i) \<noteq> CHR ''+''"
    using padded_digits(1)[of i] hd_in_set[OF padded_digits(2)[of i]] by (auto simp: ascii_digit_def dest!: bspec)
  moreover have "digits_val (padded i) = i" using assms(1) by (simp add: padded_def Let_def digits_val_zeros digits_val_nat_digits)
  ultimately show ?thesis using padded_digits[of i] assms(2)
    by (simp add: py_int_def Let_def py_strip_digits numeral_digits_ascii)
qed

lemma py_split_digits: "\<forall>c \<in> set ds. ascii_digit c \<Longrightarrow> hd (py_split (CHR ''.'') (ds @ CHR ''.'' # rest)) = ds"
proof (induction ds)
  case (Cons c ds)
  then have "hd (py_split (CHR ''.'') (ds @ CHR ''.'' # rest)) = ds" "c \<noteq> CHR ''.''" by (auto simp: ascii_digit_def)
  moreover have "py_split (CHR ''.'') xs \<noteq> []" for xs by (cases xs) (auto split: list.split)
  ultimately show ?case by (cases "py_split (CHR ''.'') (ds @ CHR ''.'' # rest)") auto
qed simp

lemma disk_index_chunk_name:
  assumes "0 \<le> i" "length (padded i) \<le> 4300"
  shows "disk_index (chunk_name i) = Some i"
proof -
  have "\<not> suffix ''.part'' (padded i @ ''.chunk'')" by (auto simp: suffix_def append_eq_append_conv2 append_eq_Cons_conv Cons_eq_append_conv)
  then show ?thesis using py_split_digits[OF padded_digits(1), of i "''chunk''"] py_int_padded[OF assms]
    by (simp add: disk_index_def chunk_name_def suffix_def)
qed

lemma chunk_name_inj:
  assumes "chunk_name i = chunk_name j" "0 \<le> i" "0 \<le> j"
  shows "i = j"
proof -
  have "digits_val (padded i) = digits_val (padded j)" using assms(1) by (simp add: chunk_name_def)
  then show ?thesis using assms(2,3) by (simp add: padded_def Let_def digits_val_zeros digits_val_nat_digits)
qed

lemma part_not_disk [simp]: "disk_index (p @ ''.part'') = None"
  by (simp add: disk_index_def suffix_def)

subsection \<open>Assembly\<close>

definition BLOCK_SIZE :: nat where "BLOCK_SIZE = 1024 * 1024"

function read_blobs :: "nat \<Rightarrow> bytes \<Rightarrow> bytes list" where
  "read_blobs n data = (if data = [] \<or> n = 0 then [] else take n data # read_blobs n (drop n data))"
  by pat_completeness auto
termination
  by (relation "measure (\<lambda>(_, data). length data)") auto

declare read_blobs.simps [simp del]

text \<open>
  The chunk files are copied in order; the number of bytes, their digest and the assembled
  file. The destination is a new file, whose name nobody else uses.
\<close>

fun concat_blobs :: "(int \<Rightarrow> upload_error + bytes) \<Rightarrow> int list \<Rightarrow> bytes \<Rightarrow> int \<Rightarrow> upload_error + bytes \<times> int" where
  "concat_blobs read [] target total_bytes = Inr (target, total_bytes)"
| "concat_blobs read (i # is) target total_bytes =
     res_bind (read i) (\<lambda>data. let blobs = read_blobs BLOCK_SIZE data in
       concat_blobs read is (target @ concat blobs) (total_bytes + sum_list (map (\<lambda>b. int (length b)) blobs)))"

definition concat_and_hash :: "(bytes \<Rightarrow> string) \<Rightarrow> (int \<Rightarrow> upload_error + bytes) \<Rightarrow> int list \<Rightarrow> upload_error + bytes \<times> int \<times> string" where
  "concat_and_hash sha read indices =
     res_bind (concat_blobs read indices [] 0) (\<lambda>(target, total_bytes). Inr (target, total_bytes, sha target))"

lemma concat_read_blobs: "0 < n \<Longrightarrow> concat (read_blobs n data) = data"
  by (induction n data rule: read_blobs.induct) (subst read_blobs.simps, auto)

lemma length_read_blobs: "0 < n \<Longrightarrow> sum_list (map (\<lambda>b. int (length b)) (read_blobs n data)) = int (length data)"
  by (induction n data rule: read_blobs.induct) (subst read_blobs.simps, auto)

subsection \<open>Finalization\<close>

record finalize_config =
  total_chunks :: int
  expected_bytes :: int
  expected_sha256 :: "string option"

record ('s, 'd, 'r) finalize_hooks =
  on_verifying :: "('s, unit) act"
  read_chunk :: "int \<Rightarrow> 's \<Rightarrow> upload_error + bytes"
  find_duplicate :: "string \<Rightarrow> int \<Rightarrow> ('s, 'd option) act"
  on_duplicate :: "'d \<Rightarrow> ('s, unit) act"
  on_finalizing :: "int \<Rightarrow> int \<Rightarrow> ('s, unit) act"
  promote :: "bytes \<Rightarrow> ('s, unit) act"
  post_promote :: "('s, unit) act"
  register :: "('s, 'r) act"
  cleanup :: "('s, unit) act"

definition truthy :: "string option \<Rightarrow> bool" where
  "truthy v \<longleftrightarrow> v \<noteq> None \<and> v \<noteq> Some []"

definition run_chunked_finalize :: "(bytes \<Rightarrow> string) \<Rightarrow> finalize_config \<Rightarrow> ('s, 'd, 'r) finalize_hooks \<Rightarrow> ('s, string \<times> int \<times> 'r) act" where
  "run_chunked_finalize sha config h =
     act_seq (on_verifying h) (
     act_bind (\<lambda>s. (concat_and_hash sha (\<lambda>i. read_chunk h i s) [0..total_chunks config - 1], s)) (\<lambda>(content, total_bytes, computed).
     if total_bytes \<noteq> expected_bytes config then act_raise (FinalizeSizeMismatch total_bytes (expected_bytes config))
     else if truthy (expected_sha256 config) \<and> Some computed \<noteq> expected_sha256 config
     then act_raise (FinalizeHashMismatch computed (the (expected_sha256 config)))
     else act_bind (find_duplicate h computed total_bytes) (\<lambda>duplicate.
     act_seq (case duplicate of Some d \<Rightarrow> on_duplicate h d | None \<Rightarrow> act_return ()) (
     act_seq (on_finalizing h total_bytes (total_chunks config)) (
     act_seq (promote h content) (
     act_seq (post_promote h) (
     act_bind (register h) (\<lambda>registered.
     act_seq (cleanup h) (act_return (computed, total_bytes, registered))))))))))"

text \<open>
  What the core relies on: the hooks before the promotion leave the chunk files alone, a
  duplicate is refused, and what comes after the promotion keeps the promoted file.
\<close>

locale finalize_backend =
  fixes h :: "('s, 'd, 'r) finalize_hooks" and files :: "'s \<Rightarrow> int \<Rightarrow> bytes option" and canonical :: "'s \<Rightarrow> bytes option"
  assumes read: "read_chunk h i s = (case files s i of Some b \<Rightarrow> Inr b | None \<Rightarrow> Inl OsFileNotFound)"
    and verifying_keeps: "on_verifying h s = (r, s') \<Longrightarrow> files s' = files s"
    and duplicate_refused: "on_duplicate h d s \<noteq> (Inr (), s')"
    and promoted: "promote h content s = (Inr (), s') \<Longrightarrow> canonical s' = Some content"
    and post_promote_keeps: "post_promote h s = (Inr (), s') \<Longrightarrow> canonical s' = canonical s"
    and register_keeps: "register h s = (Inr x, s') \<Longrightarrow> canonical s' = canonical s"
    and cleanup_keeps: "cleanup h s = (Inr (), s') \<Longrightarrow> canonical s' = canonical s"
begin

lemma concat_blobs_files:
  "concat_blobs (\<lambda>i. read_chunk h i s) is target n = Inr (content, tb)
   \<Longrightarrow> \<exists>bs. map (files s) is = map Some bs \<and> content = target @ concat bs \<and> tb = n + int (length (concat bs))"
proof (induction "is" arbitrary: target n)
  case (Cons i "is")
  then obtain b where b: "files s i = Some b" by (cases "files s i") (simp_all add: read)
  have "concat_blobs (\<lambda>i. read_chunk h i s) is (target @ b) (n + int (length b)) = Inr (content, tb)"
    using Cons.prems b by (simp add: read Let_def concat_read_blobs length_read_blobs BLOCK_SIZE_def)
  from Cons.IH[OF this] obtain bs where "map (files s) is = map Some bs" "content = (target @ b) @ concat bs" "tb = n + int (length b) + int (length (concat bs))" by blast
  then show ?case using b by (intro exI[of _ "b # bs"]) simp
qed simp

theorem finalize_core:
  assumes "run_chunked_finalize sha config h s = (Inr (computed, tb, registered), s')"
  obtains bs where "map (files s) [0..total_chunks config - 1] = map Some bs" "canonical s' = Some (concat bs)"
    "int (length (concat bs)) = expected_bytes config" "computed = sha (concat bs)"
    "truthy (expected_sha256 config) \<Longrightarrow> expected_sha256 config = Some computed"
proof -
  obtain s1 content s2 s3 s4 s5 where
    v: "on_verifying h s = (Inr (), s1)"
    and c: "concat_and_hash sha (\<lambda>i. read_chunk h i s1) [0..total_chunks config - 1] = Inr (content, tb, computed)"
    and n: "tb = expected_bytes config" "truthy (expected_sha256 config) \<Longrightarrow> Some computed = expected_sha256 config"
    and p: "promote h content s2 = (Inr (), s3)" "post_promote h s3 = (Inr (), s4)" "register h s4 = (Inr registered, s5)" "cleanup h s5 = (Inr (), s')"
    using assms by (auto simp: run_chunked_finalize_def act_simps act_raise_def act_return_def split: if_splits)
  obtain t where "concat_blobs (\<lambda>i. read_chunk h i s1) [0..total_chunks config - 1] [] 0 = Inr (content, tb)" "computed = sha content"
    using c by (auto simp: concat_and_hash_def res_simps)
  moreover from this obtain bs where "map (files s1) [0..total_chunks config - 1] = map Some bs" "content = concat bs" "tb = int (length (concat bs))"
    using concat_blobs_files by fastforce
  moreover have "canonical s' = Some content" using p promoted post_promote_keeps register_keeps cleanup_keeps by metis
  ultimately show thesis using that[of bs] n verifying_keeps[OF v] by auto
qed

end

end
