(* ===== verification/Chunk_Upload.thy ===== *)
theory Chunk_Upload
  imports Chunk_Staging
begin

section \<open>Chunked uploads: sessions\<close>

text \<open>
  \<^verbatim>\<open>services/memory/upload_sessions.py\<close>: the creation of a session, storing a chunk,
  finalization, cancellation and expiry. The row of a session is a record, with the entries of
  its \<^verbatim>\<open>metadata_json\<close> that the code reads as fields; failure messages, durations and log
  entries are left out. A request runs while it holds the lock of its chunk, and nobody else
  changes the row meanwhile; what happens without that is considered at the end of the
  theory Chunk_Outcomes. Arguments: the settings, the clock, the payload, the fresh name of the temporary
  file, the storage that is free, and what the tables of evidence answer.
\<close>

datatype upload_status = Created | Validating | Uploading | Verifying | Finalizing | Completed | Cancelled | Expired | Failed | Inconsistent

definition ACTIVE_UPLOAD_SESSION_STATUSES :: "upload_status set" where
  "ACTIVE_UPLOAD_SESSION_STATUSES = {Created, Uploading, Verifying, Finalizing}"

definition TERMINAL_UPLOAD_SESSION_STATUSES :: "upload_status set" where
  "TERMINAL_UPLOAD_SESSION_STATUSES = {Completed, Cancelled, Expired, Failed, Inconsistent}"

record memory_upload =
  up_status :: upload_status
  up_expected_bytes :: int
  up_expected_sha256 :: "string option"
  up_sha256 :: "string option"
  up_chunk_size_bytes :: int
  up_total_chunks :: int
  up_received_chunk_count :: int
  up_bytes_received :: int
  up_mode :: string
  up_received_chunks :: "(int \<times> chunk_meta) list"
  up_active_chunks :: "int list"
  up_failure_code :: "string option"
  up_retryable :: bool
  up_progress_at :: int
  up_expires_at :: "int option"
  up_finalized_at :: "int option"

record upload_state =
  us_item :: memory_upload
  us_staging :: staging
  us_canonical :: "bytes option"

subsection \<open>Reading and writing the row\<close>

definition session_upload_mode :: "memory_upload \<Rightarrow> string" where
  "session_upload_mode item =
    (let raw = (if up_mode item = [] then ''resumable'' else up_mode item); mode = py_lower (py_strip raw) in
     if mode \<in> {''direct'', ''resumable''} then mode else ''resumable'')"

definition active_chunk_indices :: "memory_upload \<Rightarrow> int list" where
  "active_chunk_indices item = sort (remdups (filter (\<lambda>i. 0 \<le> i) (up_active_chunks item)))"

definition set_active_chunk :: "int \<Rightarrow> bool \<Rightarrow> memory_upload \<Rightarrow> memory_upload" where
  "set_active_chunk i active item =
    (let current = active_chunk_indices item in
     item\<lparr>up_active_chunks := sort (remdups (if active then i # current else filter (\<lambda>j. j \<noteq> i) current))\<rparr>)"

definition touch_session :: "int \<Rightarrow> int \<Rightarrow> memory_upload \<Rightarrow> memory_upload" where
  "touch_session ttl now item =
     item\<lparr>up_progress_at := now, up_expires_at := Some (now + max 300 (if ttl = 0 then 86400 else ttl))\<rparr>"

definition merge_chunk :: "int \<Rightarrow> int \<Rightarrow> int \<Rightarrow> int \<Rightarrow> string \<Rightarrow> upload_status option \<Rightarrow> memory_upload \<Rightarrow> memory_upload" where
  "merge_chunk ttl now i sz sha256 status item =
    (let received = dict_set i \<lparr>meta_size = sz, meta_sha256 = sha256\<rparr> (up_received_chunks item);
         item1 = item\<lparr>up_received_chunks := received, up_received_chunk_count := int (length received),
           up_bytes_received := sum_list (map (meta_size \<circ> snd) received), up_failure_code := None\<rparr> in
     touch_session ttl now (case status of Some st \<Rightarrow> item1\<lparr>up_status := st\<rparr> | None \<Rightarrow> item1))"

definition sanitize_sha256 :: "string option \<Rightarrow> upload_error + string option" where
  "sanitize_sha256 v =
    (let normalized = py_lower (py_strip (case v of Some s \<Rightarrow> s | None \<Rightarrow> [])) in
     if normalized = [] then Inr None
     else if length normalized \<noteq> 64 \<or> \<not> list_all (\<lambda>c. c \<in> set ''0123456789abcdef'') normalized
     then Inl (UploadSessionError ''MEMORY_UPLOAD_INVALID_SHA256'') else Inr (Some normalized))"

definition check_staging :: "(bytes \<Rightarrow> string) \<Rightarrow> bool \<Rightarrow> upload_state \<Rightarrow> integrity" where
  "check_staging sha verify s = classify_chunk_staging sha (us_staging s) (up_received_chunks (us_item s)) verify"

definition cleanup_session_storage :: "staging \<Rightarrow> staging" where
  "cleanup_session_storage st = \<lparr>session_root_exists = False, chunks_dir = None\<rparr>"

subsection \<open>Creating a session\<close>

record upload_settings =
  set_ttl :: int
  set_max_bytes :: int
  set_quota :: int
  set_threshold :: int
  set_chunk_min :: int
  set_chunk_max :: int
  set_chunk_size :: int

record create_request =
  rq_enabled :: "string option"
  rq_size :: int
  rq_extension_ok :: "upload_error + string"
  rq_host :: string
  rq_conflict :: bool
  rq_case_usage :: "int option"
  rq_capacity_ok :: bool
  rq_mode :: string
  rq_fingerprint :: "string option"
  rq_sha256 :: "string option"

definition int_or_default :: "int \<Rightarrow> int \<Rightarrow> int" where
  "int_or_default v d = (if v = 0 then d else v)"

definition chunk_size_for :: "upload_settings \<Rightarrow> string \<Rightarrow> int \<Rightarrow> int" where
  "chunk_size_for cfg mode sz =
    (if mode = ''direct'' then sz
     else max (int_or_default (set_chunk_min cfg) 1048576)
       (min (int_or_default (set_chunk_max cfg) 268435456) (int_or_default (set_chunk_size cfg) 67108864)))"

text \<open>\<^verbatim>\<open>max(1, math.ceil(size / chunk_size))\<close>: exact for sizes below \<open>2^53\<close>, where the division of floats is.\<close>

definition chunk_count :: "int \<Rightarrow> int \<Rightarrow> int" where
  "chunk_count sz chunk_size = max 1 (- (- sz div chunk_size))"

definition new_upload :: "upload_settings \<Rightarrow> int \<Rightarrow> create_request \<Rightarrow> string \<Rightarrow> string option \<Rightarrow> memory_upload" where
  "new_upload cfg now rq mode sha256 = (let cs = chunk_size_for cfg mode (rq_size rq) in touch_session (set_ttl cfg) now
     \<lparr>up_status = Created, up_expected_bytes = rq_size rq, up_expected_sha256 = sha256, up_sha256 = None, up_chunk_size_bytes = cs,
      up_total_chunks = chunk_count (rq_size rq) cs, up_received_chunk_count = 0, up_bytes_received = 0, up_mode = mode,
      up_received_chunks = [], up_active_chunks = [], up_failure_code = None, up_retryable = False, up_progress_at = now,
      up_expires_at = None, up_finalized_at = None\<rparr>)"

definition create_memory_upload_session :: "upload_settings \<Rightarrow> int \<Rightarrow> create_request \<Rightarrow> upload_error + upload_state" where
  "create_memory_upload_session cfg now rq =
    (let mode = py_lower (py_strip (if rq_mode rq = [] then ''resumable'' else rq_mode rq)); err = (\<lambda>c. Inl (UploadSessionError c)) in
     if rq_enabled rq \<noteq> None then err (the (rq_enabled rq))
     else if rq_size rq \<le> 0 then err ''MEMORY_UPLOAD_INVALID_SIZE''
     else if rq_size rq > set_max_bytes cfg then err ''MEMORY_UPLOAD_TOO_LARGE''
     else res_bind (rq_extension_ok rq) (\<lambda>_.
     if py_strip (rq_host rq) = [] then err ''MEMORY_UPLOAD_HOST_REQUIRED''
     else if rq_conflict rq then err ''MEMORY_UPLOAD_ACTIVE_SESSION_EXISTS''
     else if (case rq_case_usage rq of Some u \<Rightarrow> u + rq_size rq > set_quota cfg | None \<Rightarrow> False) then err ''MEMORY_UPLOAD_CASE_QUOTA_EXCEEDED''
     else if \<not> rq_capacity_ok rq then err ''MEMORY_UPLOAD_INSUFFICIENT_SPACE''
     else if mode \<notin> {''direct'', ''resumable''} then err ''MEMORY_UPLOAD_INVALID_MODE''
     else if mode = ''direct'' \<and> rq_size rq > int_or_default (set_threshold cfg) 1073741824 then err ''MEMORY_UPLOAD_DIRECT_TOO_LARGE''
     else res_bind (sanitize_sha256 (rq_fingerprint rq)) (\<lambda>_. res_bind (sanitize_sha256 (rq_sha256 rq)) (\<lambda>sha256.
       Inr \<lparr>us_item = new_upload cfg now rq mode sha256, us_staging = \<lparr>session_root_exists = True, chunks_dir = Some []\<rparr>, us_canonical = None\<rparr>))))"

subsection \<open>Storing a chunk\<close>

text \<open>
  A request: the index, the blobs of the body and whether the stream broke off after them, the
  headers, the mode of the endpoint and the fresh part of the temporary name. \<open>cq_vanished\<close> is
  the row as it is found when the staging directory was removed before the chunk was moved there.
\<close>

record chunk_request =
  cq_index :: int
  cq_blobs :: "bytes list"
  cq_aborted :: bool
  cq_content_length :: "string option"
  cq_chunk_sha256 :: "string option"
  cq_mode :: string
  cq_uuid :: string
  cq_vanished :: "memory_upload option"

definition expected_length :: "memory_upload \<Rightarrow> int \<Rightarrow> int" where
  "expected_length item i = min (up_chunk_size_bytes item) (up_expected_bytes item - i * up_chunk_size_bytes item)"

definition chunk_file :: "upload_state \<Rightarrow> int \<Rightarrow> bytes option" where
  "chunk_file s i = (case chunks_dir (us_staging s) of Some dir \<Rightarrow> map_of dir (chunk_name i) | None \<Rightarrow> None)"

definition already_stored :: "upload_state \<Rightarrow> int \<Rightarrow> int \<Rightarrow> string option \<Rightarrow> bool" where
  "already_stored s i len declared = (case map_of (up_received_chunks (us_item s)) i of
     Some m \<Rightarrow> meta_size m = len \<and> chunk_file s i \<noteq> None \<and> (declared = None \<or> declared = Some (meta_sha256 m))
   | None \<Rightarrow> False)"

definition fail_item :: "string \<Rightarrow> upload_state \<Rightarrow> upload_state" where
  "fail_item code s = s\<lparr>us_item := us_item s\<lparr>up_status := Failed, up_failure_code := Some code, up_retryable := True\<rparr>\<rparr>"

definition staging_failure_code :: "string \<Rightarrow> string" where
  "staging_failure_code status = ''MEMORY_UPLOAD_STAGING_'' @ map (\<lambda>c. if 97 \<le> code_point c \<and> code_point c \<le> 122 then char_of (code_point c - 32) else c) status"

definition store_checks :: "(bytes \<Rightarrow> string) \<Rightarrow> int \<Rightarrow> chunk_request \<Rightarrow> (upload_state, int \<times> string option) act" where
  "store_checks sha now rq s =
    (let item = us_item s; err = (\<lambda>c. (Inl (UploadSessionError c), s)); status = integrity_status (check_staging sha False s);
         len = expected_length item (cq_index rq) in
     if up_status item \<in> TERMINAL_UPLOAD_SESSION_STATUSES then err ''MEMORY_UPLOAD_TERMINAL''
     else if up_status item \<in> {Verifying, Finalizing} then err ''MEMORY_UPLOAD_FINALIZING''
     else if session_upload_mode item \<noteq> cq_mode rq then err ''MEMORY_UPLOAD_MODE_CONFLICT''
     else if cq_index rq < 0 \<or> cq_index rq \<ge> up_total_chunks item then err ''MEMORY_UPLOAD_INVALID_CHUNK_INDEX''
     else if (case up_expires_at item of Some t \<Rightarrow> t < now | None \<Rightarrow> False)
     then (Inl (UploadSessionError ''MEMORY_UPLOAD_SESSION_EXPIRED''),
       s\<lparr>us_item := item\<lparr>up_status := Expired, up_failure_code := Some ''MEMORY_UPLOAD_SESSION_EXPIRED''\<rparr>\<rparr>)
     else if status \<notin> {STAGING_HEALTHY, EXTRA_CHUNKS}
     then (Inl (UploadSessionError (staging_failure_code status)), fail_item (staging_failure_code status) s)
     else case (case cq_content_length rq of None \<Rightarrow> Inr True
                | Some t \<Rightarrow> (case py_int t of Some n \<Rightarrow> Inr (n = len) | None \<Rightarrow> Inl PyValueError)) of
       Inl e \<Rightarrow> (Inl e, s)
     | Inr False \<Rightarrow> err ''MEMORY_UPLOAD_INVALID_CHUNK_LENGTH''
     | Inr True \<Rightarrow> (res_bind (sanitize_sha256 (cq_chunk_sha256 rq)) (\<lambda>declared. Inr (len, declared)), s))"

text \<open>The bytes of the body; \<open>Inl\<close> when they are more than expected.\<close>

fun receive :: "int \<Rightarrow> bytes \<Rightarrow> bytes list \<Rightarrow> unit + bytes" where
  "receive len data [] = Inr data"
| "receive len data (blob # blobs) =
    (if blob = [] then receive len data blobs
     else if int (length (data @ blob)) > len then Inl () else receive len (data @ blob) blobs)"

definition temp_name :: "chunk_request \<Rightarrow> string" where
  "temp_name rq = padded (cq_index rq) @ ''.'' @ cq_uuid rq @ ''.part''"

definition with_dir :: "directory \<Rightarrow> upload_state \<Rightarrow> upload_state" where
  "with_dir dir s = s\<lparr>us_staging := \<lparr>session_root_exists = True, chunks_dir = Some dir\<rparr>\<rparr>"

definition record_chunk :: "upload_settings \<Rightarrow> int \<Rightarrow> int \<Rightarrow> bytes \<Rightarrow> string \<Rightarrow> upload_status option \<Rightarrow> (upload_state, unit) act" where
  "record_chunk cfg now i data sha256 status s =
     (Inr (), s\<lparr>us_item := merge_chunk (set_ttl cfg) now i (int (length data)) sha256 status (us_item s)\<rparr>)"

text \<open>The chunk file is there already: the same bytes again, bytes no request recorded, or other bytes.\<close>

definition existing_chunk :: "(bytes \<Rightarrow> string) \<Rightarrow> upload_settings \<Rightarrow> int \<Rightarrow> int \<Rightarrow> bytes \<Rightarrow> bytes \<Rightarrow> (upload_state, unit) act" where
  "existing_chunk sha cfg now i data old s =
    (let existing = map_of (up_received_chunks (us_item s)) i in
     if existing = Some \<lparr>meta_size = int (length data), meta_sha256 = sha data\<rparr> then (Inr (), s)
     else if existing = None \<and> length old \<noteq> length data then (Inl (UploadSessionError ''MEMORY_UPLOAD_CHUNK_SIZE_MISMATCH''), s)
     else if existing = None \<and> sha old = sha data then record_chunk cfg now i data (sha data) None s
     else (Inl (UploadSessionError ''MEMORY_UPLOAD_CHUNK_CONTENT_MISMATCH''), s))"

definition move_chunk :: "upload_settings \<Rightarrow> int \<Rightarrow> chunk_request \<Rightarrow> directory \<Rightarrow> bytes \<Rightarrow> string \<Rightarrow> (upload_state, unit) act" where
  "move_chunk cfg now rq dir data sha256 s = (case cq_vanished rq of
     Some item \<Rightarrow> (Inl (if up_status item \<in> TERMINAL_UPLOAD_SESSION_STATUSES then UploadSessionError ''MEMORY_UPLOAD_TERMINAL'' else OsFileNotFound),
       s\<lparr>us_item := item, us_staging := cleanup_session_storage (us_staging s)\<rparr>)
   | None \<Rightarrow> record_chunk cfg now (cq_index rq) data sha256 (Some Uploading) (with_dir (dict_set (chunk_name (cq_index rq)) data dir) s))"

definition write_chunk :: "(bytes \<Rightarrow> string) \<Rightarrow> upload_settings \<Rightarrow> int \<Rightarrow> chunk_request \<Rightarrow> int \<Rightarrow> string option \<Rightarrow> (upload_state, unit) act" where
  "write_chunk sha cfg now rq len declared s =
    (let dir = (case chunks_dir (us_staging s) of Some d \<Rightarrow> d | None \<Rightarrow> []); s1 = with_dir dir s; err = (\<lambda>c. (Inl (UploadSessionError c), s1)) in
     case receive len [] (cq_blobs rq) of
       Inl _ \<Rightarrow> err ''MEMORY_UPLOAD_CHUNK_TOO_LARGE''
     | Inr data \<Rightarrow>
         if cq_aborted rq then (Inl ClientDisconnect, with_dir (dict_set (temp_name rq) data dir) s)
         else if int (length data) \<noteq> len then err ''MEMORY_UPLOAD_INVALID_CHUNK_LENGTH''
         else if declared \<noteq> None \<and> declared \<noteq> Some (sha data) then err ''MEMORY_UPLOAD_CHUNK_HASH_MISMATCH''
         else case map_of dir (chunk_name (cq_index rq)) of
           Some old \<Rightarrow> existing_chunk sha cfg now (cq_index rq) data old s1
         | None \<Rightarrow> move_chunk cfg now rq dir data (sha data) s1)"

text \<open>While the lock of the chunk is held; the last commit takes the chunk off the active ones, however the request ended.\<close>

definition locked_store :: "(bytes \<Rightarrow> string) \<Rightarrow> upload_settings \<Rightarrow> int \<Rightarrow> chunk_request \<Rightarrow> int \<Rightarrow> string option \<Rightarrow> (upload_state, unit) act" where
  "locked_store sha cfg now rq len declared s =
    (if up_status (us_item s) \<in> TERMINAL_UPLOAD_SESSION_STATUSES \<union> {Verifying, Finalizing}
     then (Inl (UploadSessionError ''MEMORY_UPLOAD_FINALIZING''), s)
     else if already_stored s (cq_index rq) len declared then (Inr (), s)
     else let (r, s') = write_chunk sha cfg now rq len declared (s\<lparr>us_item := set_active_chunk (cq_index rq) True (us_item s)\<rparr>) in
       (r, s'\<lparr>us_item := set_active_chunk (cq_index rq) False (us_item s')\<rparr>))"

definition store_memory_upload_chunk_stream :: "(bytes \<Rightarrow> string) \<Rightarrow> upload_settings \<Rightarrow> int \<Rightarrow> chunk_request \<Rightarrow> (upload_state, unit) act" where
  "store_memory_upload_chunk_stream sha cfg now rq =
     act_bind (store_checks sha now rq) (\<lambda>(len, declared) s.
       if already_stored s (cq_index rq) len declared then (Inr (), s) else locked_store sha cfg now rq len declared s)"

subsection \<open>Finalization\<close>

text \<open>
  What finalization meets: whether the storage suffices, the evidence with the same digest, a
  failure of the promotion or of what follows it, and the workflow's registration, which may
  change the row.
\<close>

record ('d, 'r) finalize_env =
  fe_capacity_ok :: bool
  fe_duplicate :: "string \<Rightarrow> 'd option"
  fe_promote_error :: "upload_error option"
  fe_secure_error :: "upload_error option"
  fe_register :: "memory_upload \<Rightarrow> (upload_error + 'r) \<times> memory_upload"

definition ERR_REGISTRATION_DUPLICATE :: string where "ERR_REGISTRATION_DUPLICATE = ''MEMORY_EVIDENCE_DUPLICATE''"

definition raise_if :: "upload_error option \<Rightarrow> ('s, unit) act \<Rightarrow> ('s, unit) act" where
  "raise_if e k = (case e of Some x \<Rightarrow> act_raise x | None \<Rightarrow> k)"

definition set_item :: "(memory_upload \<Rightarrow> memory_upload) \<Rightarrow> (upload_state, unit) act" where
  "set_item f s = (Inr (), s\<lparr>us_item := f (us_item s)\<rparr>)"

definition refuse_duplicate :: "upload_settings \<Rightarrow> int \<Rightarrow> (upload_state, unit) act" where
  "refuse_duplicate cfg now s =
     (Inl (UploadSessionError ERR_REGISTRATION_DUPLICATE), s\<lparr>us_staging := cleanup_session_storage (us_staging s), us_canonical := None,
       us_item := touch_session (set_ttl cfg) now (us_item s\<lparr>up_status := Failed, up_failure_code := Some ERR_REGISTRATION_DUPLICATE, up_retryable := False\<rparr>)\<rparr>)"

definition memory_hooks :: "upload_settings \<Rightarrow> int \<Rightarrow> ('d, 'r) finalize_env \<Rightarrow> (upload_state, 'd, 'r) finalize_hooks" where
  "memory_hooks cfg now env = \<lparr>
     on_verifying = set_item (\<lambda>item. touch_session (set_ttl cfg) now (item\<lparr>up_status := Verifying, up_failure_code := None\<rparr>)),
     read_chunk = (\<lambda>i s. case chunk_file s i of Some b \<Rightarrow> Inr b | None \<Rightarrow> Inl OsFileNotFound),
     find_duplicate = (\<lambda>computed total s. (Inr (fe_duplicate env computed), s\<lparr>us_item := us_item s\<lparr>up_sha256 := Some computed\<rparr>\<rparr>)),
     on_duplicate = (\<lambda>_. refuse_duplicate cfg now),
     on_finalizing = (\<lambda>total chunks. set_item (\<lambda>item. touch_session (set_ttl cfg) now
       (item\<lparr>up_status := Finalizing, up_finalized_at := Some now, up_bytes_received := total, up_received_chunk_count := chunks\<rparr>))),
     promote = (\<lambda>content. raise_if (fe_promote_error env) (\<lambda>s. (Inr (), s\<lparr>us_canonical := Some content\<rparr>))),
     post_promote = raise_if (fe_secure_error env) (act_return ()),
     register = (\<lambda>s. case fe_register env (us_item s) of (r, item) \<Rightarrow> (r, s\<lparr>us_item := item\<rparr>)),
     cleanup = (\<lambda>s. (Inr (), s\<lparr>us_staging := cleanup_session_storage (us_staging s)\<rparr>))\<rparr>"

definition finalize_checks :: "(bytes \<Rightarrow> string) \<Rightarrow> ('d, 'r) finalize_env \<Rightarrow> string option \<Rightarrow> (upload_state, string option) act" where
  "finalize_checks sha env requested s =
    (let item = us_item s; err = (\<lambda>c. Inl (UploadSessionError c)); status = integrity_status (check_staging sha True s) in
     if active_chunk_indices item \<noteq> [] then (err ''MEMORY_UPLOAD_CHUNKS_ACTIVE'', s)
     else if status \<noteq> STAGING_HEALTHY then (err ''MEMORY_UPLOAD_STAGING_INCONSISTENT'', fail_item ''MEMORY_UPLOAD_STAGING_INCONSISTENT'' s)
     else (res_bind (sanitize_sha256 (if truthy requested then requested else up_expected_sha256 item)) (\<lambda>expected.
       if list_ex (\<lambda>i. i \<notin> fst ` set (up_received_chunks item)) [0..up_total_chunks item - 1] then err ''MEMORY_UPLOAD_CHUNKS_MISSING''
       else if \<not> fe_capacity_ok env then err ''MEMORY_UPLOAD_INSUFFICIENT_SPACE''
       else Inr expected), s))"

text \<open>The exceptions of the core, as the handlers of the finalization leave them.\<close>

definition finalize_error :: "upload_error \<Rightarrow> upload_error" where
  "finalize_error e = (case e of
     FinalizeSizeMismatch _ _ \<Rightarrow> UploadSessionError ''MEMORY_UPLOAD_FINAL_SIZE_MISMATCH''
   | FinalizeHashMismatch _ _ \<Rightarrow> UploadSessionError ''MEMORY_UPLOAD_SHA256_MISMATCH''
   | _ \<Rightarrow> e)"

definition error_code :: "upload_error \<Rightarrow> string" where
  "error_code e = (case e of UploadSessionError c \<Rightarrow> if c = [] then ''MEMORY_UPLOAD_FINALIZATION_FAILED'' else c | _ \<Rightarrow> ''MEMORY_UPLOAD_FINALIZATION_FAILED'')"

definition finalize_handler :: "upload_settings \<Rightarrow> int \<Rightarrow> upload_error \<Rightarrow> (upload_state, 'a) act" where
  "finalize_handler cfg now e s = (case finalize_error e of
     RegistrationError code \<Rightarrow> (Inl (UploadSessionError code), s)
   | e' \<Rightarrow> (let s' = fail_item (error_code e') s in (Inl e', s'\<lparr>us_item := touch_session (set_ttl cfg) now (us_item s')\<rparr>)))"

definition finalize_memory_upload_session :: "(bytes \<Rightarrow> string) \<Rightarrow> upload_settings \<Rightarrow> int \<Rightarrow> ('d, 'r) finalize_env \<Rightarrow> string option
    \<Rightarrow> (upload_state, 'r option) act" where
  "finalize_memory_upload_session sha cfg now env requested s =
    (if up_status (us_item s) \<in> {Completed, Cancelled, Expired, Inconsistent} then (Inr None, s)
     else act_bind (finalize_checks sha env requested) (\<lambda>expected s.
       let config = \<lparr>total_chunks = up_total_chunks (us_item s), expected_bytes = up_expected_bytes (us_item s), expected_sha256 = expected\<rparr> in
       case run_chunked_finalize sha config (memory_hooks cfg now env) s of
         (Inr (_, _, registered), s') \<Rightarrow> (Inr (Some registered), s')
       | (Inl e, s') \<Rightarrow> finalize_handler cfg now e s') s)"

subsection \<open>Cancellation and expiry\<close>

definition cancel_memory_upload_session :: "upload_settings \<Rightarrow> int \<Rightarrow> (upload_state, unit) act" where
  "cancel_memory_upload_session cfg now s =
    (let item = us_item s in
     if up_status item = Completed then (Inl (UploadSessionError ''MEMORY_UPLOAD_ALREADY_COMPLETED''), s)
     else if up_status item \<in> {Cancelled, Expired, Failed, Inconsistent} then (Inr (), s)
     else (Inr (), s\<lparr>us_item := touch_session (set_ttl cfg) now (item\<lparr>up_status := Cancelled, up_retryable := False,
         up_failure_code := Some ''MEMORY_UPLOAD_CANCELLED''\<rparr>), us_staging := cleanup_session_storage (us_staging s)\<rparr>))"

text \<open>One session in the periodic cleanup: the row is due, or it ended longer ago than the cleanup age.\<close>

definition expire_session_if_due :: "int \<Rightarrow> int \<Rightarrow> int \<Rightarrow> upload_state \<Rightarrow> upload_state" where
  "expire_session_if_due cleanup_age updated_at now s =
    (let item = us_item s in
     if up_status item \<in> ACTIVE_UPLOAD_SESSION_STATUSES \<and> (case up_expires_at item of Some t \<Rightarrow> t < now | None \<Rightarrow> False)
     then s\<lparr>us_item := item\<lparr>up_status := Expired, up_failure_code := Some ''MEMORY_UPLOAD_SESSION_EXPIRED'', up_retryable := False\<rparr>,
        us_staging := cleanup_session_storage (us_staging s)\<rparr>
     else if up_status item \<in> {Cancelled, Failed, Expired} \<and> updated_at < now - max 60 (if cleanup_age = 0 then 86400 else cleanup_age)
     then s\<lparr>us_staging := cleanup_session_storage (us_staging s)\<rparr> else s)"

interpretation memory_backend: finalize_backend "memory_hooks cfg now env" chunk_file us_canonical
  by unfold_locales (auto simp: memory_hooks_def set_item_def refuse_duplicate_def raise_if_def act_raise_def act_return_def chunk_file_def
    split: option.splits prod.splits)

end
