(* ===== verification/Chunk_Properties.thy ===== *)
theory Chunk_Properties
  imports Chunk_Upload "HOL-Library.Multiset"
begin

section \<open>Chunked uploads: properties\<close>

text \<open>
  A file of the client and its chunks; the invariant of a session; the steps an honest client,
  finalizations, cancellations and cleanups can take, and that storing a chunk keeps the
  invariant; triples for actions that may raise, and what a complete session has received.
\<close>

subsection \<open>A file and its chunks\<close>

definition file_chunk :: "bytes \<Rightarrow> int \<Rightarrow> int \<Rightarrow> bytes" where
  "file_chunk F cs i = take (nat cs) (drop (nat (i * cs)) F)"

lemma chunk_count_bounds:
  assumes "0 < cs" "0 < n"
  shows "1 \<le> chunk_count n cs" "(chunk_count n cs - 1) * cs < n" "n \<le> chunk_count n cs * cs"
proof -
  define q where "q = - (- n div cs)"
  define r where "r = - n mod cs"
  have "q * cs = n + r" unfolding q_def r_def minus_mult_left[symmetric] minus_div_mult_eq_mod[symmetric] by simp
  moreover have "0 \<le> r" "r < cs" using assms(1) by (simp_all add: r_def)
  ultimately have "n \<le> q * cs" "q * cs < n + cs" by simp_all
  moreover from this have "1 \<le> q" using assms by (smt (verit) mult_nonneg_nonneg mult_minus_left)
  ultimately show "1 \<le> chunk_count n cs" "(chunk_count n cs - 1) * cs < n" "n \<le> chunk_count n cs * cs"
    by (simp_all add: chunk_count_def q_def[symmetric] algebra_simps)
qed

lemma concat_chunks_upto:
  assumes "0 < cs"
  shows "concat (map (file_chunk F cs) (map int [0..<k])) = take (k * nat cs) F"
proof (induction k)
  case (Suc k)
  have "nat (int k * cs) = k * nat cs" using assms by (simp add: nat_mult_distrib)
  then have "take (k * nat cs) F @ file_chunk F cs (int k) = take (k * nat cs + nat cs) F" by (simp add: file_chunk_def take_add)
  then show ?case using Suc by (simp add: add.commute)
qed simp

lemma upto_map_int: "[0..n - 1] = map int [0..<nat n]"
proof (cases "0 \<le> n")
  case True
  then have "n = int (nat n)" by simp
  moreover have "[0..int k - 1] = map int [0..<k]" for k by (induction k) (simp_all add: upto_rec2)
  ultimately show ?thesis by metis
qed simp

lemma concat_chunks:
  assumes "0 < cs" "0 < length F" "n = chunk_count (int (length F)) cs"
  shows "concat (map (file_chunk F cs) [0..n - 1]) = F"
proof -
  have "int (length F) \<le> n * cs" "1 \<le> n" using chunk_count_bounds[OF assms(1), of "int (length F)"] assms by simp_all
  then have "length F \<le> nat n * nat cs" using assms(1) by (simp add: nat_mult_distrib[symmetric] nat_le_iff le_nat_iff)
  then show ?thesis by (simp only: upto_map_int concat_chunks_upto[OF assms(1)]) simp
qed

lemma length_file_chunk:
  assumes "0 < cs" "0 < length F" "0 \<le> i" "i < chunk_count (int (length F)) cs"
  shows "int (length (file_chunk F cs i)) = min cs (int (length F) - i * cs)" "0 < length (file_chunk F cs i)"
proof -
  have "(chunk_count (int (length F)) cs - 1) * cs < int (length F)" using chunk_count_bounds(2)[OF assms(1)] assms(2) by simp
  moreover have "i * cs \<le> (chunk_count (int (length F)) cs - 1) * cs" using assms(1,4) by (intro mult_right_mono) auto
  ultimately have "i * cs < int (length F)" by simp
  moreover have "int (length (file_chunk F cs i)) = min (int (nat cs)) (int (length F - nat (i * cs)))"
    unfolding file_chunk_def length_take length_drop of_nat_min by (rule min.commute)
  moreover have "int (nat (i * cs)) = i * cs" using assms(1,3) by simp
  ultimately show "int (length (file_chunk F cs i)) = min cs (int (length F) - i * cs)" "0 < length (file_chunk F cs i)"
    using assms(1) by linarith+
qed

lemma nat_digits_length: "n < 10 ^ k \<Longrightarrow> 0 < k \<Longrightarrow> length (nat_digits n) \<le> k"
proof (induction n arbitrary: k rule: nat_digits.induct)
  case (1 n)
  show ?case
  proof (cases "n < 10")
    case False
    then obtain j where k: "k = Suc j" "0 < j" using 1(2,3) by (cases k; cases "k - 1") auto
    then have "n div 10 < 10 ^ j" using 1(2) by (simp add: less_mult_imp_div_less mult.commute)
    then show ?thesis using 1(1)[OF False _ k(2)] False k(1) by (subst nat_digits.simps) simp
  qed (use 1(3) in \<open>subst nat_digits.simps, simp\<close>)
qed

lemma padded_length: "i < 10 ^ 8 \<Longrightarrow> length (padded i) \<le> 4300"
  using nat_digits_length[of "nat i" 8] by (simp add: padded_def Let_def)

subsection \<open>Receiving\<close>

lemma receive_data:
  "receive len data blobs = Inr r \<Longrightarrow> r = data @ concat blobs"
  by (induction len data blobs rule: receive.induct) (auto split: if_splits)

lemma receive_ok: "int (length (data @ concat blobs)) \<le> len \<Longrightarrow> receive len data blobs = Inr (data @ concat blobs)"
  by (induction len data blobs rule: receive.induct) auto

subsection \<open>The invariant\<close>

definition upload_shape :: "bytes \<Rightarrow> int \<Rightarrow> memory_upload \<Rightarrow> bool" where
  "upload_shape F cs item \<longleftrightarrow> up_expected_bytes item = int (length F) \<and> up_chunk_size_bytes item = cs
     \<and> up_total_chunks item = chunk_count (int (length F)) cs"

definition chunk_meta_of :: "(bytes \<Rightarrow> string) \<Rightarrow> bytes \<Rightarrow> int \<Rightarrow> int \<Rightarrow> chunk_meta" where
  "chunk_meta_of sha F cs i = \<lparr>meta_size = int (length (file_chunk F cs i)), meta_sha256 = sha (file_chunk F cs i)\<rparr>"

definition received_ok :: "(bytes \<Rightarrow> string) \<Rightarrow> bytes \<Rightarrow> int \<Rightarrow> (int \<times> chunk_meta) list \<Rightarrow> bool" where
  "received_ok sha F cs received \<longleftrightarrow> distinct (map fst received)
     \<and> (\<forall>(i, m) \<in> set received. 0 \<le> i \<and> i < chunk_count (int (length F)) cs \<and> m = chunk_meta_of sha F cs i)"

text \<open>The files of the directory are the recorded chunks of the file, and temporary files.\<close>

definition dir_ok :: "bytes \<Rightarrow> int \<Rightarrow> (int \<times> chunk_meta) list \<Rightarrow> directory \<Rightarrow> bool" where
  "dir_ok F cs received dir \<longleftrightarrow>
     (\<forall>i \<in> fst ` set received. map_of dir (chunk_name i) = Some (file_chunk F cs i))
   \<and> (\<forall>name \<in> fst ` set dir. (\<exists>i \<in> fst ` set received. name = chunk_name i) \<or> suffix ''.part'' name)"

definition upload_inv :: "(bytes \<Rightarrow> string) \<Rightarrow> bytes \<Rightarrow> int \<Rightarrow> upload_state \<Rightarrow> bool" where
  "upload_inv sha F cs s \<longleftrightarrow> (let item = us_item s in
     upload_shape F cs item \<and> received_ok sha F cs (up_received_chunks item)
   \<and> up_received_chunk_count item = int (length (up_received_chunks item))
   \<and> up_bytes_received item = sum_list (map (meta_size \<circ> snd) (up_received_chunks item))
   \<and> active_chunk_indices item = []
   \<and> (case chunks_dir (us_staging s) of Some dir \<Rightarrow> session_root_exists (us_staging s) \<and> dir_ok F cs (up_received_chunks item) dir
      | None \<Rightarrow> up_status item \<in> TERMINAL_UPLOAD_SESSION_STATUSES)
   \<and> (us_canonical s = None \<or> us_canonical s = Some F))"

definition honest :: "bytes \<Rightarrow> int \<Rightarrow> chunk_request \<Rightarrow> bool" where
  "honest F cs rq \<longleftrightarrow> prefix (concat (cq_blobs rq)) (file_chunk F cs (cq_index rq)) \<and> cq_vanished rq = None"

text \<open>Registration changes the status of the row, not what was received.\<close>

definition same_upload :: "memory_upload \<Rightarrow> memory_upload \<Rightarrow> bool" where
  "same_upload a b \<longleftrightarrow> up_expected_bytes b = up_expected_bytes a \<and> up_chunk_size_bytes b = up_chunk_size_bytes a
     \<and> up_total_chunks b = up_total_chunks a \<and> up_received_chunks b = up_received_chunks a
     \<and> up_received_chunk_count b = up_received_chunk_count a \<and> up_bytes_received b = up_bytes_received a
     \<and> up_active_chunks b = up_active_chunks a"

definition proper_env :: "('d, 'r) finalize_env \<Rightarrow> bool" where
  "proper_env env \<longleftrightarrow> (\<forall>item. same_upload item (snd (fe_register env item))
     \<and> (isl (fst (fe_register env item)) \<or> up_status (snd (fe_register env item)) = Completed))"

inductive upload_step :: "(bytes \<Rightarrow> string) \<Rightarrow> upload_settings \<Rightarrow> bytes \<Rightarrow> int \<Rightarrow> ('d, 'r) finalize_env \<Rightarrow> upload_state \<Rightarrow> upload_state \<Rightarrow> bool"
  for sha cfg F cs env where
  store: "honest F cs rq \<Longrightarrow> store_memory_upload_chunk_stream sha cfg now rq s = (r, s') \<Longrightarrow> upload_step sha cfg F cs env s s'"
| finalize: "finalize_memory_upload_session sha cfg now (env\<lparr>fe_capacity_ok := c, fe_promote_error := p, fe_secure_error := e\<rparr>) requested s = (f, s')
    \<Longrightarrow> upload_step sha cfg F cs env s s'"
| cancel: "cancel_memory_upload_session cfg now s = (u, s') \<Longrightarrow> upload_step sha cfg F cs env s s'"
| expire: "upload_step sha cfg F cs env s (expire_session_if_due age updated now s)"

subsection \<open>Steps keep the invariant\<close>

lemma upload_inv_cong:
  assumes "upload_inv sha F cs s" "same_upload (us_item s) (us_item s')"
    and "us_staging s' = us_staging s \<or> us_staging s' = cleanup_session_storage (us_staging s)"
    and "chunks_dir (us_staging s') = None \<Longrightarrow> up_status (us_item s') \<in> TERMINAL_UPLOAD_SESSION_STATUSES"
    and "us_canonical s' \<in> {None, us_canonical s, Some F}"
  shows "upload_inv sha F cs s'"
  using assms
  by (auto simp: upload_inv_def Let_def same_upload_def upload_shape_def active_chunk_indices_def cleanup_session_storage_def split: option.splits)

lemma same_upload_simps [simp]:
  "same_upload item item" "same_upload item (touch_session ttl now b) = same_upload item b"
  "same_upload item (b\<lparr>up_status := st\<rparr>) = same_upload item b" "same_upload item (b\<lparr>up_failure_code := fc\<rparr>) = same_upload item b"
  "same_upload item (b\<lparr>up_retryable := rt\<rparr>) = same_upload item b" "same_upload item (b\<lparr>up_sha256 := h\<rparr>) = same_upload item b"
  "same_upload item (b\<lparr>up_finalized_at := ft\<rparr>) = same_upload item b"
  by (simp_all add: same_upload_def touch_session_def)

lemma set_active_chunk_same:
  assumes "active_chunk_indices item = []" "up_active_chunks b = up_active_chunks (set_active_chunk i True item)"
  shows "active_chunk_indices (set_active_chunk i False b) = []"
proof -
  have "set (active_chunk_indices b) \<subseteq> {i}"
    using assms by (auto simp: set_active_chunk_def active_chunk_indices_def Let_def)
  then have "filter (\<lambda>j. j \<noteq> i) (active_chunk_indices b) = []" by (auto simp: filter_empty_conv)
  then show ?thesis by (simp add: set_active_chunk_def Let_def active_chunk_indices_def)
qed

lemma set_active_chunk_frame [simp]:
  "up_status (set_active_chunk i a item) = up_status item" "up_received_chunks (set_active_chunk i a item) = up_received_chunks item"
  "up_expected_bytes (set_active_chunk i a item) = up_expected_bytes item" "up_chunk_size_bytes (set_active_chunk i a item) = up_chunk_size_bytes item"
  "up_total_chunks (set_active_chunk i a item) = up_total_chunks item" "up_received_chunk_count (set_active_chunk i a item) = up_received_chunk_count item"
  "up_bytes_received (set_active_chunk i a item) = up_bytes_received item"
  by (simp_all add: set_active_chunk_def Let_def)

lemma touch_session_frame [simp]:
  "up_status (touch_session t n item) = up_status item" "up_received_chunks (touch_session t n item) = up_received_chunks item"
  "up_expected_bytes (touch_session t n item) = up_expected_bytes item" "up_chunk_size_bytes (touch_session t n item) = up_chunk_size_bytes item"
  "up_total_chunks (touch_session t n item) = up_total_chunks item" "up_received_chunk_count (touch_session t n item) = up_received_chunk_count item"
  "up_bytes_received (touch_session t n item) = up_bytes_received item" "up_active_chunks (touch_session t n item) = up_active_chunks item"
  by (simp_all add: touch_session_def)

lemma terminal_simps [simp]:
  "Completed \<in> TERMINAL_UPLOAD_SESSION_STATUSES" "Cancelled \<in> TERMINAL_UPLOAD_SESSION_STATUSES" "Expired \<in> TERMINAL_UPLOAD_SESSION_STATUSES"
  "Failed \<in> TERMINAL_UPLOAD_SESSION_STATUSES" "Uploading \<notin> TERMINAL_UPLOAD_SESSION_STATUSES" "Created \<notin> TERMINAL_UPLOAD_SESSION_STATUSES"
  by (simp_all add: TERMINAL_UPLOAD_SESSION_STATUSES_def)

lemma store_checks_state:
  "store_checks sha now rq s = (r, s') \<Longrightarrow>
     s' = s \<or> (isl r \<and> same_upload (us_item s) (us_item s') \<and> us_staging s' = us_staging s \<and> us_canonical s' = us_canonical s
       \<and> up_status (us_item s') \<in> TERMINAL_UPLOAD_SESSION_STATUSES)"
  unfolding store_checks_def Let_def fail_item_def
  by (simp split: if_split_asm sum.split_asm bool.split_asm) auto

lemma store_checks_ok:
  assumes "store_checks sha now rq s = (Inr (len, declared), s')"
  shows "s' = s \<and> len = expected_length (us_item s) (cq_index rq) \<and> 0 \<le> cq_index rq \<and> cq_index rq < up_total_chunks (us_item s)
    \<and> up_status (us_item s) \<notin> TERMINAL_UPLOAD_SESSION_STATUSES"
  using assms unfolding store_checks_def Let_def
  by (simp split: if_split_asm sum.split_asm bool.split_asm add: res_simps not_less not_le) auto

lemma part_not_chunk: "suffix ''.part'' name \<Longrightarrow> name \<noteq> chunk_name i"
  by (auto simp: chunk_name_def suffix_def append_eq_append_conv2 append_eq_Cons_conv Cons_eq_append_conv)

lemma dict_set_key_set: "fst ` set (dict_set k v d) = insert k (fst ` set d)"
  unfolding set_map[symmetric] dict_set_keys by (simp add: insert_absorb)

lemma dir_ok_temp:
  assumes "dir_ok F cs received dir"
  shows "dir_ok F cs received (dict_set (temp_name rq) data dir)"
proof -
  have "suffix ''.part'' (temp_name rq)" by (simp add: temp_name_def suffix_def)
  then show ?thesis using assms part_not_chunk[of "temp_name rq", THEN not_sym] unfolding dir_ok_def dict_set_key_set
    by (auto simp: dict_set_get)
qed

lemma dir_ok_new:
  assumes "dir_ok F cs received dir" "received_ok sha F cs received" "0 \<le> i"
  shows "dir_ok F cs (dict_set i m received) (dict_set (chunk_name i) (file_chunk F cs i) dir)"
proof -
  have inj: "chunk_name j = chunk_name i \<longleftrightarrow> j = i" if "j \<in> fst ` set received" for j
    using that assms(2,3) chunk_name_inj[of j i] by (auto simp: received_ok_def)
  show ?thesis unfolding dir_ok_def dict_set_key_set using assms(1) inj by (auto simp: dir_ok_def dict_set_get)
qed

lemma expected_length_chunk:
  assumes "upload_shape F cs item" "0 < cs" "0 < length F" "0 \<le> i" "i < chunk_count (int (length F)) cs"
  shows "expected_length item i = int (length (file_chunk F cs i))"
  using assms length_file_chunk(1)[OF assms(2-5)] by (simp add: upload_shape_def expected_length_def)

lemma known_chunk_file:
  assumes "dir_ok F cs received dir" "received_ok sha F cs received" "0 \<le> i" "map_of dir (chunk_name i) = Some old"
  shows "old = file_chunk F cs i" "map_of received i = Some (chunk_meta_of sha F cs i)"
proof -
  have "chunk_name i \<in> fst ` set dir" using assms(4) by (metis (no_types) imageI map_of_SomeD fst_conv)
  then have "(\<exists>j \<in> fst ` set received. chunk_name i = chunk_name j) \<or> suffix ''.part'' (chunk_name i)" using assms(1) unfolding dir_ok_def by blast
  then obtain j where j: "j \<in> fst ` set received" "chunk_name i = chunk_name j" using part_not_chunk[of "chunk_name i" i] by blast
  then have i: "i = j" using assms(2,3) chunk_name_inj by (auto simp: received_ok_def)
  then show "old = file_chunk F cs i" using assms(1,4) j(1) by (auto simp: dir_ok_def)
  have "map_of received i \<noteq> None" unfolding map_of_eq_None_iff using j(1) i by simp
  then show "map_of received i = Some (chunk_meta_of sha F cs i)" using assms(2) by (auto simp: received_ok_def dest: map_of_SomeD)
qed

definition stored_state :: "(bytes \<Rightarrow> string) \<Rightarrow> upload_settings \<Rightarrow> int \<Rightarrow> bytes \<Rightarrow> int \<Rightarrow> int \<Rightarrow> directory \<Rightarrow> upload_state \<Rightarrow> upload_state" where
  "stored_state sha cfg now F cs i dir s = (let c = file_chunk F cs i in
     (with_dir (dict_set (chunk_name i) c dir) s)\<lparr>us_item := merge_chunk (set_ttl cfg) now i (int (length c)) (sha c) (Some Uploading) (us_item s)\<rparr>)"

lemma write_chunk_effect:
  assumes ok: "chunks_dir (us_staging s) = Some dir" "dir_ok F cs received dir" "received_ok sha F cs received" "up_received_chunks (us_item s) = received"
    and rq: "honest F cs rq" "cq_index rq = i" "0 \<le> i" "len = int (length (file_chunk F cs i))"
    and w: "write_chunk sha cfg now rq len declared s = (r, s')"
  shows "s' = with_dir dir s \<or> s' = with_dir (dict_set (temp_name rq) (concat (cq_blobs rq)) dir) s
    \<or> s' = stored_state sha cfg now F cs i dir s"
proof (cases "receive len [] (cq_blobs rq)")
  case (Inr data)
  then have data: "data = concat (cq_blobs rq)" using receive_data by fastforce
  have "prefix data (file_chunk F cs i)" using rq(1,2) by (simp add: honest_def data)
  then obtain zs where "file_chunk F cs i = data @ zs" by (auto simp: prefix_def)
  then have full: "data = file_chunk F cs i" if "int (length data) = len" using that rq(4) by simp
  show ?thesis
  proof (cases "map_of dir (chunk_name i)")
    case (Some old)
    note known = known_chunk_file[OF ok(2,3) rq(3) Some]
    have "existing_chunk sha cfg now i data old (with_dir dir s) = (Inr (), with_dir dir s)" if "int (length data) = len"
      using known(2) full[OF that] ok(4) by (simp add: existing_chunk_def with_dir_def chunk_meta_of_def)
    then show ?thesis using w Inr Some data ok(1) rq(2) by (simp add: write_chunk_def Let_def split: if_split_asm)
  next
    case None
    have "move_chunk cfg now rq dir data (sha data) (with_dir dir s) = (Inr (), stored_state sha cfg now F cs i dir s)" if "int (length data) = len"
      using full[OF that] rq(1,2) by (simp add: move_chunk_def record_chunk_def honest_def stored_state_def with_dir_def Let_def)
    then show ?thesis using w Inr None data ok(1) rq(2) by (simp add: write_chunk_def Let_def split: if_split_asm)
  qed
qed (use w ok(1) in \<open>simp add: write_chunk_def Let_def\<close>)

lemma received_ok_new:
  assumes "received_ok sha F cs received" "0 \<le> i" "i < chunk_count (int (length F)) cs"
  shows "received_ok sha F cs (dict_set i (chunk_meta_of sha F cs i) received)"
proof -
  have "set (dict_set k v d) \<subseteq> insert (k, v) (set d)" for k :: int and v :: chunk_meta and d by (induction d) (auto split: if_splits)
  then show ?thesis using assms dict_set_distinct[of received i "chunk_meta_of sha F cs i"] unfolding received_ok_def by blast
qed

lemma store_inv:
  assumes inv: "upload_inv sha F cs s" and pos: "0 < cs" "0 < length F" and hon: "honest F cs rq"
    and st: "store_memory_upload_chunk_stream sha cfg now rq s = (r, s')"
  shows "upload_inv sha F cs s'"
proof (cases "store_checks sha now rq s")
  case (Pair q t)
  show ?thesis
  proof (cases q)
    case (Inl e)
    then have s': "s' = t" using st Pair by (simp add: store_memory_upload_chunk_stream_def act_bind_def)
    show ?thesis using store_checks_state[OF Pair] inv unfolding s'
      by (auto intro: upload_inv_cong[OF inv])
  next
    case (Inr ld)
    obtain len declared where ld: "ld = (len, declared)" by (cases ld)
    let ?i = "cq_index rq" and ?item = "us_item s"
    have c: "t = s" "len = expected_length ?item ?i" "0 \<le> ?i" "?i < up_total_chunks ?item" "up_status ?item \<notin> TERMINAL_UPLOAD_SESSION_STATUSES"
      using store_checks_ok Pair Inr ld by blast+
    obtain dir where dir: "chunks_dir (us_staging s) = Some dir" "session_root_exists (us_staging s)" "dir_ok F cs (up_received_chunks ?item) dir"
      and rec: "received_ok sha F cs (up_received_chunks ?item)" "upload_shape F cs ?item" "active_chunk_indices ?item = []"
      and can: "us_canonical s = None \<or> us_canonical s = Some F"
      using inv c(5) by (auto simp: upload_inv_def Let_def split: option.splits)
    have i: "?i < chunk_count (int (length F)) cs" using c(4) rec(2) by (simp add: upload_shape_def)
    have len: "len = int (length (file_chunk F cs ?i))" using expected_length_chunk[OF rec(2) pos c(3) i] c(2) by simp
    show ?thesis
    proof (cases "s' = s")
      case False
      define s1 where "s1 = s\<lparr>us_item := set_active_chunk ?i True ?item\<rparr>"
      obtain w where w: "write_chunk sha cfg now rq len declared s1 = (fst w, snd w)" "s' = (snd w)\<lparr>us_item := set_active_chunk ?i False (us_item (snd w))\<rparr>"
        using st Pair Inr ld c(1) False
        by (auto simp: store_memory_upload_chunk_stream_def act_bind_def locked_store_def s1_def Let_def case_prod_unfold split: if_splits)
      have "snd w = with_dir dir s1 \<or> snd w = with_dir (dict_set (temp_name rq) (concat (cq_blobs rq)) dir) s1 \<or> snd w = stored_state sha cfg now F cs ?i dir s1"
        by (rule write_chunk_effect[OF _ dir(3) rec(1) _ hon refl c(3) len w(1)]) (simp_all add: s1_def dir(1))
      moreover have "active_chunk_indices (us_item s') = []"
        unfolding w(2) using calculation by (auto intro!: set_active_chunk_same[OF rec(3)] simp: with_dir_def stored_state_def Let_def merge_chunk_def s1_def)
      ultimately show ?thesis using inv dir rec can w(2) dir_ok_temp[OF dir(3), of rq] dir_ok_new[OF dir(3) rec(1) c(3)] received_ok_new[OF rec(1) c(3) i]
        by (auto simp: upload_inv_def Let_def s1_def with_dir_def stored_state_def merge_chunk_def upload_shape_def chunk_meta_of_def)
    qed (use inv in simp)
  qed
qed

subsection \<open>Finalization\<close>

text \<open>A partial correctness triple with a postcondition for exceptions.\<close>

definition valid :: "('s \<Rightarrow> bool) \<Rightarrow> ('s, 'a) act \<Rightarrow> ('a \<Rightarrow> 's \<Rightarrow> bool) \<Rightarrow> ('s \<Rightarrow> bool) \<Rightarrow> bool" where
  "valid P m Q E \<longleftrightarrow> (\<forall>s. P s \<longrightarrow> (case m s of (Inl _, s') \<Rightarrow> E s' | (Inr x, s') \<Rightarrow> Q x s'))"

lemma valid_bind: "valid P m R E \<Longrightarrow> (\<And>x. valid (R x) (f x) Q E) \<Longrightarrow> valid P (act_bind m f) Q E"
  by (fastforce simp: valid_def act_bind_def split: prod.splits sum.splits)

lemma valid_seq: "valid P m R E \<Longrightarrow> (\<And>x. valid (R x) k Q E) \<Longrightarrow> valid P (act_seq m k) Q E"
  unfolding act_seq_def by (rule valid_bind)

lemma valid_if: "(c \<Longrightarrow> valid P a Q E) \<Longrightarrow> (\<not> c \<Longrightarrow> valid P b Q E) \<Longrightarrow> valid P (if c then a else b) Q E"
  by simp

definition complete :: "bytes \<Rightarrow> int \<Rightarrow> upload_state \<Rightarrow> bool" where
  "complete F cs s \<longleftrightarrow> chunks_dir (us_staging s) \<noteq> None
     \<and> {0..chunk_count (int (length F)) cs - 1} \<subseteq> fst ` set (up_received_chunks (us_item s))"

lemma int_length_concat: "int (length (concat xss)) = sum_list (map (int \<circ> length) xss)"
  by (induction xss) simp_all

lemma complete_files:
  assumes "upload_inv sha F cs s" "complete F cs s" "0 < cs" "0 < length F"
  shows "map (chunk_file s) [0..chunk_count (int (length F)) cs - 1] = map (Some \<circ> file_chunk F cs) [0..chunk_count (int (length F)) cs - 1]"
    and "up_bytes_received (us_item s) = int (length F)" and "up_received_chunk_count (us_item s) = chunk_count (int (length F)) cs"
proof -
  let ?n = "chunk_count (int (length F)) cs" and ?rec = "up_received_chunks (us_item s)"
  have r: "received_ok sha F cs ?rec" "up_bytes_received (us_item s) = sum_list (map (meta_size \<circ> snd) ?rec)"
    "up_received_chunk_count (us_item s) = int (length ?rec)" using assms(1) by (simp_all add: upload_inv_def Let_def)
  show "map (chunk_file s) [0..?n - 1] = map (Some \<circ> file_chunk F cs) [0..?n - 1]"
    using assms(1,2) by (auto simp: upload_inv_def Let_def complete_def chunk_file_def dir_ok_def split: option.splits)
  have "set (map fst ?rec) = {0..?n - 1}" using assms(2) r(1) by (fastforce simp: complete_def received_ok_def)
  then have m: "mset (map fst ?rec) = mset [0..?n - 1]" using r(1) by (intro set_eq_iff_mset_eq_distinct[THEN iffD1]) (simp_all add: received_ok_def)
  then have "length ?rec = length [0..?n - 1]" by (metis length_map mset_eq_length)
  then show "up_received_chunk_count (us_item s) = ?n" using r(3) chunk_count_bounds(1)[OF assms(3), of "int (length F)"] assms(4) by simp
  have "map (meta_size \<circ> snd) ?rec = map (\<lambda>i. int (length (file_chunk F cs i))) (map fst ?rec)"
    using r(1) by (auto simp: received_ok_def chunk_meta_of_def)
  then have "sum_list (map (meta_size \<circ> snd) ?rec) = sum_list (map (\<lambda>i. int (length (file_chunk F cs i))) [0..?n - 1])"
    using m by (metis mset_map sum_mset_sum_list)
  also have "\<dots> = int (length (concat (map (file_chunk F cs) [0..?n - 1])))" by (simp add: int_length_concat comp_def)
  finally show "up_bytes_received (us_item s) = int (length F)" using r(2) concat_chunks[OF assms(3,4) refl] by simp
qed

end
