(* ===== verification/Chunk_Sessions.thy ===== *)
theory Chunk_Sessions
  imports Chunk_Properties
begin

section \<open>Chunked uploads: whole sessions\<close>

text \<open>
  Finalization keeps the invariant and stores the client's file; the invariant in every state a
  session can reach; and the progress that a request with a whole chunk makes.
\<close>

subsection \<open>The staging directory of a session is healthy\<close>

lemma disk_index_chunk: "0 \<le> i \<Longrightarrow> disk_index (chunk_name i) \<in> {None, Some i}"
proof (cases "length (padded i) \<le> 4300")
  case False
  have "py_strip (padded i) = padded i" "numeral_digits False (padded i) = Some (padded i)"
    using padded_digits[of i] by (simp_all add: py_strip_digits numeral_digits_ascii)
  moreover have "hd (padded i) \<noteq> CHR ''-''" "hd (padded i) \<noteq> CHR ''+''"
    using padded_digits(1)[of i] hd_in_set[OF padded_digits(2)[of i]] by (auto simp: ascii_digit_def dest!: bspec)
  ultimately have "py_int (padded i) = None" using False by (simp add: py_int_def Let_def)
  then show ?thesis using py_split_digits[OF padded_digits(1), of i "''chunk''"] by (simp add: disk_index_def chunk_name_def suffix_def)
qed (simp add: disk_index_chunk_name)

lemma dir_ok_indices:
  assumes "dir_ok F cs received dir" "received_ok sha F cs received" "name \<in> fst ` set dir" "disk_index name = Some i"
  shows "i \<in> fst ` set received"
proof -
  have "(\<exists>j \<in> fst ` set received. name = chunk_name j) \<or> suffix ''.part'' name" using assms(1,3) unfolding dir_ok_def by blast
  moreover have "\<not> suffix ''.part'' name" using assms(4) by (auto simp: disk_index_def split: if_splits)
  ultimately obtain j where j: "j \<in> fst ` set received" "name = chunk_name j" by blast
  then have "0 \<le> j" using assms(2) by (auto simp: received_ok_def)
  then show ?thesis using disk_index_chunk[of j] j assms(4) by simp
qed

lemma recorded_chunk:
  assumes "dir_ok F cs received dir" "received_ok sha F cs received" "im \<in> set received"
  shows "map_of dir (chunk_name (fst im)) = Some (file_chunk F cs (fst im))" "snd im = chunk_meta_of sha F cs (fst im)"
  using assms by (force simp: dir_ok_def, force simp: received_ok_def)

lemma dir_healthy:
  assumes "dir_ok F cs received dir" "received_ok sha F cs received"
  shows "integrity_status (classify_dir sha dir received verify) = STAGING_HEALTHY"
proof -
  note rc = recorded_chunk[OF assms]
  have "filter (\<lambda>im. map_of dir (chunk_name (fst im)) = None) (sort_key fst received) = []"
    by (simp add: filter_empty_conv rc)
  moreover have size: "\<not> wrong_size dir im" if "im \<in> set received" for im using rc[OF that] by (simp add: wrong_size_def chunk_meta_of_def)
  then have "filter (wrong_size dir) (sort_key fst received) = []" by (simp add: filter_empty_conv)
  moreover have "\<not> wrong_hash sha dir im" if "im \<in> set received" for im using rc[OF that] by (simp add: wrong_hash_def chunk_meta_of_def)
  then have "filter (wrong_hash sha dir) (sort_key fst received) = []" by (simp add: filter_empty_conv)
  moreover have "filter (\<lambda>i. i \<notin> fst ` set received) (sort (List.map_filter disk_index (map fst dir))) = []"
    unfolding filter_empty_conv set_sort using dir_ok_indices[OF assms] by (fastforce simp: List.map_filter_def)
  ultimately show ?thesis by (simp add: classify_dir_def Let_def)
qed

lemma upload_healthy:
  assumes "upload_inv sha F cs s" "chunks_dir (us_staging s) \<noteq> None"
  shows "integrity_status (check_staging sha verify s) = STAGING_HEALTHY"
  using assms dir_healthy by (auto simp: upload_inv_def Let_def check_staging_def classify_chunk_staging_def split: option.splits)

subsection \<open>Finalization\<close>

lemma concat_blobs_read:
  "(\<And>i. i \<in> set is \<Longrightarrow> read i = Inr (b i)) \<Longrightarrow>
   concat_blobs read is target n = Inr (target @ concat (map b is), n + int (length (concat (map b is))))"
  by (induction "is" arbitrary: target n) (simp_all add: Let_def concat_read_blobs length_read_blobs BLOCK_SIZE_def)

definition ready :: "(bytes \<Rightarrow> string) \<Rightarrow> bytes \<Rightarrow> int \<Rightarrow> upload_state \<Rightarrow> bool" where
  "ready sha F cs s \<longleftrightarrow> upload_inv sha F cs s \<and> complete F cs s"

lemma ready_assembles:
  assumes "ready sha F cs s" "0 < cs" "0 < length F" "n = chunk_count (int (length F)) cs"
  shows "concat_and_hash sha (\<lambda>i. read_chunk (memory_hooks cfg now env) i s) [0..n - 1] = Inr (F, int (length F), sha F)"
proof -
  have "map (chunk_file s) [0..n - 1] = map (Some \<circ> file_chunk F cs) [0..n - 1]"
    using complete_files(1)[of sha F cs s] assms by (simp add: ready_def)
  then have "read_chunk (memory_hooks cfg now env) i s = Inr (file_chunk F cs i)" if "i \<in> set [0..n - 1]" for i
    using that unfolding map_eq_conv by (simp add: memory_hooks_def)
  from concat_blobs_read[OF this, of "[0..n - 1]"] show ?thesis
    using concat_chunks[OF assms(2-4)] by (simp add: concat_and_hash_def)
qed

lemma ready_cong:
  assumes "ready sha F cs s" "same_upload (us_item s) (us_item s')" "us_staging s' = us_staging s" "us_canonical s' \<in> {us_canonical s, Some F}"
  shows "ready sha F cs s'"
proof -
  have d: "chunks_dir (us_staging s') \<noteq> None" using assms(1,3) by (simp add: ready_def complete_def)
  have "upload_inv sha F cs s'" by (rule upload_inv_cong[of sha F cs s]) (use assms d in \<open>auto simp: ready_def\<close>)
  then show ?thesis using assms d by (simp add: ready_def complete_def same_upload_def)
qed

lemma ready_finalizing:
  assumes "ready sha F cs s" "0 < cs" "0 < length F"
  shows "same_upload (us_item s) (us_item s\<lparr>up_bytes_received := int (length F), up_received_chunk_count := chunk_count (int (length F)) cs\<rparr>)"
  using complete_files(2,3)[of sha F cs s] assms by (simp add: same_upload_def ready_def)

text \<open>The hooks of memory uploads: before the promotion the session stays ready, and a failure leaves the invariant.\<close>

lemma hooks_ready:
  fixes cfg now sha F cs and env :: "('d, 'r) finalize_env"
  assumes "0 < cs" "0 < length F" "proper_env env" "n = chunk_count (int (length F)) cs"
  defines "h \<equiv> memory_hooks cfg now env" and "R \<equiv> ready sha F cs" and "I \<equiv> upload_inv sha F cs"
  shows "valid R (on_verifying h) (\<lambda>_. R) I" "valid R (find_duplicate h c (int (length F))) (\<lambda>_. R) I"
    "valid R (on_duplicate h d) (\<lambda>_ _. False) I" "valid R (on_finalizing h (int (length F)) n) (\<lambda>_. R) I"
    "valid R (promote h F) (\<lambda>_ s. R s \<and> us_canonical s = Some F) I"
    "valid (\<lambda>s. R s \<and> us_canonical s = Some F) (post_promote h) (\<lambda>_ s. R s \<and> us_canonical s = Some F) I"
    "valid (\<lambda>s. R s \<and> us_canonical s = Some F) (register h) (\<lambda>_ s. R s \<and> us_canonical s = Some F \<and> up_status (us_item s) = Completed) I"
    "valid (\<lambda>s. R s \<and> us_canonical s = Some F \<and> up_status (us_item s) = Completed) (cleanup h)
       (\<lambda>_ s. I s \<and> us_canonical s = Some F \<and> up_status (us_item s) = Completed) I"
proof -
  have RI: "I s" if "R s" for s using that by (simp add: R_def I_def ready_def)
  show "valid R (on_verifying h) (\<lambda>_. R) I" "valid R (find_duplicate h c (int (length F))) (\<lambda>_. R) I"
    by (clarsimp simp: valid_def h_def memory_hooks_def set_item_def R_def; erule ready_cong; simp)+
  show "valid R (on_duplicate h d) (\<lambda>_ _. False) I"
    by (clarsimp simp: valid_def h_def memory_hooks_def refuse_duplicate_def I_def R_def ready_def; erule upload_inv_cong; simp)
  have fin: "R (s\<lparr>us_item := touch_session t now (us_item s\<lparr>up_status := Finalizing, up_finalized_at := Some now,
      up_bytes_received := int (length F), up_received_chunk_count := n\<rparr>)\<rparr>)" if "R s" for s t
  proof -
    have "same_upload (us_item s) (us_item s\<lparr>up_bytes_received := int (length F), up_received_chunk_count := n\<rparr>)"
      unfolding assms(4) using ready_finalizing[OF that[unfolded R_def] assms(1,2)] .
    then show ?thesis using that unfolding R_def by (elim ready_cong) (simp_all add: same_upload_def)
  qed
  show "valid R (on_finalizing h (int (length F)) n) (\<lambda>_. R) I"
    using fin by (simp add: valid_def h_def memory_hooks_def set_item_def)
  show "valid R (promote h F) (\<lambda>_ s. R s \<and> us_canonical s = Some F) I"
    using RI by (clarsimp simp: valid_def h_def memory_hooks_def raise_if_def act_raise_def R_def split: option.split; elim ready_cong; simp)
  show "valid (\<lambda>s. R s \<and> us_canonical s = Some F) (post_promote h) (\<lambda>_ s. R s \<and> us_canonical s = Some F) I"
    using RI by (auto simp: valid_def h_def memory_hooks_def raise_if_def act_raise_def act_return_def split: option.split)
  have reg: "R (s\<lparr>us_item := snd (fe_register env (us_item s))\<rparr>)" if "R s" for s
    using that unfolding R_def by (rule ready_cong) (use assms(3) in \<open>simp_all add: proper_env_def\<close>)
  show "valid (\<lambda>s. R s \<and> us_canonical s = Some F) (register h) (\<lambda>_ s. R s \<and> us_canonical s = Some F \<and> up_status (us_item s) = Completed) I"
    unfolding valid_def
  proof (intro allI impI)
    fix s assume s: "R s \<and> us_canonical s = Some F"
    obtain r item where f: "fe_register env (us_item s) = (r, item)" by fastforce
    have "isl r \<or> up_status item = Completed" using assms(3) f unfolding proper_env_def by (metis fst_conv snd_conv)
    then show "case register h s of (Inl _, t) \<Rightarrow> I t | (Inr _, t) \<Rightarrow> R t \<and> us_canonical t = Some F \<and> up_status (us_item t) = Completed"
      using reg[of s] s f RI by (auto simp: h_def memory_hooks_def split: sum.split)
  qed
  show "valid (\<lambda>s. R s \<and> us_canonical s = Some F \<and> up_status (us_item s) = Completed) (cleanup h)
       (\<lambda>_ s. I s \<and> us_canonical s = Some F \<and> up_status (us_item s) = Completed) I"
    by (clarsimp simp: valid_def h_def memory_hooks_def I_def R_def ready_def; erule upload_inv_cong; simp)
qed


lemma valid_pure: "(p \<Longrightarrow> valid P m Q E) \<Longrightarrow> valid (\<lambda>s. p \<and> P s) m Q E"
  by (simp add: valid_def)

lemma valid_raise: "(\<And>s. P s \<Longrightarrow> E s) \<Longrightarrow> valid P (act_raise e) Q E"
  by (simp add: valid_def act_raise_def)

lemma valid_return: "(\<And>s. P s \<Longrightarrow> Q x s) \<Longrightarrow> valid P (act_return x) Q E"
  by (simp add: valid_def act_return_def)

lemma finalize_core_valid:
  fixes sha F cs and env :: "('d, 'r) finalize_env"
  assumes pos: "0 < cs" "0 < length F" and env: "proper_env env"
    and config: "total_chunks config = chunk_count (int (length F)) cs" "expected_bytes config = int (length F)"
  defines "R \<equiv> ready sha F cs" and "I \<equiv> upload_inv sha F cs"
  shows "valid R (run_chunked_finalize sha config (memory_hooks cfg now env))
    (\<lambda>_ s. I s \<and> us_canonical s = Some F \<and> up_status (us_item s) = Completed) I"
proof -
  let ?h = "memory_hooks cfg now env" and ?n = "int (length F)"
  note hooks = hooks_ready[OF pos env config(1), where cfg = cfg and now = now and sha = sha, folded R_def I_def]
  have RI: "I s" if "R s" for s using that by (simp add: R_def I_def ready_def)
  have read: "valid R (\<lambda>s. (concat_and_hash sha (\<lambda>i. read_chunk ?h i s) [0..total_chunks config - 1], s))
      (\<lambda>x s. x = (F, ?n, sha F) \<and> R s) I"
    by (simp add: valid_def R_def ready_assembles[OF _ pos config(1)])
  have dup: "valid R (case d of Some d' \<Rightarrow> on_duplicate ?h d' | None \<Rightarrow> act_return ()) (\<lambda>_. R) I" for d
  proof (cases d)
    case (Some d')
    then show ?thesis using hooks(3)[of d'] by (auto simp: valid_def split: sum.splits prod.splits)
  qed (simp add: valid_return)
  have tail: "valid R (act_seq (on_finalizing ?h ?n (total_chunks config)) (act_seq (promote ?h F) (act_seq (post_promote ?h) (act_bind (register ?h)
      (\<lambda>registered. act_seq (cleanup ?h) (act_return (sha F, ?n, registered)))))))
      (\<lambda>_ s. I s \<and> us_canonical s = Some F \<and> up_status (us_item s) = Completed) I"
    by (rule valid_seq[OF hooks(4)] valid_seq[OF hooks(5)] valid_seq[OF hooks(6)] valid_bind[OF hooks(7)] valid_seq[OF hooks(8)] valid_return)+ simp
  show ?thesis unfolding run_chunked_finalize_def
    by (rule valid_seq[OF hooks(1)], rule valid_bind[OF read], rule valid_pure)
      (auto intro!: valid_raise RI valid_bind[OF hooks(2)] valid_seq[OF dup] tail simp: config(2))
qed

lemma finalize_checks_ok:
  assumes "finalize_checks sha env requested s = (Inr expected, s')"
  shows "s' = s" "{0..up_total_chunks (us_item s) - 1} \<subseteq> fst ` set (up_received_chunks (us_item s))"
    "integrity_status (check_staging sha True s) = STAGING_HEALTHY"
  using assms by (auto simp: finalize_checks_def Let_def list_ex_iff res_simps fail_item_def split: if_splits)

lemma finalize_checks_error:
  assumes "finalize_checks sha env requested s = (Inl e, s')"
  shows "s' = s \<or> s' = fail_item ''MEMORY_UPLOAD_STAGING_INCONSISTENT'' s"
  using assms by (auto simp: finalize_checks_def Let_def split: if_splits)

lemma fail_item_inv: "upload_inv sha F cs s \<Longrightarrow> upload_inv sha F cs (fail_item code s)"
  by (erule upload_inv_cong) (simp_all add: fail_item_def)

lemma healthy_dir: "integrity_status (check_staging sha True s) = STAGING_HEALTHY \<Longrightarrow> chunks_dir (us_staging s) \<noteq> None"
  by (auto simp: check_staging_def classify_chunk_staging_def staging_missing_def staging_status_defs split: if_splits option.splits)

lemma finalize_handler_inv:
  assumes "upload_inv sha F cs s"
  shows "\<exists>e'. fst (finalize_handler cfg now e s) = Inl e'" "upload_inv sha F cs (snd (finalize_handler cfg now e s))"
proof -
  have touch: "upload_inv sha F cs (t\<lparr>us_item := touch_session ttl now (us_item t)\<rparr>)" if "upload_inv sha F cs t" for t ttl
    using that by (rule upload_inv_cong) (use that in \<open>auto simp: upload_inv_def Let_def split: option.splits\<close>)
  show "\<exists>e'. fst (finalize_handler cfg now e s) = Inl e'" by (simp add: finalize_handler_def Let_def split: upload_error.split)
  show "upload_inv sha F cs (snd (finalize_handler cfg now e s))"
    using touch[OF fail_item_inv[OF assms]] assms by (simp add: finalize_handler_def Let_def split: upload_error.split)
qed

lemma finalize_effect:
  assumes pos: "0 < cs" "0 < length F" and env: "proper_env env" and inv: "upload_inv sha F cs s"
    and f: "finalize_memory_upload_session sha cfg now env requested s = (r, s')"
  shows "upload_inv sha F cs s' \<and> (\<forall>x. r = Inr (Some x) \<longrightarrow> us_canonical s' = Some F \<and> up_status (us_item s') = Completed)"
proof (cases "up_status (us_item s) \<in> {Completed, Cancelled, Expired, Inconsistent}")
  case False
  show ?thesis
  proof (cases "finalize_checks sha env requested s")
    case (Pair q t)
    show ?thesis
    proof (cases q)
      case (Inl e)
      then show ?thesis using f False Pair finalize_checks_error[of sha env requested s e t] inv fail_item_inv[OF inv]
        by (auto simp: finalize_memory_upload_session_def act_bind_def)
    next
      case (Inr expected)
      note c = finalize_checks_ok[OF Pair[unfolded Inr]]
      have sh: "upload_shape F cs (us_item s)" using inv by (simp add: upload_inv_def Let_def)
      have rdy: "ready sha F cs s" using inv c(2) healthy_dir[OF c(3)] sh by (simp add: ready_def complete_def upload_shape_def)
      define config where "config = \<lparr>total_chunks = up_total_chunks (us_item s), expected_bytes = up_expected_bytes (us_item s), expected_sha256 = expected\<rparr>"
      have "total_chunks config = chunk_count (int (length F)) cs" "expected_bytes config = int (length F)" using sh by (simp_all add: config_def upload_shape_def)
      note core = finalize_core_valid[OF pos env this, where cfg = cfg and now = now and sha = sha, unfolded valid_def, rule_format, OF rdy]
      obtain y t' where run: "run_chunked_finalize sha config (memory_hooks cfg now env) s = (y, t')" by fastforce
      show ?thesis
      proof (cases y)
        case (Inl e)
        then have "(r, s') = finalize_handler cfg now e t'" using f False Pair \<open>q = Inr expected\<close> c(1) run
          by (simp add: finalize_memory_upload_session_def act_bind_def config_def Let_def)
        moreover have "upload_inv sha F cs t'" using core run Inl by simp
        note finalize_handler_inv[OF this, of cfg now e]
        ultimately show ?thesis by (metis fst_conv snd_conv sum.distinct(1))
      next
        case (Inr z)
        then show ?thesis using f False Pair \<open>q = Inr expected\<close> c(1) core run
          by (auto simp: finalize_memory_upload_session_def act_bind_def config_def Let_def split: prod.splits)
      qed
    qed
  qed
qed (use f inv in \<open>auto simp: finalize_memory_upload_session_def\<close>)

subsection \<open>Every state a session can reach\<close>

lemma cancel_inv:
  assumes "upload_inv sha F cs s" "cancel_memory_upload_session cfg now s = (r, s')"
  shows "upload_inv sha F cs s'"
proof -
  have "s' = s \<or> s' = s\<lparr>us_item := touch_session (set_ttl cfg) now (us_item s\<lparr>up_status := Cancelled, up_retryable := False,
      up_failure_code := Some ''MEMORY_UPLOAD_CANCELLED''\<rparr>), us_staging := cleanup_session_storage (us_staging s)\<rparr>"
    using assms(2) by (auto simp: cancel_memory_upload_session_def Let_def split: if_splits)
  then show ?thesis using assms(1) by (elim disjE) (simp, erule upload_inv_cong, simp_all)
qed

lemma expire_inv:
  assumes "upload_inv sha F cs s"
  shows "upload_inv sha F cs (expire_session_if_due age updated now s)"
  using assms unfolding expire_session_if_due_def Let_def
  by (split if_split, intro conjI impI; (split if_split, intro conjI impI)?; elim upload_inv_cong)
    (auto simp: upload_inv_def Let_def split: option.splits)

lemma step_inv:
  assumes "upload_step sha cfg F cs env s s'" "upload_inv sha F cs s" "0 < cs" "0 < length F" "proper_env env"
  shows "upload_inv sha F cs s'"
  using assms
proof (cases rule: upload_step.cases)
  case (finalize now e p c requested f)
  have "proper_env (env\<lparr>fe_capacity_ok := c, fe_promote_error := p, fe_secure_error := e\<rparr>)" using assms(5) by (simp add: proper_env_def)
  from finalize_effect[OF assms(3,4) this assms(2) finalize] show ?thesis by simp
qed (use assms store_inv cancel_inv in \<open>blast+\<close>, use expire_inv in simp)

lemma reachable_inv:
  assumes "(upload_step sha cfg F cs env)\<^sup>*\<^sup>* s s'" "upload_inv sha F cs s" "0 < cs" "0 < length F" "proper_env env"
  shows "upload_inv sha F cs s'"
  using assms(1) by (induction rule: rtranclp_induct) (use assms step_inv in \<open>blast+\<close>)

lemma created:
  assumes "create_memory_upload_session cfg now rq = Inr s0" "rq_size rq = int (length F)" "0 \<le> set_chunk_min cfg"
  defines "cs \<equiv> up_chunk_size_bytes (us_item s0)"
  shows "upload_inv sha F cs s0" "0 < cs" "0 < length F"
    "\<exists>mode sha256. us_item s0 = new_upload cfg now rq mode sha256 \<and> sanitize_sha256 (rq_sha256 rq) = Inr sha256"
proof -
  obtain mode sha256 where s0: "s0 = \<lparr>us_item = new_upload cfg now rq mode sha256, us_staging = \<lparr>session_root_exists = True, chunks_dir = Some []\<rparr>, us_canonical = None\<rparr>"
    and sz: "0 < rq_size rq" and sh: "sanitize_sha256 (rq_sha256 rq) = Inr sha256"
    using assms(1) by (auto simp: create_memory_upload_session_def Let_def res_simps split: if_splits)
  have "0 < chunk_size_for cfg mode (rq_size rq)" 
    using sz assms(3) by (simp add: chunk_size_for_def int_or_default_def less_max_iff_disj)
  then show "0 < cs" by (simp add: cs_def s0 new_upload_def Let_def touch_session_def)
  show "0 < length F" using sz assms(2) by simp
  show "upload_inv sha F cs s0" using assms(2)
    by (simp add: upload_inv_def Let_def cs_def s0 new_upload_def touch_session_def upload_shape_def received_ok_def dir_ok_def active_chunk_indices_def)
  show "\<exists>mode sha256. us_item s0 = new_upload cfg now rq mode sha256 \<and> sanitize_sha256 (rq_sha256 rq) = Inr sha256" using s0 sh by auto
qed

subsection \<open>An honest upload succeeds\<close>

text \<open>A request that carries a whole chunk, with headers that say so or say nothing.\<close>

definition full_request :: "(bytes \<Rightarrow> string) \<Rightarrow> bytes \<Rightarrow> int \<Rightarrow> string \<Rightarrow> chunk_request \<Rightarrow> bool" where
  "full_request sha F cs mode rq \<longleftrightarrow> (let c = file_chunk F cs (cq_index rq) in
     0 \<le> cq_index rq \<and> cq_index rq < chunk_count (int (length F)) cs \<and> concat (cq_blobs rq) = c \<and> \<not> cq_aborted rq \<and> cq_vanished rq = None
   \<and> cq_mode rq = mode \<and> (case cq_content_length rq of Some t \<Rightarrow> py_int t = Some (int (length c)) | None \<Rightarrow> True)
   \<and> sanitize_sha256 (cq_chunk_sha256 rq) \<in> {Inr None, Inr (Some (sha c))})"

definition alive :: "int \<Rightarrow> string \<Rightarrow> string option \<Rightarrow> upload_state \<Rightarrow> bool" where
  "alive t0 mode declared s \<longleftrightarrow> up_status (us_item s) \<in> {Created, Uploading} \<and> (\<exists>e. up_expires_at (us_item s) = Some e \<and> t0 + 300 \<le> e)
     \<and> session_upload_mode (us_item s) = mode \<and> up_expected_sha256 (us_item s) = declared"

lemma alive_dir:
  assumes "upload_inv sha F cs s" "alive t0 mode h s"
  shows "chunks_dir (us_staging s) \<noteq> None"
  using assms by (auto simp: upload_inv_def Let_def alive_def TERMINAL_UPLOAD_SESSION_STATUSES_def split: option.splits)

lemma store_checks_pass:
  assumes inv: "upload_inv sha F cs s" and pos: "0 < cs" "0 < length F" and al: "alive t0 mode h s" and rq: "full_request sha F cs mode rq" and t: "now \<le> t0 + 300"
  obtains declared where "store_checks sha now rq s = (Inr (int (length (file_chunk F cs (cq_index rq))), declared), s)"
    "declared \<in> {None, Some (sha (file_chunk F cs (cq_index rq)))}"
proof -
  have sh: "upload_shape F cs (us_item s)" using inv by (simp add: upload_inv_def Let_def)
  have i: "0 \<le> cq_index rq" "cq_index rq < chunk_count (int (length F)) cs" using rq by (simp_all add: full_request_def Let_def)
  have st: "up_status (us_item s) \<notin> TERMINAL_UPLOAD_SESSION_STATUSES" "up_status (us_item s) \<notin> {Verifying, Finalizing}"
    using al by (auto simp: alive_def TERMINAL_UPLOAD_SESSION_STATUSES_def)
  obtain e where e: "up_expires_at (us_item s) = Some e" "\<not> e < now" using al t by (auto simp: alive_def)
  obtain declared where d: "sanitize_sha256 (cq_chunk_sha256 rq) = Inr declared" "declared \<in> {None, Some (sha (file_chunk F cs (cq_index rq)))}"
    using rq by (auto simp: full_request_def Let_def)
  have "store_checks sha now rq s = (Inr (int (length (file_chunk F cs (cq_index rq))), declared), s)"
    using st e d(1) i rq al upload_healthy[OF inv alive_dir[OF inv al]] expected_length_chunk[OF sh pos i] sh
    by (cases "cq_content_length rq") (auto simp: store_checks_def Let_def full_request_def alive_def upload_shape_def)
  then show thesis using that d(2) by blast
qed

lemma store_progress:
  assumes inv: "upload_inv sha F cs s" and pos: "0 < cs" "0 < length F" and al: "alive t0 mode h s" and rq: "full_request sha F cs mode rq"
    and t: "t0 \<le> now" "now \<le> t0 + 300"
    and st: "store_memory_upload_chunk_stream sha cfg now rq s = (r, s')"
  shows "r = Inr () \<and> alive t0 mode h s' \<and> fst ` set (up_received_chunks (us_item s')) = insert (cq_index rq) (fst ` set (up_received_chunks (us_item s)))"
proof -
  let ?i = "cq_index rq" and ?item = "us_item s" and ?c = "file_chunk F cs (cq_index rq)"
  obtain declared where ck: "store_checks sha now rq s = (Inr (int (length ?c), declared), s)" and d: "declared \<in> {None, Some (sha ?c)}"
    using store_checks_pass[OF inv pos al rq t(2)] by blast
  obtain dir where dir: "chunks_dir (us_staging s) = Some dir" "dir_ok F cs (up_received_chunks ?item) dir" and rec: "received_ok sha F cs (up_received_chunks ?item)"
    using inv alive_dir[OF inv al] by (auto simp: upload_inv_def Let_def)
  show ?thesis
  proof (cases "?i \<in> fst ` set (up_received_chunks ?item)")
    case True
    then obtain m where m: "map_of (up_received_chunks ?item) ?i = Some m" by (metis (no_types) map_of_eq_None_iff option.exhaust)
    then have "m = chunk_meta_of sha F cs ?i" "chunk_file s ?i = Some ?c"
      using recorded_chunk[OF dir(2) rec map_of_SomeD[OF m]] dir(1) by (simp_all add: chunk_file_def)
    then have "already_stored s ?i (int (length ?c)) declared" using m d by (auto simp: already_stored_def chunk_meta_of_def)
    then have "r = Inr ()" "s' = s" using st ck by (simp_all add: store_memory_upload_chunk_stream_def act_bind_def)
    then show ?thesis using al True by auto
  next
    case False
    have nofile: "map_of dir (chunk_name ?i) = None"
    proof (cases "map_of dir (chunk_name ?i)")
      case (Some old)
      have "0 \<le> ?i" using rq by (simp add: full_request_def Let_def)
      from known_chunk_file(2)[OF dir(2) rec this Some] show ?thesis using False by (metis map_of_eq_None_iff option.distinct(1))
    qed
    define s1 where "s1 = s\<lparr>us_item := set_active_chunk ?i True ?item\<rparr>"
    have none: "map_of (up_received_chunks ?item) ?i = None" using False by (simp add: map_of_eq_None_iff)
    have "receive (int (length ?c)) [] (cq_blobs rq) = Inr ?c" using receive_ok[of "[]" "cq_blobs rq" "int (length ?c)"] rq by (simp add: full_request_def Let_def)
    then have w: "write_chunk sha cfg now rq (int (length ?c)) declared s1 = (Inr (), stored_state sha cfg now F cs ?i dir s1)"
      using d nofile dir(1) rq
      by (auto simp: write_chunk_def Let_def s1_def full_request_def move_chunk_def record_chunk_def stored_state_def with_dir_def)
    have "up_status ?item \<notin> TERMINAL_UPLOAD_SESSION_STATUSES \<union> {Verifying, Finalizing}" using al by (auto simp: alive_def TERMINAL_UPLOAD_SESSION_STATUSES_def)
    then have "r = Inr ()" and s': "s' = (stored_state sha cfg now F cs ?i dir s1)\<lparr>us_item := set_active_chunk ?i False (us_item (stored_state sha cfg now F cs ?i dir s1))\<rparr>"
      using st ck none w by (simp_all add: store_memory_upload_chunk_stream_def act_bind_def already_stored_def locked_store_def flip: s1_def)
    moreover have "alive t0 mode h s'" using al t(1)
      by (auto simp: s' alive_def stored_state_def Let_def merge_chunk_def touch_session_def set_active_chunk_def s1_def session_upload_mode_def)
    ultimately show ?thesis by (simp add: stored_state_def Let_def merge_chunk_def s1_def dict_set_key_set)
  qed
qed

lemma full_request_honest: "full_request sha F cs mode rq \<Longrightarrow> honest F cs rq"
  by (simp add: full_request_def honest_def Let_def)

definition run_requests :: "(bytes \<Rightarrow> string) \<Rightarrow> upload_settings \<Rightarrow> (int \<times> chunk_request) list \<Rightarrow> upload_state \<Rightarrow> upload_state" where
  "run_requests sha cfg qs s = foldl (\<lambda>s (now, rq). snd (store_memory_upload_chunk_stream sha cfg now rq s)) s qs"

lemma run_requests_progress:
  assumes "upload_inv sha F cs s" "0 < cs" "0 < length F" "alive t0 mode h s"
    and "\<forall>(now, rq) \<in> set qs. t0 \<le> now \<and> now \<le> t0 + 300 \<and> full_request sha F cs mode rq"
  shows "upload_inv sha F cs (run_requests sha cfg qs s) \<and> alive t0 mode h (run_requests sha cfg qs s)
    \<and> fst ` set (up_received_chunks (us_item (run_requests sha cfg qs s))) = fst ` set (up_received_chunks (us_item s)) \<union> (cq_index \<circ> snd) ` set qs"
  using assms(1,4,5)
proof (induction qs arbitrary: s)
  case (Cons q qs)
  obtain now rq where q: "q = (now, rq)" by fastforce
  obtain r s' where st: "store_memory_upload_chunk_stream sha cfg now rq s = (r, s')" by fastforce
  have rq: "full_request sha F cs mode rq" "t0 \<le> now" "now \<le> t0 + 300" using Cons.prems(3) q by auto
  note p = store_progress[OF Cons.prems(1) assms(2,3) Cons.prems(2) rq st]
  have "upload_inv sha F cs s'" using store_inv[OF Cons.prems(1) assms(2,3) full_request_honest[OF rq(1)] st] .
  from Cons.IH[OF this] p Cons.prems(3) have "upload_inv sha F cs (run_requests sha cfg qs s') \<and> alive t0 mode h (run_requests sha cfg qs s')
    \<and> fst ` set (up_received_chunks (us_item (run_requests sha cfg qs s'))) = fst ` set (up_received_chunks (us_item s')) \<union> (cq_index \<circ> snd) ` set qs" by simp
  moreover have "run_requests sha cfg (q # qs) s = run_requests sha cfg qs s'" by (simp add: run_requests_def q st)
  ultimately show ?case using p q by auto
qed (simp add: run_requests_def)

end
