(* ===== verification/Upload_Storage.thy ===== *)
theory Upload_Storage
  imports Chunk_Sessions
begin

section \<open>Upload sessions: tables and storage\<close>

text \<open>
  \<^verbatim>\<open>services/memory/upload_sessions.py\<close> and \<^verbatim>\<open>services/upload_shared/storage_scan.py\<close>: what the
  table of sessions and the staging area say together. Reservations and the capacity snapshot,
  the import of a file that is staged already, the reconciliation report, the administrative
  cleanup and the periodic one. The staging area is the list of the entries of its root, none
  of them a symbolic link; a removal that fails leaves its entry as it is.
\<close>

record upload_row =
  row_id :: string
  row_case :: string
  row_staging_name :: string
  row_updated_at :: int
  row_evidence_exists :: bool
  row_item :: memory_upload

record staged_entry =
  entry_name :: string
  entry_is_dir :: bool
  entry_mtime :: int
  entry_chunks :: "directory option"
  entry_other :: "int list"

subsection \<open>Reservations and capacity\<close>

definition active_row :: "upload_row \<Rightarrow> bool" where
  "active_row row \<longleftrightarrow> up_status (row_item row) \<in> ACTIVE_UPLOAD_SESSION_STATUSES"

definition not_excluded :: "string option \<Rightarrow> upload_row \<Rightarrow> bool" where
  "not_excluded exclude row \<longleftrightarrow> (truthy exclude \<longrightarrow> row_id row \<noteq> the exclude)"

definition active_upload_reservation_bytes :: "string option \<Rightarrow> upload_row list \<Rightarrow> int" where
  "active_upload_reservation_bytes exclude rows =
     sum_list (map (up_expected_bytes \<circ> row_item) (filter (\<lambda>row. active_row row \<and> not_excluded exclude row) rows))"

text \<open>The evidence of the table of evidence: the case and the size of every memory dump.\<close>

definition case_memory_usage_bytes :: "string \<Rightarrow> string option \<Rightarrow> (string \<times> int) list \<Rightarrow> upload_row list \<Rightarrow> int" where
  "case_memory_usage_bytes case_id exclude evidence rows =
     sum_list (map snd (filter (\<lambda>(c, _). c = case_id) evidence))
     + sum_list (map (up_expected_bytes \<circ> row_item) (filter (\<lambda>row. row_case row = case_id \<and> active_row row \<and> not_excluded exclude row) rows))"

record capacity =
  cap_staging :: int
  cap_final :: int
  cap_output :: int
  cap_same_fs :: bool
  cap_min_free :: int
  cap_plugin_output :: int

definition staging_required :: "capacity \<Rightarrow> int \<Rightarrow> int \<Rightarrow> int" where
  "staging_required c sz reserved = sz + cap_min_free c + reserved"

definition final_required :: "capacity \<Rightarrow> int \<Rightarrow> int \<Rightarrow> int" where
  "final_required c sz reserved = (if \<not> cap_same_fs c then sz else 0) + cap_min_free c + reserved"

definition output_required :: "capacity \<Rightarrow> int" where
  "output_required c = max (cap_plugin_output c) (256 * 1024 * 1024) + cap_min_free c"

definition capacity_snapshot :: "capacity \<Rightarrow> int \<Rightarrow> string option \<Rightarrow> upload_row list \<Rightarrow> int \<times> bool" where
  "capacity_snapshot c sz exclude rows =
    (let reserved = active_upload_reservation_bytes exclude rows;
         s = staging_required c sz reserved; f = final_required c sz reserved; out = output_required c in
     (max s (max f out), cap_staging c \<ge> s \<and> cap_final c \<ge> f \<and> cap_output c \<ge> out))"

subsection \<open>The import of a staged file\<close>

record import_request =
  im_enabled :: bool
  im_size :: int
  im_stat :: "int option"
  im_content :: "upload_error + bytes"
  im_extension_ok :: "upload_error + string"
  im_host :: string
  im_conflict :: bool
  im_case_usage :: int
  im_capacity_ok :: bool
  im_sha256 :: "string option"

definition import_checks :: "upload_settings \<Rightarrow> import_request \<Rightarrow> upload_error + string option" where
  "import_checks cfg rq = (let err = (\<lambda>c. Inl (UploadSessionError c)) in
     if \<not> im_enabled rq then err ''MEMORY_UPLOAD_DISABLED''
     else if im_size rq \<le> 0 then err ''MEMORY_UPLOAD_INVALID_SIZE''
     else if im_stat rq = None then err ''MEMORY_UPLOAD_STAGED_FILE_MISSING''
     else if im_stat rq \<noteq> Some (im_size rq) then err ''MEMORY_UPLOAD_STAGED_SIZE_MISMATCH''
     else if im_size rq > set_max_bytes cfg then err ''MEMORY_UPLOAD_TOO_LARGE''
     else res_bind (im_extension_ok rq) (\<lambda>_.
     if py_strip (im_host rq) = [] then err ''MEMORY_UPLOAD_HOST_REQUIRED''
     else if im_conflict rq then err ''MEMORY_UPLOAD_ACTIVE_SESSION_EXISTS''
     else if im_case_usage rq + im_size rq > set_quota cfg then err ''MEMORY_UPLOAD_CASE_QUOTA_EXCEEDED''
     else if \<not> im_capacity_ok rq then err ''MEMORY_UPLOAD_INSUFFICIENT_SPACE''
     else sanitize_sha256 (im_sha256 rq)))"

definition imported_row :: "import_request \<Rightarrow> int \<Rightarrow> string option \<Rightarrow> memory_upload" where
  "imported_row rq now sha256 =
     \<lparr>up_status = Uploading, up_expected_bytes = im_size rq, up_expected_sha256 = sha256, up_sha256 = None, up_chunk_size_bytes = im_size rq,
      up_total_chunks = 1, up_received_chunk_count = 0, up_bytes_received = 0, up_mode = ''wizard_staged'',
      up_received_chunks = [], up_active_chunks = [], up_failure_code = None, up_retryable = False, up_progress_at = now,
      up_expires_at = None, up_finalized_at = None\<rparr>"

definition copy_staged :: "(bytes \<Rightarrow> string) \<Rightarrow> import_request \<Rightarrow> string option \<Rightarrow> upload_error + bytes" where
  "copy_staged sha rq expected = res_bind (im_content rq) (\<lambda>content. let data = concat (read_blobs BLOCK_SIZE content) in
     if int (length data) \<noteq> im_size rq then Inl (UploadSessionError ''MEMORY_UPLOAD_INVALID_CHUNK_LENGTH'')
     else if truthy expected \<and> Some (sha data) \<noteq> expected then Inl (UploadSessionError ''MEMORY_UPLOAD_SHA256_MISMATCH'')
     else Inr data)"

text \<open>The session it leaves, if it got as far as to create one.\<close>

definition create_memory_upload_session_from_staged_file ::
    "(bytes \<Rightarrow> string) \<Rightarrow> upload_settings \<Rightarrow> int \<Rightarrow> import_request \<Rightarrow> (upload_error + unit) \<times> upload_state option" where
  "create_memory_upload_session_from_staged_file sha cfg now rq = (case import_checks cfg rq of
     Inl e \<Rightarrow> (Inl e, None)
   | Inr expected \<Rightarrow> let item = imported_row rq now expected in
     (case copy_staged sha rq expected of
        Inl e \<Rightarrow> (Inl e, Some \<lparr>us_item = item\<lparr>up_status := Failed, up_failure_code := Some ''MEMORY_UPLOAD_STAGED_IMPORT_FAILED'', up_retryable := False\<rparr>,
          us_staging = cleanup_session_storage \<lparr>session_root_exists = True, chunks_dir = Some []\<rparr>, us_canonical = None\<rparr>)
      | Inr data \<Rightarrow> (Inr (), Some \<lparr>us_item = touch_session (set_ttl cfg) now (item\<lparr>up_sha256 := Some (sha data), up_bytes_received := int (length data),
            up_received_chunk_count := 1, up_status := Uploading, up_received_chunks := [(0, \<lparr>meta_size = int (length data), meta_sha256 = sha data\<rparr>)]\<rparr>),
          us_staging = \<lparr>session_root_exists = True, chunks_dir = Some [(chunk_name 0, data)]\<rparr>, us_canonical = None\<rparr>)))"

subsection \<open>Scanning the staging area\<close>

definition directory_size :: "staged_entry \<Rightarrow> int" where
  "directory_size e = (if entry_is_dir e
     then sum_list (map (int \<circ> length \<circ> snd) (case entry_chunks e of Some d \<Rightarrow> d | None \<Rightarrow> [])) + sum_list (entry_other e) else 0)"

definition list_orphan_directories :: "staged_entry list \<Rightarrow> string set \<Rightarrow> int option \<Rightarrow> staged_entry list" where
  "list_orphan_directories entries known_names mtime_before =
     filter (\<lambda>e. entry_is_dir e \<and> entry_name e \<notin> known_names \<and> (case mtime_before of Some t \<Rightarrow> \<not> entry_mtime e > t | None \<Rightarrow> True)) entries"

definition session_root :: "staged_entry list \<Rightarrow> upload_row \<Rightarrow> staged_entry option" where
  "session_root entries row = find (\<lambda>e. entry_name e = row_staging_name row) entries"

definition row_staging :: "staged_entry list \<Rightarrow> upload_row \<Rightarrow> staging" where
  "row_staging entries row = (case session_root entries row of
     Some e \<Rightarrow> \<lparr>session_root_exists = entry_is_dir e, chunks_dir = (if entry_is_dir e then entry_chunks e else None)\<rparr>
   | None \<Rightarrow> \<lparr>session_root_exists = False, chunks_dir = None\<rparr>)"

text \<open>The options of both maintenance commands.\<close>

record maintenance_options =
  opt_case_id :: "string option"
  opt_upload_id :: "string option"
  opt_older_than_hours :: "int option"
  opt_limit :: "int option"

definition cutoff_of :: "maintenance_options \<Rightarrow> int \<Rightarrow> int option" where
  "cutoff_of opts now = map_option (\<lambda>h. now - 3600 * max 0 h) (opt_older_than_hours opts)"

definition limited :: "int option \<Rightarrow> 'a list \<Rightarrow> 'a list" where
  "limited limit xs = (case limit of Some n \<Rightarrow> take (nat (max 1 n)) xs | None \<Rightarrow> xs)"

definition select_rows :: "maintenance_options \<Rightarrow> int \<Rightarrow> upload_row list \<Rightarrow> upload_row list" where
  "select_rows opts now rows = limited (opt_limit opts) (filter (\<lambda>row.
     (truthy (opt_case_id opts) \<longrightarrow> row_case row = the (opt_case_id opts))
   \<and> (truthy (opt_upload_id opts) \<longrightarrow> row_id row = the (opt_upload_id opts))
   \<and> (case cutoff_of opts now of Some t \<Rightarrow> row_updated_at row < t | None \<Rightarrow> True)) rows)"

subsection \<open>The reconciliation report\<close>

datatype drift =
    StagingMissing string upload_status
  | EvidenceMissing string upload_status
  | ChunksDiffer string string
  | SessionMissing string

definition row_drift :: "(bytes \<Rightarrow> string) \<Rightarrow> staged_entry list \<Rightarrow> upload_row \<Rightarrow> drift list" where
  "row_drift sha entries row =
    (let item = row_item row; status = up_status item;
         integrity_status' = (if status \<noteq> Completed
           then integrity_status (classify_chunk_staging sha (row_staging entries row) (up_received_chunks item) False) else ''completed'') in
     (if status \<noteq> Completed \<and> session_root entries row = None then [StagingMissing (row_id row) status] else [])
     @ (if status = Completed \<and> \<not> row_evidence_exists row then [EvidenceMissing (row_id row) status] else [])
     @ (if status \<noteq> Completed \<and> integrity_status' \<notin> {''healthy'', ''completed''} then [ChunksDiffer (row_id row) integrity_status'] else []))"

definition reconcile_memory_upload_storage :: "(bytes \<Rightarrow> string) \<Rightarrow> maintenance_options \<Rightarrow> int \<Rightarrow> upload_row list \<Rightarrow> staged_entry list \<Rightarrow> nat \<times> drift list" where
  "reconcile_memory_upload_storage sha opts now rows entries =
    (let uploads = select_rows opts now rows in
     (length uploads, concat (map (row_drift sha entries) uploads)
       @ (if truthy (opt_upload_id opts) then []
          else map (SessionMissing \<circ> entry_name) (list_orphan_directories entries (row_staging_name ` set uploads) None))))"

subsection \<open>The administrative cleanup\<close>

record cleanup_report =
  sessions_inspected :: nat
  active_skipped :: nat
  expired_sessions :: nat
  orphan_dirs :: nat
  missing_staging :: nat
  completed_with_staging :: nat
  bytes_reclaimable :: int
  bytes_removed :: int
  cleanup_errors :: "string list"

definition skipped_row :: "upload_row \<Rightarrow> bool" where
  "skipped_row row \<longleftrightarrow> active_row row \<or> active_chunk_indices (row_item row) \<noteq> []"

definition inspect_row :: "int \<Rightarrow> staged_entry list \<Rightarrow> upload_row \<Rightarrow> cleanup_report \<times> staged_entry list \<Rightarrow> cleanup_report \<times> staged_entry list" where
  "inspect_row now entries row acc = (case acc of (rep, candidates) \<Rightarrow>
     let item = row_item row; root = session_root entries row in
     if skipped_row row then (if root \<noteq> None then rep\<lparr>active_skipped := active_skipped rep + 1\<rparr> else rep, candidates)
     else let rep1 = (if (case up_expires_at item of Some t \<Rightarrow> t < now | None \<Rightarrow> False) \<and> up_status item \<noteq> Completed
         then rep\<lparr>expired_sessions := expired_sessions rep + 1\<rparr> else rep) in
     case root of
       None \<Rightarrow> (if up_status item \<noteq> Completed then rep1\<lparr>missing_staging := missing_staging rep1 + 1\<rparr> else rep1, candidates)
     | Some e \<Rightarrow>
         if up_status item = Completed
         then (rep1\<lparr>completed_with_staging := completed_with_staging rep1 + 1, bytes_reclaimable := bytes_reclaimable rep1 + directory_size e\<rparr>, candidates @ [e])
         else if up_status item \<in> TERMINAL_UPLOAD_SESSION_STATUSES
         then (rep1\<lparr>bytes_reclaimable := bytes_reclaimable rep1 + directory_size e\<rparr>, candidates @ [e])
         else (rep1, candidates))"

definition count_orphan :: "staged_entry \<Rightarrow> cleanup_report \<times> staged_entry list \<Rightarrow> cleanup_report \<times> staged_entry list" where
  "count_orphan e acc = (case acc of (rep, candidates) \<Rightarrow>
     (rep\<lparr>orphan_dirs := orphan_dirs rep + 1, bytes_reclaimable := bytes_reclaimable rep + directory_size e\<rparr>, candidates @ [e]))"

text \<open>\<open>rmtree\<close> says whether the entry can be removed.\<close>

definition remove_candidate :: "(staged_entry \<Rightarrow> bool) \<Rightarrow> staged_entry \<Rightarrow> cleanup_report \<times> staged_entry list \<Rightarrow> cleanup_report \<times> staged_entry list" where
  "remove_candidate rmtree c acc = (case acc of (rep, entries) \<Rightarrow>
     if c \<in> set entries \<and> entry_is_dir c \<and> rmtree c
     then (rep\<lparr>bytes_removed := bytes_removed rep + directory_size c\<rparr>, filter (\<lambda>e. entry_name e \<noteq> entry_name c) entries)
     else (rep\<lparr>cleanup_errors := cleanup_errors rep @ [entry_name c]\<rparr>, entries))"

definition cleanup_candidates :: "maintenance_options \<Rightarrow> int \<Rightarrow> upload_row list \<Rightarrow> staged_entry list \<Rightarrow> cleanup_report \<times> staged_entry list" where
  "cleanup_candidates opts now rows entries =
    (let uploads = select_rows opts now rows;
         rep = \<lparr>sessions_inspected = length uploads, active_skipped = 0, expired_sessions = 0, orphan_dirs = 0, missing_staging = 0,
           completed_with_staging = 0, bytes_reclaimable = 0, bytes_removed = 0, cleanup_errors = []\<rparr>;
         inspected = fold (inspect_row now entries) uploads (rep, []);
         (rep', candidates) = (if truthy (opt_upload_id opts) then inspected
           else fold count_orphan (list_orphan_directories entries (row_staging_name ` set uploads) (cutoff_of opts now)) inspected) in
     (rep', limited (opt_limit opts) candidates))"

definition cleanup_memory_upload_staging ::
    "bool \<Rightarrow> maintenance_options \<Rightarrow> (staged_entry \<Rightarrow> bool) \<Rightarrow> int \<Rightarrow> upload_row list \<Rightarrow> staged_entry list \<Rightarrow> cleanup_report \<times> staged_entry list" where
  "cleanup_memory_upload_staging dry_run opts rmtree now rows entries =
    (case cleanup_candidates opts now rows entries of (rep, candidates) \<Rightarrow>
       if dry_run then (rep, entries) else fold (remove_candidate rmtree) candidates (rep, entries))"

subsection \<open>The periodic cleanup\<close>

definition expirable :: "int \<Rightarrow> upload_row \<Rightarrow> bool" where
  "expirable now row \<longleftrightarrow> active_row row \<and> (case up_expires_at (row_item row) of Some t \<Rightarrow> t < now | None \<Rightarrow> False)"

definition stale :: "int \<Rightarrow> int \<Rightarrow> upload_row \<Rightarrow> bool" where
  "stale age now row \<longleftrightarrow> up_status (row_item row) \<in> {Cancelled, Failed, Expired} \<and> row_updated_at row < now - max 60 (if age = 0 then 86400 else age)"

definition expire_row :: "int \<Rightarrow> upload_row \<Rightarrow> upload_row" where
  "expire_row now row = row\<lparr>row_updated_at := now, row_item := row_item row\<lparr>up_status := Expired,
     up_failure_code := Some ''MEMORY_UPLOAD_SESSION_EXPIRED'', up_retryable := False\<rparr>\<rparr>"

text \<open>The counts, the rows, and the entries with the directories of both lists removed.\<close>

definition cleanup_expired_memory_upload_sessions :: "int \<Rightarrow> nat \<Rightarrow> int \<Rightarrow> upload_row list \<Rightarrow> staged_entry list \<Rightarrow> (nat \<times> nat) \<times> upload_row list \<times> staged_entry list" where
  "cleanup_expired_memory_upload_sessions age limit now rows entries =
    (let expired = take limit (sort_key (\<lambda>row. the (up_expires_at (row_item row))) (filter (expirable now) rows));
         rows' = map (\<lambda>row. if row \<in> set expired then expire_row now row else row) rows;
         purged = take limit (sort_key row_updated_at (filter (stale age now) rows'));
         gone = row_staging_name ` set (expired @ purged) in
     ((length expired, length purged), rows', filter (\<lambda>e. \<not> (entry_is_dir e \<and> entry_name e \<in> gone)) entries))"

end
