(* ===== verification/Chunk_Outcomes.thy ===== *)
theory Chunk_Outcomes
  imports Chunk_Sessions
begin

section \<open>Chunked uploads: outcomes\<close>

text \<open>
  What a finalization that returns has stored, with and without an honest client; that an
  honest upload is finalized; and two behaviours that differ from what the code says of itself.
\<close>

subsection \<open>Checksums\<close>

lemma hex_not_space: "c \<in> set ''0123456789abcdef'' \<Longrightarrow> \<not> py_isspace c"
  by (auto simp: py_isspace_def)

lemma hex_lower: "list_all (\<lambda>c. c \<in> set ''0123456789abcdef'') h \<Longrightarrow> py_lower h = h"
  by (induction h) (auto simp: py_lower_def lower_char_def)

lemma hex_strip: "list_all (\<lambda>c. c \<in> set ''0123456789abcdef'') h \<Longrightarrow> py_strip h = h"
proof -
  assume a: "list_all (\<lambda>c. c \<in> set ''0123456789abcdef'') h"
  have d: "dropWhile py_isspace xs = xs" if "list_all (\<lambda>c. c \<in> set ''0123456789abcdef'') xs" for xs
    using that hex_not_space by (cases xs) auto
  show ?thesis using d[of h] d[of "rev h"] a by (simp add: py_strip_def py_rstrip_def)
qed

lemma sanitize_again: "sanitize_sha256 v = Inr h \<Longrightarrow> sanitize_sha256 h = Inr h"
proof (cases h)
  case (Some x)
  assume "sanitize_sha256 v = Inr h"
  then have "length x = 64" "list_all (\<lambda>c. c \<in> set ''0123456789abcdef'') x" using Some by (simp_all add: sanitize_sha256_def Let_def split: if_split_asm)
  then show ?thesis using Some hex_lower[of x] hex_strip[of x] by (auto simp: sanitize_sha256_def Let_def)
qed (simp add: sanitize_sha256_def Let_def py_strip_def py_rstrip_def py_lower_def)

subsection \<open>Finalization succeeds\<close>

text \<open>Nothing outside the session stands in the way of the file \<open>F\<close>.\<close>

definition accepting :: "(bytes \<Rightarrow> string) \<Rightarrow> bytes \<Rightarrow> ('d, 'r) finalize_env \<Rightarrow> bool" where
  "accepting sha F env \<longleftrightarrow> fe_capacity_ok env \<and> fe_duplicate env (sha F) = None \<and> fe_promote_error env = None \<and> fe_secure_error env = None
     \<and> (\<forall>item. \<not> isl (fst (fe_register env item)))"


lemma core_succeeds:
  assumes "ready sha F cs s" "0 < cs" "0 < length F" "accepting sha F env"
    and "total_chunks config = chunk_count (int (length F)) cs" "expected_bytes config = int (length F)"
    and "expected_sha256 config \<in> {None, Some (sha F)}"
  shows "\<exists>r s'. run_chunked_finalize sha config (memory_hooks cfg now env) s = (Inr r, s')"
proof -
  let ?h = "memory_hooks cfg now env"
  obtain s1 where s1: "on_verifying ?h s = (Inr (), s1)" by (simp add: memory_hooks_def set_item_def)
  have "ready sha F cs s1" by (rule ready_cong[OF assms(1)]) (use s1 in \<open>auto simp: memory_hooks_def set_item_def\<close>)
  from ready_assembles[OF this assms(2,3,5), of cfg now env]
  have read: "concat_and_hash sha (\<lambda>i. read_chunk ?h i s1) [0..total_chunks config - 1] = Inr (F, int (length F), sha F)" .
  have reg: "\<exists>x t. register ?h u = (Inr x, t)" for u
  proof -
    obtain r item where f: "fe_register env (us_item u) = (r, item)" by fastforce
    then have "\<not> isl r" using assms(4) unfolding accepting_def by (metis fst_conv)
    then show ?thesis using f by (cases r) (simp_all add: memory_hooks_def)
  qed
  have "\<not> (truthy (expected_sha256 config) \<and> Some (sha F) \<noteq> expected_sha256 config)" using assms(7) by (auto simp: truthy_def)
  moreover have "find_duplicate ?h (sha F) (int (length F)) u = (Inr None, u\<lparr>us_item := us_item u\<lparr>up_sha256 := Some (sha F)\<rparr>\<rparr>)"
    "promote ?h F u = (Inr (), u\<lparr>us_canonical := Some F\<rparr>)" "post_promote ?h u = (Inr (), u)" for u
    using assms(4) by (simp_all add: memory_hooks_def accepting_def raise_if_def act_return_def)
  moreover obtain s2 where "on_finalizing ?h (int (length F)) (total_chunks config) (s1\<lparr>us_item := us_item s1\<lparr>up_sha256 := Some (sha F)\<rparr>\<rparr>) = (Inr (), s2)"
    by (simp add: memory_hooks_def set_item_def)
  moreover obtain x s3 where "register ?h (s2\<lparr>us_canonical := Some F\<rparr>) = (Inr x, s3)" using reg by blast
  moreover obtain s4 where "cleanup ?h s3 = (Inr (), s4)" by (simp add: memory_hooks_def)
  ultimately have "run_chunked_finalize sha config ?h s = (Inr (sha F, int (length F), x), s4)"
    using s1 read assms(6) by (auto simp: run_chunked_finalize_def act_seq_def act_bind_def act_return_def)
  then show ?thesis by blast
qed

lemma finalize_succeeds:
  assumes inv: "upload_inv sha F cs s" and pos: "0 < cs" "0 < length F" and al: "alive t0 mode h s"
    and all: "{0..chunk_count (int (length F)) cs - 1} \<subseteq> fst ` set (up_received_chunks (us_item s))"
    and env: "accepting sha F env" "proper_env env" and h: "sanitize_sha256 h = Inr h" "h \<in> {None, Some (sha F)}"
  shows "\<exists>r s'. finalize_memory_upload_session sha cfg now env None s = (Inr (Some r), s') \<and> us_canonical s' = Some F \<and> up_status (us_item s') = Completed"
proof -
  have sh: "upload_shape F cs (us_item s)" "active_chunk_indices (us_item s) = []" using inv by (simp_all add: upload_inv_def Let_def)
  have dir: "chunks_dir (us_staging s) \<noteq> None" by (rule alive_dir[OF inv al])
  define config where "config = \<lparr>total_chunks = up_total_chunks (us_item s), expected_bytes = up_expected_bytes (us_item s), expected_sha256 = h\<rparr>"
  have ck: "finalize_checks sha env None s = (Inr h, s)" using upload_healthy[OF inv dir] sh al all env(1) h
    by (auto simp: finalize_checks_def Let_def truthy_def alive_def accepting_def list_ex_iff upload_shape_def)
  have "ready sha F cs s" using inv all dir by (simp add: ready_def complete_def)
  then obtain r s' where "run_chunked_finalize sha config (memory_hooks cfg now env) s = (Inr r, s')"
    using core_succeeds[OF _ pos env(1), of s config cfg now] sh h(2) by (auto simp: config_def upload_shape_def)
  moreover have "up_status (us_item s) \<notin> {Completed, Cancelled, Expired, Inconsistent}" using al by (auto simp: alive_def)
  ultimately have "finalize_memory_upload_session sha cfg now env None s = (Inr (Some (snd (snd r))), s')"
    using ck by (simp add: finalize_memory_upload_session_def act_bind_def config_def case_prod_unfold)
  with finalize_effect[OF pos env(2) inv this] show ?thesis by blast
qed

subsection \<open>Properties\<close>

text \<open>C15: an upload stores exactly the client's file. In every state that requests with prefixes of
  the file's chunks, in any order and number, broken off or repeated, and finalizations,
  cancellations and cleanups lead to, the evidence file is absent or the client's file; when a
  finalization returns a registered evidence, it is the client's file.\<close>

theorem uploaded_file_exact:
  assumes "create_memory_upload_session cfg t0 rq = Inr s0" "rq_size rq = int (length F)" "0 \<le> set_chunk_min cfg"
    and "proper_env env" "(upload_step sha cfg F (up_chunk_size_bytes (us_item s0)) env)\<^sup>*\<^sup>* s0 s"
  shows "us_canonical s \<in> {None, Some F}
    \<and> (finalize_memory_upload_session sha cfg now env requested s = (Inr (Some r), s') \<longrightarrow> us_canonical s' = Some F \<and> up_status (us_item s') = Completed)"
proof -
  note c = created[OF assms(1-3)]
  note inv = reachable_inv[OF assms(5) c(1-3) assms(4)]
  show ?thesis using inv finalize_effect[OF c(2,3) assms(4) inv, of cfg now requested] by (auto simp: upload_inv_def Let_def)
qed

text \<open>C16: an honest upload is finalized. When the requests carry whole chunks, in any order and as
  often as the client likes, cover every index and arrive before the session can expire, and
  nothing outside the session stands in the way, the finalization returns the registered
  evidence and the evidence file is the client's file.\<close>

theorem upload_succeeds:
  assumes "create_memory_upload_session cfg t0 rq = Inr s0" "rq_size rq = int (length F)" "0 \<le> set_chunk_min cfg"
    and "\<forall>(now, q) \<in> set qs. t0 \<le> now \<and> now \<le> t0 + 300
      \<and> full_request sha F (up_chunk_size_bytes (us_item s0)) (session_upload_mode (us_item s0)) q"
    and "{0..up_total_chunks (us_item s0) - 1} \<subseteq> (cq_index \<circ> snd) ` set qs"
    and "accepting sha F env" "proper_env env" "sanitize_sha256 (rq_sha256 rq) \<in> {Inr None, Inr (Some (sha F))}"
  shows "\<exists>r s'. finalize_memory_upload_session sha cfg now env None (run_requests sha cfg qs s0) = (Inr (Some r), s')
    \<and> us_canonical s' = Some F \<and> up_status (us_item s') = Completed"
proof -
  note c = created[OF assms(1-3)]
  obtain mode h where h: "us_item s0 = new_upload cfg t0 rq mode h" "sanitize_sha256 (rq_sha256 rq) = Inr h" using c(4) by blast
  have "alive t0 (session_upload_mode (us_item s0)) h s0" by (simp add: alive_def h(1) new_upload_def Let_def touch_session_def)
  note p = run_requests_progress[OF c(1-3) this assms(4), of cfg]
  have "up_total_chunks (us_item s0) = chunk_count (int (length F)) (up_chunk_size_bytes (us_item s0))"
    using c(1) by (simp add: upload_inv_def Let_def upload_shape_def)
  then have all: "{0..chunk_count (int (length F)) (up_chunk_size_bytes (us_item s0)) - 1}
      \<subseteq> fst ` set (up_received_chunks (us_item (run_requests sha cfg qs s0)))" using p assms(5) by auto
  have "h \<in> {None, Some (sha F)}" using assms(8) h(2) by auto
  from finalize_succeeds[OF p[THEN conjunct1] c(2,3) p[THEN conjunct2, THEN conjunct1] all assms(6,7) sanitize_again[OF h(2)] this]
  show ?thesis .
qed


subsection \<open>Concrete uploads\<close>

text \<open>Three bytes in chunks of two, the second chunk first.\<close>

definition example_config :: upload_settings where
  "example_config = \<lparr>set_ttl = 600, set_max_bytes = 100, set_quota = 1000, set_threshold = 50, set_chunk_min = 2, set_chunk_max = 2, set_chunk_size = 2\<rparr>"

definition example_create :: create_request where
  "example_create = \<lparr>rq_enabled = None, rq_size = 3, rq_extension_ok = Inr ''raw'', rq_host = ''host'', rq_conflict = False, rq_case_usage = Some 10,
     rq_capacity_ok = True, rq_mode = ''resumable'', rq_fingerprint = None, rq_sha256 = None\<rparr>"

definition example_chunk :: "int \<Rightarrow> bytes list \<Rightarrow> chunk_request" where
  "example_chunk i blobs = \<lparr>cq_index = i, cq_blobs = blobs, cq_aborted = False, cq_content_length = None, cq_chunk_sha256 = None,
     cq_mode = ''resumable'', cq_uuid = ''u'', cq_vanished = None\<rparr>"

definition example_requests :: "(int \<times> chunk_request) list" where
  "example_requests = [(5, example_chunk 1 [[3]]), (7, example_chunk 0 [[1], [2]])]"

definition example_env :: "(unit, unit) finalize_env" where
  "example_env = \<lparr>fe_capacity_ok = True, fe_duplicate = (\<lambda>_. None), fe_promote_error = None, fe_secure_error = None,
     fe_register = (\<lambda>item. (Inr (), item\<lparr>up_status := Completed\<rparr>))\<rparr>"

definition example_sha :: "bytes \<Rightarrow> string" where
  "example_sha b = nat_digits (length b)"

definition example_state :: upload_state where
  "example_state = projr (create_memory_upload_session example_config 0 example_create)"

definition example_stored :: upload_state where
  "example_stored = run_requests example_sha example_config example_requests example_state"

lemma example_created: "create_memory_upload_session example_config 0 example_create = Inr example_state"
  by code_simp

lemma example_row:
  "up_chunk_size_bytes (us_item example_state) = 2" "up_total_chunks (us_item example_state) = 2" "session_upload_mode (us_item example_state) = ''resumable''"
  "up_status (us_item example_state) = Created" "up_expires_at (us_item example_state) = Some 600" "up_expected_sha256 (us_item example_state) = None"
  by code_simp+

lemma example_env_ok: "accepting example_sha F example_env" "proper_env example_env"
  by (simp_all add: accepting_def proper_env_def example_env_def)

lemma example_full: "\<forall>(now, q) \<in> set example_requests. 0 \<le> now \<and> now \<le> 0 + 300 \<and> full_request example_sha [1, 2, 3] 2 ''resumable'' q"
  by (simp add: example_requests_def example_chunk_def full_request_def Let_def chunk_count_def file_chunk_def sanitize_sha256_def
    py_strip_def py_rstrip_def py_lower_def)

lemma run_requests_reachable:
  assumes "\<forall>(now, q) \<in> set qs. honest F cs q"
  shows "(upload_step sha cfg F cs env)\<^sup>*\<^sup>* s (run_requests sha cfg qs s)"
  using assms
proof (induction qs arbitrary: s)
  case (Cons q qs)
  obtain now rq where q: "q = (now, rq)" by fastforce
  have "upload_step sha cfg F cs env s (snd (store_memory_upload_chunk_stream sha cfg now rq s))"
    by (rule upload_step.store[of F cs rq sha cfg now _ "fst (store_memory_upload_chunk_stream sha cfg now rq s)"]) (use Cons.prems q in auto)
  with Cons show ?case by (auto simp: run_requests_def q intro: converse_rtranclp_into_rtranclp)
qed (simp add: run_requests_def)

lemma example_reachable: "(upload_step example_sha example_config [1, 2, 3] (up_chunk_size_bytes (us_item example_state)) example_env)\<^sup>*\<^sup>* example_state example_stored"
  unfolding example_stored_def example_row(1) by (rule run_requests_reachable) (use example_full full_request_honest in fastforce)


theorem uploaded_file_exact_witness: "us_canonical example_stored \<in> {None, Some [1, 2, 3]}"
  using uploaded_file_exact[OF example_created _ _ example_env_ok(2) example_reachable] by (simp add: example_create_def example_config_def)

theorem upload_succeeds_witness:
  "\<exists>r s'. finalize_memory_upload_session example_sha example_config 9 example_env None example_stored = (Inr (Some r), s') \<and> us_canonical s' = Some [1, 2, 3]"
proof -
  have "\<exists>r s'. finalize_memory_upload_session example_sha example_config 9 example_env None (run_requests example_sha example_config example_requests example_state)
      = (Inr (Some r), s') \<and> us_canonical s' = Some [1, 2, 3] \<and> up_status (us_item s') = Completed"
    by (rule upload_succeeds[OF example_created _ _ _ _ example_env_ok])
      (use example_full in \<open>auto simp: example_create_def example_config_def example_row example_requests_def example_chunk_def
        sanitize_sha256_def py_strip_def py_rstrip_def py_lower_def\<close>)
  then show ?thesis unfolding example_stored_def by blast
qed


subsection \<open>A refused duplicate is marked retryable\<close>

text \<open>
  The hook marks the session as not retryable and raises; the handler of the finalization
  catches what it raised and marks the session as retryable.
\<close>

lemma duplicate_retryable:
  "fst (refuse_duplicate cfg now s) = Inl (UploadSessionError ERR_REGISTRATION_DUPLICATE)"
  "\<not> up_retryable (us_item (snd (refuse_duplicate cfg now s)))"
  "up_retryable (us_item (snd (finalize_handler cfg now (UploadSessionError ERR_REGISTRATION_DUPLICATE) (snd (refuse_duplicate cfg now s)))))"
  by (simp_all add: refuse_duplicate_def finalize_handler_def finalize_error_def fail_item_def touch_session_def Let_def)

subsection \<open>Requests of two processes on one row\<close>

text \<open>
  The row in the database and the object each request holds of it. A request reads the row,
  changes its object and writes the metadata column as a whole; recording a received chunk
  does all of that under a lock, taking a chunk off the active ones does not.
\<close>

record shared_row =
  db_row :: memory_upload
  held :: "nat \<Rightarrow> memory_upload"

definition refresh_item :: "nat \<Rightarrow> shared_row \<Rightarrow> shared_row" where
  "refresh_item w s = s\<lparr>held := (held s)(w := db_row s)\<rparr>"

definition commit_active :: "nat \<Rightarrow> int \<Rightarrow> bool \<Rightarrow> shared_row \<Rightarrow> shared_row" where
  "commit_active w i active s = (let item = set_active_chunk i active (held s w) in
     s\<lparr>db_row := db_row s\<lparr>up_mode := up_mode item, up_received_chunks := up_received_chunks item, up_active_chunks := up_active_chunks item\<rparr>,
       held := (held s)(w := item)\<rparr>)"

definition record_chunk_received :: "upload_settings \<Rightarrow> int \<Rightarrow> nat \<Rightarrow> int \<Rightarrow> int \<Rightarrow> string \<Rightarrow> upload_status option \<Rightarrow> shared_row \<Rightarrow> shared_row" where
  "record_chunk_received cfg now w i sz sha256 status s =
    (let s1 = refresh_item w s; item = merge_chunk (set_ttl cfg) now i sz sha256 status (held s1 w) in
     s1\<lparr>db_row := item, held := (held s1)(w := item)\<rparr>)"

lemma merge_chunk_received [simp]:
  "up_received_chunks (merge_chunk ttl now i sz h st item) = dict_set i \<lparr>meta_size = sz, meta_sha256 = h\<rparr> (up_received_chunks item)"
  "up_received_chunk_count (merge_chunk ttl now i sz h st item) = int (length (dict_set i \<lparr>meta_size = sz, meta_sha256 = h\<rparr> (up_received_chunks item)))"
  by (simp_all add: merge_chunk_def Let_def split: option.split)

text \<open>What the lock gives: two recorded chunks are both there, whatever the requests held before.\<close>

lemma recorded_chunks_merge:
  assumes "i \<noteq> j"
  shows "\<exists>m. map_of (up_received_chunks (db_row (record_chunk_received cfg t' b j szj hj stj (record_chunk_received cfg t a i szi hi sti s)))) i = Some m"
  using assms by (simp add: record_chunk_received_def Let_def refresh_item_def dict_set_get)

text \<open>
  What it does not give: between the read and the write with which one request takes its chunk
  off the active ones, another request records a chunk. The write puts the old chunks back;
  only the count still has it.
\<close>

lemma recorded_chunk_lost:
  fixes s :: shared_row and a b :: nat and i j now sz :: int and h :: string and st :: "upload_status option" and cfg :: upload_settings
  assumes "map_of (up_received_chunks (db_row s)) i = None" "a \<noteq> b"
  defines "s' \<equiv> commit_active a j False (record_chunk_received cfg now b i sz h st (refresh_item a s))"
  shows "map_of (up_received_chunks (db_row s')) i = None"
    "up_received_chunk_count (db_row s') = int (length (up_received_chunks (db_row s'))) + 1"
proof -
  have r: "up_received_chunks (db_row s') = up_received_chunks (db_row s)"
    using assms(2) by (simp add: s'_def commit_active_def record_chunk_received_def refresh_item_def Let_def)
  then show "map_of (up_received_chunks (db_row s')) i = None" using assms(1) by simp
  have "length (dict_set k v d) = length d + 1" if "map_of d k = None" for k :: int and v :: chunk_meta and d
    using that by (induction d) (auto split: if_splits)
  then show "up_received_chunk_count (db_row s') = int (length (up_received_chunks (db_row s'))) + 1"
    unfolding r using assms(1) by (simp add: s'_def commit_active_def record_chunk_received_def refresh_item_def Let_def)
qed

end
