(* ===== verification/Upload_Cleanup.thy ===== *)
theory Upload_Cleanup
  imports Upload_Storage Chunk_Outcomes
begin

section \<open>Upload sessions: cleanup and import\<close>

text \<open>
  Which entries of the staging area the administrative cleanup removes, what it does to
  sessions the query did not select, what the reconciliation reports, and that a staged file
  is imported as it is.
\<close>

subsection \<open>Candidates\<close>

definition reclaimable :: "staged_entry list \<Rightarrow> upload_row \<Rightarrow> staged_entry option" where
  "reclaimable entries row =
    (if skipped_row row \<or> up_status (row_item row) \<notin> TERMINAL_UPLOAD_SESSION_STATUSES then None else session_root entries row)"

lemma inspect_row_candidates:
  "snd (inspect_row now entries row acc) = snd acc @ (case reclaimable entries row of Some e \<Rightarrow> [e] | None \<Rightarrow> [])"
  by (cases acc) (auto simp: inspect_row_def reclaimable_def Let_def split: option.split)

lemma inspect_candidates:
  "snd (fold (inspect_row now entries) rows acc) = snd acc @ List.map_filter (reclaimable entries) rows"
  by (induction rows arbitrary: acc) (simp_all add: inspect_row_candidates List.map_filter_simps split: option.split)

lemma orphan_candidates: "snd (fold count_orphan os acc) = snd acc @ os"
  by (induction os arbitrary: acc) (simp_all add: count_orphan_def split: prod.split)

lemma candidates_eq:
  "snd (cleanup_candidates opts now rows entries) = limited (opt_limit opts)
    (List.map_filter (reclaimable entries) (select_rows opts now rows)
     @ (if truthy (opt_upload_id opts) then []
        else list_orphan_directories entries (row_staging_name ` set (select_rows opts now rows)) (cutoff_of opts now)))"
  by (simp add: cleanup_candidates_def Let_def case_prod_unfold inspect_candidates orphan_candidates)

lemma set_limited: "set (limited n xs) \<subseteq> set xs"
  by (auto simp: limited_def dest: in_set_takeD split: option.split)

lemma session_root_entry: "session_root entries row = Some e \<Longrightarrow> e \<in> set entries \<and> entry_name e = row_staging_name row"
  unfolding session_root_def by (metis (mono_tags, lifting) find_Some_iff nth_mem)

lemma candidate_cases:
  assumes "c \<in> set (snd (cleanup_candidates opts now rows entries))"
  shows "c \<in> set entries"
    and "(\<exists>row \<in> set (select_rows opts now rows). \<not> skipped_row row \<and> entry_name c = row_staging_name row)
      \<or> \<not> truthy (opt_upload_id opts) \<and> entry_name c \<notin> row_staging_name ` set (select_rows opts now rows)"
proof -
  consider row where "row \<in> set (select_rows opts now rows)" "reclaimable entries row = Some c"
    | "\<not> truthy (opt_upload_id opts)" "c \<in> set (list_orphan_directories entries (row_staging_name ` set (select_rows opts now rows)) (cutoff_of opts now))"
    using assms set_limited unfolding candidates_eq by (fastforce simp: List.map_filter_def split: if_splits)
  then show "c \<in> set entries" and "(\<exists>row \<in> set (select_rows opts now rows). \<not> skipped_row row \<and> entry_name c = row_staging_name row)
      \<or> \<not> truthy (opt_upload_id opts) \<and> entry_name c \<notin> row_staging_name ` set (select_rows opts now rows)"
    by (cases; auto simp: reclaimable_def list_orphan_directories_def dest: session_root_entry split: if_splits)+
qed

subsection \<open>Removal\<close>

lemma remove_candidate_entries:
  assumes "distinct (map entry_name entries)" "set entries \<subseteq> set all" "distinct (map entry_name all)" "c \<in> set all"
  shows "snd (remove_candidate rm c (rep, entries)) = filter (\<lambda>e. \<not> (e = c \<and> entry_is_dir e \<and> rm e)) entries"
proof -
  have "entry_name e = entry_name c \<longleftrightarrow> e = c" if "e \<in> set entries" for e using that assms(2-4) by (auto simp: distinct_map inj_on_def)
  moreover have "filter (\<lambda>e. \<not> (e = c \<and> P e)) entries = entries" if "c \<notin> set entries \<or> \<not> P c" for P using that by (auto intro!: filter_True)
  ultimately show ?thesis unfolding remove_candidate_def by (auto intro!: filter_cong)
qed

lemma remove_candidates_entries:
  assumes "distinct (map entry_name all)" "set entries \<subseteq> set all" "distinct (map entry_name entries)" "set cs \<subseteq> set all"
  shows "snd (fold (remove_candidate rm) cs (rep, entries)) = filter (\<lambda>e. \<not> (e \<in> set cs \<and> entry_is_dir e \<and> rm e)) entries"
  using assms(2-4)
proof (induction cs arbitrary: rep entries)
  case (Cons c cs)
  let ?acc = "remove_candidate rm c (rep, entries)"
  have e: "snd ?acc = filter (\<lambda>e. \<not> (e = c \<and> entry_is_dir e \<and> rm e)) entries"
    using remove_candidate_entries[OF Cons.prems(2,1) assms(1)] Cons.prems(3) by simp
  have "snd (fold (remove_candidate rm) cs (fst ?acc, snd ?acc)) = filter (\<lambda>e. \<not> (e \<in> set cs \<and> entry_is_dir e \<and> rm e)) (snd ?acc)"
    using Cons.prems by (intro Cons.IH) (auto simp: e distinct_map_filter)
  also have "\<dots> = filter (\<lambda>e. \<not> (e \<in> set (c # cs) \<and> entry_is_dir e \<and> rm e)) entries" unfolding e by (auto intro!: filter_cong)
  finally show ?case by simp
qed simp

lemma cleanup_entries:
  assumes "distinct (map entry_name entries)"
  shows "snd (cleanup_memory_upload_staging False opts rm now rows entries)
    = filter (\<lambda>e. \<not> (e \<in> set (snd (cleanup_candidates opts now rows entries)) \<and> entry_is_dir e \<and> rm e)) entries"
proof -
  let ?cs = "snd (cleanup_candidates opts now rows entries)"
  have "set ?cs \<subseteq> set entries" using candidate_cases(1) by blast
  then show ?thesis using remove_candidates_entries[OF assms subset_refl assms, of ?cs rm "fst (cleanup_candidates opts now rows entries)"]
    by (simp add: cleanup_memory_upload_staging_def case_prod_unfold)
qed

text \<open>C18: the administrative cleanup keeps the staging directory of every session it inspects that
  is in an active status or still receives a chunk; when it is limited to one upload it keeps
  the directory of every other such session as well.\<close>

theorem cleanup_keeps_active:
  assumes "distinct (map entry_name entries)" "distinct (map row_staging_name rows)"
    and "row \<in> set rows" "skipped_row row" "e \<in> set entries" "entry_name e = row_staging_name row"
    and "truthy (opt_upload_id opts) \<or> row \<in> set (select_rows opts now rows)"
  shows "e \<in> set (snd (cleanup_memory_upload_staging dry_run opts rmtree now rows entries))"
proof (cases dry_run)
  case False
  have sel: "set (select_rows opts now rows) \<subseteq> set rows" using set_limited by (fastforce simp: select_rows_def)
  have same: "row' = row" if "row' \<in> set rows" "row_staging_name row' = row_staging_name row" for row'
    using that assms(2,3) by (auto simp: distinct_map inj_on_def)
  have "e \<notin> set (snd (cleanup_candidates opts now rows entries))"
    using candidate_cases(2)[of e opts now rows entries] assms(4,6,7) sel same by force
  then show ?thesis using False cleanup_entries[OF assms(1)] assms(5) by simp
qed (use assms(5) in \<open>simp add: cleanup_memory_upload_staging_def case_prod_unfold\<close>)

text \<open>
  Limited to a case, to old sessions or to a number of sessions, it takes the directory of
  every session the query left out for an orphan, and removes it: also of one that is active.
\<close>

lemma cleanup_removes_unselected:
  assumes "distinct (map entry_name entries)" "e \<in> set entries" "entry_is_dir e" "rmtree e"
    and "\<not> truthy (opt_upload_id opts)" "opt_limit opts = None" "opt_older_than_hours opts = None"
    and "entry_name e \<notin> row_staging_name ` set (select_rows opts now rows)"
  shows "e \<notin> set (snd (cleanup_memory_upload_staging False opts rmtree now rows entries))"
  using assms by (simp add: cleanup_entries candidates_eq limited_def list_orphan_directories_def cutoff_of_def)

lemma cleanup_of_case_removes_active:
  assumes "distinct (map entry_name entries)" "distinct (map row_staging_name rows)" "row \<in> set rows" "skipped_row row"
    and "e \<in> set entries" "entry_is_dir e" "entry_name e = row_staging_name row" "rmtree e" "c \<noteq> []" "row_case row \<noteq> c"
  shows "e \<notin> set (snd (cleanup_memory_upload_staging False
    \<lparr>opt_case_id = Some c, opt_upload_id = None, opt_older_than_hours = None, opt_limit = None\<rparr> rmtree now rows entries))"
proof (rule cleanup_removes_unselected[where rmtree = rmtree, OF assms(1,5,6,8)])
  show "entry_name e \<notin> row_staging_name ` set (select_rows \<lparr>opt_case_id = Some c, opt_upload_id = None, opt_older_than_hours = None, opt_limit = None\<rparr> now rows)"
    using assms(2,3,7,9,10) by (auto simp: select_rows_def limited_def truthy_def cutoff_of_def distinct_map inj_on_def)
qed (simp_all add: truthy_def)

subsection \<open>The reconciliation report\<close>

text \<open>Without options, the report names exactly the directories no session has, and says nothing when sessions and storage agree.\<close>

lemma reconcile_orphans:
  assumes "opts = \<lparr>opt_case_id = None, opt_upload_id = None, opt_older_than_hours = None, opt_limit = None\<rparr>"
  shows "SessionMissing name \<in> set (snd (reconcile_memory_upload_storage sha opts now rows entries))
    \<longleftrightarrow> name \<in> entry_name ` {e \<in> set entries. entry_is_dir e} - row_staging_name ` set rows"
proof -
  have "select_rows opts now rows = rows" by (simp add: assms select_rows_def truthy_def cutoff_of_def limited_def)
  moreover have "SessionMissing name \<notin> set (row_drift sha entries row)" for row by (simp add: row_drift_def Let_def)
  ultimately show ?thesis by (auto simp: reconcile_memory_upload_storage_def Let_def assms truthy_def list_orphan_directories_def)
qed

subsection \<open>The import of a staged file\<close>

lemma chunk_count_self: "0 < n \<Longrightarrow> chunk_count (int n) (int n) = 1"
  by (simp add: chunk_count_def zdiv_zminus1_eq_if)

lemma imported_inv:
  assumes "create_memory_upload_session_from_staged_file sha cfg now rq = (Inr (), Some s)" "im_content rq = Inr F"
  shows "upload_inv sha F (int (length F)) s" "0 < length F" "fst ` set (up_received_chunks (us_item s)) = {0}"
    "\<exists>h. sanitize_sha256 (im_sha256 rq) = Inr h \<and> h \<in> {None, Some (sha F)} \<and> alive now (session_upload_mode (us_item s)) h s"
proof -
  obtain h where h: "import_checks cfg rq = Inr h" "sanitize_sha256 (im_sha256 rq) = Inr h" and sz: "0 < im_size rq"
    using assms(1) by (auto simp: create_memory_upload_session_from_staged_file_def import_checks_def Let_def res_simps split: sum.splits if_splits)
  obtain data where d: "copy_staged sha rq h = Inr data"
    and s: "s = \<lparr>us_item = touch_session (set_ttl cfg) now ((imported_row rq now h)\<lparr>up_sha256 := Some (sha data), up_bytes_received := int (length data),
            up_received_chunk_count := 1, up_status := Uploading, up_received_chunks := [(0, \<lparr>meta_size = int (length data), meta_sha256 = sha data\<rparr>)]\<rparr>),
          us_staging = \<lparr>session_root_exists = True, chunks_dir = Some [(chunk_name 0, data)]\<rparr>, us_canonical = None\<rparr>"
    using assms(1) h(1) by (auto simp: create_memory_upload_session_from_staged_file_def Let_def split: sum.splits)
  have F: "data = F" "im_size rq = int (length F)" "truthy h \<Longrightarrow> h = Some (sha F)"
    using d assms(2) by (auto simp: copy_staged_def Let_def concat_read_blobs BLOCK_SIZE_def split: if_splits)
  have "h \<noteq> Some []" using h(2) by (auto simp: sanitize_sha256_def Let_def split: if_split_asm)
  then have "h \<in> {None, Some (sha F)}" using F(3) by (cases h) (auto simp: truthy_def)
  moreover have "alive now (session_upload_mode (us_item s)) h s" by (simp add: s alive_def touch_session_def imported_row_def)
  ultimately show "\<exists>h. sanitize_sha256 (im_sha256 rq) = Inr h \<and> h \<in> {None, Some (sha F)} \<and> alive now (session_upload_mode (us_item s)) h s" using h(2) by blast
  show "0 < length F" using F(2) sz by simp
  then have "chunk_count (int (length F)) (int (length F)) = 1" by (rule chunk_count_self)
  then show "upload_inv sha F (int (length F)) s" using F
    by (simp add: s upload_inv_def upload_shape_def received_ok_def dir_ok_def chunk_meta_of_def file_chunk_def active_chunk_indices_def touch_session_def imported_row_def)
  show "fst ` set (up_received_chunks (us_item s)) = {0}" by (simp add: s touch_session_def imported_row_def)
qed

text \<open>C19: a staged file that is imported is stored as it is. When the import returns a session and
  nothing outside it stands in the way, the finalization returns the registered evidence, and
  the evidence file has the bytes of the staged file.\<close>

theorem staged_import_exact:
  assumes "create_memory_upload_session_from_staged_file sha cfg t0 rq = (Inr (), Some s)" "im_content rq = Inr F"
    and "accepting sha F env" "proper_env env"
  shows "\<exists>r s'. finalize_memory_upload_session sha cfg now env None s = (Inr (Some r), s') \<and> us_canonical s' = Some F \<and> up_status (us_item s') = Completed"
proof -
  note i = imported_inv[OF assms(1,2)]
  obtain h where h: "sanitize_sha256 (im_sha256 rq) = Inr h" "h \<in> {None, Some (sha F)}" "alive t0 (session_upload_mode (us_item s)) h s" using i(4) by blast
  have "chunk_count (int (length F)) (int (length F)) = 1" using i(2) by (rule chunk_count_self)
  then have "{0..chunk_count (int (length F)) (int (length F)) - 1} \<subseteq> fst ` set (up_received_chunks (us_item s))" using i(3) by simp
  from finalize_succeeds[OF i(1) _ i(2) h(3) this assms(3,4) sanitize_again[OF h(1)] h(2)] show ?thesis using i(2) by simp
qed

subsection \<open>Capacity\<close>

text \<open>An accepted session is covered together with the sessions that are active already.\<close>

lemma accepted_reservations:
  assumes "snd (capacity_snapshot c sz None rows)" "active_row row" "up_expected_bytes (row_item row) = sz"
  shows "active_upload_reservation_bytes None (row # rows) + cap_min_free c \<le> cap_staging c"
  using assms by (simp add: capacity_snapshot_def staging_required_def active_upload_reservation_bytes_def not_excluded_def truthy_def Let_def)

text \<open>
  The check of the finalization asks for the size of the file once more, when the chunks are on
  the disk already: a session whose creation found room for one copy and not for two is refused
  after all its bytes were transferred, with no other upload and no other file in between.
\<close>

lemma accepted_upload_refused:
  assumes "snd (capacity_snapshot c sz None rows)" and "cap_staging c < sz + staging_required c sz (active_upload_reservation_bytes None rows)"
    and "row_id row = i" "i \<noteq> []" "i \<notin> row_id ` set rows"
  shows "\<not> snd (capacity_snapshot (c\<lparr>cap_staging := cap_staging c - sz\<rparr>) sz (Some i) (row # rows))"
proof -
  have "filter (\<lambda>r. active_row r \<and> row_id r \<noteq> i) rows = filter active_row rows" using assms(5) by (intro filter_cong) auto
  then have "active_upload_reservation_bytes (Some i) (row # rows) = active_upload_reservation_bytes None rows"
    using assms(3,4) by (simp add: active_upload_reservation_bytes_def not_excluded_def truthy_def)
  then show ?thesis using assms(2) by (simp add: capacity_snapshot_def staging_required_def Let_def)
qed

subsection \<open>Concrete sessions\<close>

definition example_import :: import_request where
  "example_import = \<lparr>im_enabled = True, im_size = 3, im_stat = Some 3, im_content = Inr [1, 2, 3], im_extension_ok = Inr ''raw'', im_host = ''host'',
     im_conflict = False, im_case_usage = 10, im_capacity_ok = True, im_sha256 = None\<rparr>"

definition example_row :: "string \<Rightarrow> string \<Rightarrow> upload_status \<Rightarrow> upload_row" where
  "example_row c i st = \<lparr>row_id = i, row_case = c, row_staging_name = ''s'' @ i, row_updated_at = 0, row_evidence_exists = False,
     row_item = (us_item example_state)\<lparr>up_status := st\<rparr>\<rparr>"

definition example_entry :: "string \<Rightarrow> staged_entry" where
  "example_entry i = \<lparr>entry_name = ''s'' @ i, entry_is_dir = True, entry_mtime = 0, entry_chunks = Some [], entry_other = []\<rparr>"

definition example_options :: "string option \<Rightarrow> maintenance_options" where
  "example_options c = \<lparr>opt_case_id = c, opt_upload_id = None, opt_older_than_hours = None, opt_limit = None\<rparr>"

text \<open>An active session of one case and a failed one of another.\<close>

definition example_rows :: "upload_row list" where
  "example_rows = [example_row ''a'' ''1'' Uploading, example_row ''b'' ''2'' Failed]"

definition example_entries :: "staged_entry list" where
  "example_entries = [example_entry ''1'', example_entry ''2'']"

lemmas example_storage = example_rows_def example_entries_def example_row_def example_entry_def example_options_def

theorem cleanup_keeps_active_witness:
  "example_entry ''1'' \<in> set (snd (cleanup_memory_upload_staging False (example_options None) (\<lambda>_. True) 0 example_rows example_entries))"
  by (rule cleanup_keeps_active[of example_entries example_rows "example_row ''a'' ''1'' Uploading"])
    (simp_all add: example_storage skipped_row_def active_row_def ACTIVE_UPLOAD_SESSION_STATUSES_def select_rows_def truthy_def cutoff_of_def limited_def)

lemma cleanup_of_case_b: "example_entry ''1'' \<notin> set (snd (cleanup_memory_upload_staging False (example_options (Some ''b'')) (\<lambda>_. True) 0 example_rows example_entries))"
  unfolding example_options_def
  by (rule cleanup_of_case_removes_active[of example_entries example_rows "example_row ''a'' ''1'' Uploading"])
    (simp_all add: example_storage skipped_row_def active_row_def ACTIVE_UPLOAD_SESSION_STATUSES_def)

theorem staged_import_exact_witness:
  "\<exists>s r s'. create_memory_upload_session_from_staged_file example_sha example_config 0 example_import = (Inr (), Some s)
     \<and> finalize_memory_upload_session example_sha example_config 9 example_env None s = (Inr (Some r), s') \<and> us_canonical s' = Some [1, 2, 3]"
proof -
  have "copy_staged example_sha example_import None = Inr [1, 2, 3]"
    by (simp add: copy_staged_def example_import_def Let_def concat_read_blobs BLOCK_SIZE_def truthy_def)
  moreover have "import_checks example_config example_import = Inr None"
    by (simp add: import_checks_def example_import_def example_config_def sanitize_sha256_def Let_def py_strip_def py_rstrip_def py_lower_def py_isspace_def)
  ultimately obtain s where s: "create_memory_upload_session_from_staged_file example_sha example_config 0 example_import = (Inr (), Some s)"
    by (simp add: create_memory_upload_session_from_staged_file_def Let_def)
  with staged_import_exact[OF s _ example_env_ok, where now = 9] show ?thesis by (fastforce simp: example_import_def)
qed

end
