(* ===== verification/Evidence_Upload.thy ===== *)
theory Evidence_Upload
  imports Evidence_Operations "HOL-Library.Sublist"
begin

section \<open>Resumable evidence uploads\<close>

text \<open>
  \<^verbatim>\<open>services/evidence_upload_session.py\<close>: the upload that continues at a byte offset. Appending
  from a stream and from a file object, finalization with the hash and the preflight, and
  cancellation, each with the synchronisation of the operation of the session. The state is the
  row of the session, the staged file and the tables of operations; the temporary file of an
  append is gone when the append ends, and changes of the row count as written when they are
  made. Arguments: the clock, the settings, how the stream and
  the copy end, SHA-256, and the preflight with the stages it announces.
\<close>

datatype session_error = SessionError string | SyncError op_error | Interruption string

record resumable =
  rs_session :: EvidenceUploadSession
  rs_file :: "bytes option"
  rs_client_sha256 :: "string option"
  rs_db :: operations_db

record resumable_settings =
  max_upload_size :: int
  session_ttl :: int

definition UPLOADABLE :: "string set" where
  "UPLOADABLE = {''created'', ''uploading'', ''interrupted''}"

definition unified_session :: "EvidenceUploadSession \<Rightarrow> bool" where
  "unified_session session \<longleftrightarrow> meta_get (session_metadata session) ''backend'' = Some ''unified''"

definition file_size :: "bytes option \<Rightarrow> int" where
  "file_size f = (case f of Some b \<Rightarrow> int (length b) | None \<Rightarrow> 0)"

definition file_bytes :: "bytes option \<Rightarrow> bytes" where
  "file_bytes f = (case f of Some b \<Rightarrow> b | None \<Rightarrow> [])"

definition touch_upload_session :: "resumable_settings \<Rightarrow> int \<Rightarrow> EvidenceUploadSession \<Rightarrow> EvidenceUploadSession" where
  "touch_upload_session cfg now session = session\<lparr>expires_at := Some (now + max 60 (session_ttl cfg))\<rparr>"

text \<open>The commit of the session and the synchronisation of its operation.\<close>

definition commit_session :: "(rat \<Rightarrow> rat) \<Rightarrow> int \<Rightarrow> EvidenceUploadSession \<Rightarrow> resumable \<Rightarrow> (session_error + unit) \<times> resumable" where
  "commit_session fl now session s = (let s' = s\<lparr>rs_session := session\<rparr> in
     case sync_upload_operation fl now (rs_db s) session of
       Inl e \<Rightarrow> (Inl (SyncError e), s')
     | Inr (_, db) \<Rightarrow> (Inr (), s'\<lparr>rs_db := db\<rparr>))"

definition interrupted_session :: "string \<Rightarrow> int \<Rightarrow> int option \<Rightarrow> EvidenceUploadSession \<Rightarrow> EvidenceUploadSession" where
  "interrupted_session exc received sz session =
    (let session' = session\<lparr>session_status := ''interrupted'', failure_message := Some (''Upload interrupted: '' @ exc), bytes_received := received\<rparr> in
     case sz of Some n \<Rightarrow> session'\<lparr>size_bytes := n\<rparr> | None \<Rightarrow> session')"

definition interrupted :: "(rat \<Rightarrow> rat) \<Rightarrow> resumable_settings \<Rightarrow> int \<Rightarrow> string \<Rightarrow> int \<Rightarrow> int option \<Rightarrow> resumable \<Rightarrow> (session_error + unit) \<times> resumable" where
  "interrupted fl cfg now exc received sz s =
    (case commit_session fl now (touch_upload_session cfg now (interrupted_session exc received sz (rs_session s))) s of
       (Inl e, s') \<Rightarrow> (Inl e, s') | (Inr _, s') \<Rightarrow> (Inl (Interruption exc), s'))"

definition appended :: "(rat \<Rightarrow> rat) \<Rightarrow> resumable_settings \<Rightarrow> int \<Rightarrow> int \<Rightarrow> resumable \<Rightarrow> (session_error + unit) \<times> resumable" where
  "appended fl cfg now written s = commit_session fl now (touch_upload_session cfg now
     (rs_session s\<lparr>bytes_received := written, size_bytes := written, session_status := ''uploading'', failure_message := None\<rparr>)) s"

subsection \<open>Creating a session\<close>

record create_resumable =
  cr_id :: string
  cr_case_id :: string
  cr_filename :: string
  cr_size :: int
  cr_platform :: "string option"
  cr_client_sha256 :: "string option"
  cr_packaged :: bool

definition preupload_storage_check :: "resumable_settings \<Rightarrow> int \<Rightarrow> int \<Rightarrow> session_error + int" where
  "preupload_storage_check cfg available expected =
    (if expected > max_upload_size cfg then Inl (SessionError ''upload_size_limit'')
     else if available < expected + expected then Inl (SessionError ''insufficient_storage'') else Inr available)"

definition REUSABLE_EVIDENCE_UPLOAD_SESSION_STATUSES :: "string set" where
  "REUSABLE_EVIDENCE_UPLOAD_SESSION_STATUSES = {''created'', ''uploading'', ''interrupted'', ''staged''}"

definition reusable :: "create_resumable \<Rightarrow> resumable \<Rightarrow> bool" where
  "reusable rq s \<longleftrightarrow> (let session = rs_session s in session_case_id session = cr_case_id rq \<and> original_filename session = cr_filename rq
     \<and> expected_size session = Some (cr_size rq) \<and> session_status session \<in> REUSABLE_EVIDENCE_UPLOAD_SESSION_STATUSES)"

definition new_session :: "resumable_settings \<Rightarrow> int \<Rightarrow> create_resumable \<Rightarrow> EvidenceUploadSession" where
  "new_session cfg now rq = \<lparr>session_id = cr_id rq, session_case_id = cr_case_id rq, session_status = ''created'', original_filename = cr_filename rq,
     is_folder = False, is_server_path = False, size_bytes = 0, expected_size = Some (cr_size rq), bytes_received = 0, sha256 = None,
     declared_platform = cr_platform rq,
     session_metadata = [(''upload_mode'', Some ''resumable''), (''current_stage'', Some ''upload''),
       (''packaged_from_folder'', Some (if cr_packaged rq then ''true'' else ''false''))],
     expires_at = Some (now + max 60 (session_ttl cfg)), session_created_at = Some now, promoted_evidence_id = None, failure_message = None\<rparr>"

definition start_session :: "(rat \<Rightarrow> rat) \<Rightarrow> resumable_settings \<Rightarrow> int \<Rightarrow> int \<Rightarrow> operations_db \<Rightarrow> create_resumable \<Rightarrow> session_error + resumable" where
  "start_session fl cfg now available db rq = res_bind (preupload_storage_check cfg available (cr_size rq)) (\<lambda>_.
     let session = new_session cfg now rq in
     case commit_session fl now session \<lparr>rs_session = session, rs_file = None, rs_client_sha256 = cr_client_sha256 rq, rs_db = db\<rparr> of
       (Inl e, _) \<Rightarrow> Inl e | (Inr _, s) \<Rightarrow> Inr s)"

text \<open>
  The other sessions, the newest first; the name of the file without its directories, the
  fresh identifier and the free space are arguments.
\<close>

definition create_resumable_upload_session :: "(rat \<Rightarrow> rat) \<Rightarrow> resumable_settings \<Rightarrow> int \<Rightarrow> bool \<Rightarrow> int \<Rightarrow> resumable list \<Rightarrow> operations_db \<Rightarrow> create_resumable
    \<Rightarrow> session_error + resumable" where
  "create_resumable_upload_session fl cfg now case_exists available others db rq =
    (if \<not> case_exists then Inl (SessionError ''case_not_found'')
     else if cr_size rq \<le> 0 then Inl (SessionError ''invalid_size'')
     else case find (reusable rq) others of
       Some s \<Rightarrow> (if rs_file s \<noteq> None then Inr s else
 start_session fl cfg now available db rq)
     | None \<Rightarrow> start_session fl cfg now available db rq)"

subsection \<open>Limits\<close>

text \<open>The blobs up to the first one that exceeds a limit, and whether there was one.\<close>

definition over_limit :: "resumable_settings \<Rightarrow> EvidenceUploadSession \<Rightarrow> int \<Rightarrow> bool" where
  "over_limit cfg session next_size \<longleftrightarrow> next_size > max_upload_size cfg \<or> (case expected_size session of Some n \<Rightarrow> next_size > n | None \<Rightarrow> False)"

fun accept_blobs :: "(int \<Rightarrow> bool) \<Rightarrow> int \<Rightarrow> bytes list \<Rightarrow> bytes \<times> bool" where
  "accept_blobs over written [] = ([], False)"
| "accept_blobs over written (blob # blobs) =
    (if blob = [] then accept_blobs over written blobs
     else if over (written + int (length blob)) then ([], True)
     else let (data, exceeded) = accept_blobs over (written + int (length blob)) blobs in (blob @ data, exceeded))"

subsection \<open>Appending from a stream\<close>

text \<open>
  \<open>ap_broken\<close> is the exception that ends the stream or the temporary file after the blobs,
  \<open>ap_copy_fails\<close> the number of bytes and the exception with which the copy to the staged file ends early.
\<close>

record append_request =
  ap_offset :: int
  ap_blobs :: "bytes list"
  ap_broken :: "string option"
  ap_copy_fails :: "(nat \<times> string) option"

definition append_stream_locked :: "(rat \<Rightarrow> rat) \<Rightarrow> resumable_settings \<Rightarrow> int \<Rightarrow> append_request \<Rightarrow> resumable \<Rightarrow> (session_error + unit) \<times> resumable" where
  "append_stream_locked fl cfg now rq s =
    (let session = rs_session s; current_size = file_size (rs_file s); old = file_bytes (rs_file s);
         (data, exceeded) = accept_blobs (over_limit cfg session) current_size (ap_blobs rq) in
     if unified_session session then (Inl (SessionError ''unified_session_wrong_endpoint''), s)
     else if session_status session \<notin> UPLOADABLE then (Inl (SessionError ''session_not_uploading''), s)
     else if ap_offset rq \<noteq> current_size \<or> ap_offset rq \<noteq> bytes_received session then (Inl (SessionError ''offset_mismatch''), s)
     else if exceeded then (Inl (SessionError ''upload_size_limit''), s)
     else case ap_broken rq of
       Some exc \<Rightarrow> interrupted fl cfg now exc current_size (Some current_size) s
     | None \<Rightarrow> (case ap_copy_fails rq of
         Some (k, exc) \<Rightarrow> interrupted fl cfg now exc current_size (Some current_size) (s\<lparr>rs_file := Some (old @ take k data)\<rparr>)
       | None \<Rightarrow> appended fl cfg now (current_size + int (length data)) (s\<lparr>rs_file := Some (old @ data)\<rparr>)))"

text \<open>The lock of the session: taken, held by another request, or not available.\<close>

definition append_resumable_upload_chunk_stream ::
    "(rat \<Rightarrow> rat) \<Rightarrow> resumable_settings \<Rightarrow> int \<Rightarrow> bool option \<Rightarrow> append_request \<Rightarrow> resumable \<Rightarrow> (session_error + unit) \<times> resumable" where
  "append_resumable_upload_chunk_stream fl cfg now lock rq s = (case lock of
     None \<Rightarrow> (Inl (SessionError ''session_lock_unavailable''), s)
   | Some False \<Rightarrow> (Inl (SessionError ''session_busy''), s)
   | Some True \<Rightarrow> append_stream_locked fl cfg now rq s)"

subsection \<open>Appending from a file object\<close>

text \<open>Here the blobs go to the staged file one by one.\<close>

definition append_resumable_upload_chunk :: "(rat \<Rightarrow> rat) \<Rightarrow> resumable_settings \<Rightarrow> int \<Rightarrow> append_request \<Rightarrow> resumable \<Rightarrow> (session_error + unit) \<times> resumable" where
  "append_resumable_upload_chunk fl cfg now rq s =
    (let session = rs_session s; current_size = file_size (rs_file s); old = file_bytes (rs_file s);
         (data, exceeded) = accept_blobs (over_limit cfg session) current_size (ap_blobs rq); s' = s\<lparr>rs_file := Some (old @ data)\<rparr> in
     if session_status session \<notin> UPLOADABLE then (Inl (SessionError ''session_not_uploading''), s)
     else if ap_offset rq \<noteq> current_size \<or> ap_offset rq \<noteq> bytes_received session then (Inl (SessionError ''offset_mismatch''), s)
     else if exceeded then (Inl (SessionError ''upload_size_limit''), s')
     else case ap_broken rq of
       Some exc \<Rightarrow> interrupted fl cfg now exc (file_size (rs_file s')) None s'
     | None \<Rightarrow> appended fl cfg now (current_size + int (length data)) s')"

subsection \<open>Finalization\<close>

text \<open>
  The preflight: the stages it announces and the category it finds, or the exception it raises
  after them. A stage is written to the operation of the session, if there was one when the
  finalization began.
\<close>

record preflight =
  pf_stages :: "string list"
  pf_result :: "string + string"

definition advance_operation_stage :: "int \<Rightarrow> EvidenceOperation option \<Rightarrow> string \<Rightarrow> operations_db \<Rightarrow> operations_db" where
  "advance_operation_stage now operation stage db = (case operation of
     None \<Rightarrow> db
   | Some op \<Rightarrow> (case find (\<lambda>o'. op_id o' = op_id op) (operations db) of
       None \<Rightarrow> db
     | Some row \<Rightarrow> (case transition_operation now row (case op_status row of Some st \<Rightarrow> st | None \<Rightarrow> ''created'') (Some stage) (op_owner row) (op_last_error row) True of
         Inl _ \<Rightarrow> db | Inr row' \<Rightarrow> db\<lparr>operations := save_operation row' (operations db)\<rparr>)))"

definition with_metadata :: "string \<Rightarrow> string option \<Rightarrow> EvidenceUploadSession \<Rightarrow> EvidenceUploadSession" where
  "with_metadata k v session = session\<lparr>session_metadata := dict_set k v (session_metadata session)\<rparr>"

text \<open>The end of both branches; the report itself is kept as an opaque entry.\<close>

definition preflight_done :: "(rat \<Rightarrow> rat) \<Rightarrow> resumable_settings \<Rightarrow> int \<Rightarrow> EvidenceOperation option \<Rightarrow> string \<Rightarrow> resumable \<Rightarrow> (session_error + string) \<times> resumable" where
  "preflight_done fl cfg now operation category s =
    (let session = with_metadata ''preflight_report'' (Some category) (with_metadata ''current_stage'' (Some ''preflight_complete'')
         (with_metadata ''category'' (Some category) (rs_session s))) in
     case commit_session fl now (touch_upload_session cfg now (session\<lparr>failure_message := None\<rparr>)) s of
       (Inl e, s') \<Rightarrow> (Inl e, s')
     | (Inr _, s') \<Rightarrow> (Inr category, s'\<lparr>rs_db := advance_operation_stage now operation ''preflight_complete'' (rs_db s')\<rparr>))"

definition hash_existing_file :: "(bytes \<Rightarrow> string) \<Rightarrow> bytes option \<Rightarrow> string option" where
  "hash_existing_file sha f = map_option sha f"

definition sha_mismatch :: "string option \<Rightarrow> string option \<Rightarrow> bool" where
  "sha_mismatch client digest \<longleftrightarrow> (case (client, digest) of
     (Some c, Some d) \<Rightarrow> c \<noteq> [] \<and> d \<noteq> [] \<and> py_lower (py_strip c) \<noteq> py_lower d | _ \<Rightarrow> False)"

definition run_stages :: "int \<Rightarrow> EvidenceOperation option \<Rightarrow> preflight \<Rightarrow> resumable \<Rightarrow> resumable" where
  "run_stages now operation pf s = s\<lparr>rs_db := fold (advance_operation_stage now operation) (pf_stages pf) (rs_db s)\<rparr>"

definition verify_and_stage :: "(rat \<Rightarrow> rat) \<Rightarrow> (bytes \<Rightarrow> string) \<Rightarrow> resumable_settings \<Rightarrow> int \<Rightarrow> EvidenceOperation option \<Rightarrow> preflight \<Rightarrow> resumable
    \<Rightarrow> (session_error + string) \<times> resumable" where
  "verify_and_stage fl sha cfg now operation pf s =
    (let size = file_size (rs_file s); digest = hash_existing_file sha (rs_file s);
         running = touch_upload_session cfg now (rs_session s\<lparr>session_status := ''preflight_running'', bytes_received := size, size_bytes := size\<rparr>);
         hashed = running\<lparr>sha256 := digest\<rparr>;
         checked = (if sha_mismatch (rs_client_sha256 s) digest then with_metadata ''client_sha256_mismatch'' (Some ''true'') hashed else hashed);
         s1 = run_stages now operation pf (s\<lparr>rs_session := checked, rs_db := advance_operation_stage now operation ''verifying_integrity'' (rs_db s)\<rparr>) in
     case pf_result pf of
       Inl exc \<Rightarrow> (Inl (Interruption exc), s1)
     | Inr category \<Rightarrow> preflight_done fl cfg now operation category
         (s1\<lparr>rs_session := checked\<lparr>session_status := ''staged''\<rparr>, rs_db := advance_operation_stage now operation ''preparing_evidence'' (rs_db s1)\<rparr>))"

definition rerun_staged :: "(rat \<Rightarrow> rat) \<Rightarrow> resumable_settings \<Rightarrow> int \<Rightarrow> EvidenceOperation option \<Rightarrow> preflight \<Rightarrow> resumable
    \<Rightarrow> (session_error + string) \<times> resumable" where
  "rerun_staged fl cfg now operation pf s = (let s1 = run_stages now operation pf s in
     case pf_result pf of Inl exc \<Rightarrow> (Inl (Interruption exc), s1) | Inr category \<Rightarrow> preflight_done fl cfg now operation category s1)"

definition upload_incomplete :: "(rat \<Rightarrow> rat) \<Rightarrow> resumable_settings \<Rightarrow> int \<Rightarrow> resumable \<Rightarrow> (session_error + string) \<times> resumable" where
  "upload_incomplete fl cfg now s = (let size = file_size (rs_file s) in
     case commit_session fl now (touch_upload_session cfg now (rs_session s\<lparr>session_status := ''interrupted'', bytes_received := size, size_bytes := size,
         failure_message := Some ''Upload is incomplete. Resume from the confirmed offset before finalizing.''\<rparr>)) s of
       (Inl e, s') \<Rightarrow> (Inl e, s') | (Inr _, s') \<Rightarrow> (Inl (SessionError ''upload_incomplete''), s'))"

definition finalize_resumable_locked :: "(rat \<Rightarrow> rat) \<Rightarrow> (bytes \<Rightarrow> string) \<Rightarrow> resumable_settings \<Rightarrow> int \<Rightarrow> preflight \<Rightarrow> resumable
    \<Rightarrow> (session_error + string) \<times> resumable" where
  "finalize_resumable_locked fl sha cfg now pf s =
    (let session = rs_session s in
     if unified_session session then (Inl (SessionError ''unified_session_wrong_endpoint''), s)
     else case get_operation_for_session (rs_db s) session of
       Inl e \<Rightarrow> (Inl (SyncError e), s)
     | Inr operation \<Rightarrow>
         if session_status session = ''staged'' then rerun_staged fl cfg now operation pf s
         else if session_status session \<notin> UPLOADABLE then (Inl (SessionError ''session_not_uploading''), s)
         else if expected_size session \<noteq> None \<and> expected_size session \<noteq> Some (file_size (rs_file s)) then upload_incomplete fl cfg now s
         else verify_and_stage fl sha cfg now operation pf s)"

definition cancel_upload_session :: "(rat \<Rightarrow> rat) \<Rightarrow> int \<Rightarrow> resumable \<Rightarrow> (session_error + unit) \<times> resumable" where
  "cancel_upload_session fl now s =
    (let kept = is_server_path (rs_session s) \<or> unified_session (rs_session s) in
     commit_session fl now (rs_session s\<lparr>session_status := ''cancelled''\<rparr>) (s\<lparr>rs_file := (if kept then rs_file s else None)\<rparr>))"

end
