(* ===== verification/Resumable_Properties.thy ===== *)
theory Resumable_Properties
  imports Evidence_Upload Operations_Properties
begin

section \<open>Resumable evidence uploads: properties\<close>

text \<open>
  The staged file of an honest client is a prefix of its file in every state, and the whole
  file once the session is staged; a client that continues at the confirmed offset completes
  the upload; and when the confirmed offset and the staged file part, no append is accepted.
\<close>

subsection \<open>What a request leaves\<close>

lemma accept_blobs_prefix: "prefix (fst (accept_blobs over n blobs)) (concat blobs)"
  by (induction over n blobs rule: accept_blobs.induct) (auto simp: case_prod_unfold Let_def prefix_def)

lemma accept_blobs_all: "\<not> snd (accept_blobs over n blobs) \<Longrightarrow> fst (accept_blobs over n blobs) = concat blobs"
  by (induction over n blobs rule: accept_blobs.induct) (auto simp: case_prod_unfold Let_def split: if_splits)

lemma accept_blobs_ok:
  "\<forall>m. m \<le> n + int (length (concat blobs)) \<longrightarrow> \<not> over m \<Longrightarrow> accept_blobs over n blobs = (concat blobs, False)"
proof (induction over n blobs rule: accept_blobs.induct)
  case (2 over written blob blobs)
  then show ?case by (cases "blob = []") (auto simp: Let_def)
qed simp

lemma commit_session_effect:
  assumes "commit_session fl now session s = (r, s')"
  shows "rs_session s' = session" "rs_file s' = rs_file s" "rs_client_sha256 s' = rs_client_sha256 s"
  using assms by (auto simp: commit_session_def Let_def split: sum.splits)

lemma interrupted_effect:
  assumes "interrupted fl cfg now exc n sz s = (r, s')"
  shows "rs_file s' = rs_file s" "session_status (rs_session s') = ''interrupted''" "expected_size (rs_session s') = expected_size (rs_session s)"
    "bytes_received (rs_session s') = n" "isl r" "session_metadata (rs_session s') = session_metadata (rs_session s)"
proof -
  let ?ses = "touch_upload_session cfg now (interrupted_session exc n sz (rs_session s))"
  obtain r0 t where c: "commit_session fl now ?ses s = (r0, t)" by fastforce
  have t: "s' = t \<and> isl r" using assms c by (cases r0) (auto simp: interrupted_def)
  then show "rs_file s' = rs_file s" "isl r" using commit_session_effect(2)[OF c] by simp_all
  have e: "rs_session s' = ?ses" using t commit_session_effect(1)[OF c] by simp
  show "session_status (rs_session s') = ''interrupted''" "expected_size (rs_session s') = expected_size (rs_session s)"
    "bytes_received (rs_session s') = n" "session_metadata (rs_session s') = session_metadata (rs_session s)"
    unfolding e by (simp_all add: touch_upload_session_def interrupted_session_def Let_def split: option.split)
qed

lemma appended_effect:
  assumes "appended fl cfg now n s = (r, s')"
  shows "rs_file s' = rs_file s" "session_status (rs_session s') = ''uploading''" "expected_size (rs_session s') = expected_size (rs_session s)"
    "bytes_received (rs_session s') = n" "session_metadata (rs_session s') = session_metadata (rs_session s)"
  using commit_session_effect[OF assms[unfolded appended_def]] by (simp_all add: touch_upload_session_def)

text \<open>The bytes an append adds to the staged file, and what it may do to the row.\<close>

definition grows :: "append_request \<Rightarrow> resumable \<Rightarrow> resumable \<Rightarrow> bool" where
  "grows rq s s' \<longleftrightarrow> ap_offset rq = file_size (rs_file s) \<and> session_status (rs_session s') \<in> UPLOADABLE
     \<and> expected_size (rs_session s') = expected_size (rs_session s) \<and> session_metadata (rs_session s') = session_metadata (rs_session s)
     \<and> (\<exists>added. file_bytes (rs_file s') = file_bytes (rs_file s) @ added \<and> prefix added (concat (ap_blobs rq)))"

lemma growsI:
  assumes "ap_offset rq = file_size (rs_file s)" "prefix added (concat (ap_blobs rq))"
    and "file_bytes f = file_bytes (rs_file s) @ added"
    and "interrupted fl cfg now exc n sz (s\<lparr>rs_file := f\<rparr>) = (r, s') \<or> appended fl cfg now n (s\<lparr>rs_file := f\<rparr>) = (r, s')"
  shows "grows rq s s'"
  using assms(4)
proof
  assume "interrupted fl cfg now exc n sz (s\<lparr>rs_file := f\<rparr>) = (r, s')"
  from interrupted_effect[OF this] show ?thesis using assms(1-3) by (auto simp: grows_def UPLOADABLE_def)
next
  assume "appended fl cfg now n (s\<lparr>rs_file := f\<rparr>) = (r, s')"
  from appended_effect[OF this] show ?thesis using assms(1-3) by (auto simp: grows_def UPLOADABLE_def)
qed

lemma append_stream_grows:
  assumes "append_stream_locked fl cfg now rq s = (r, s')"
  shows "s' = s \<or> grows rq s s'"
proof -
  obtain data ex where d: "accept_blobs (over_limit cfg (rs_session s)) (file_size (rs_file s)) (ap_blobs rq) = (data, ex)" by fastforce
  have p: "prefix data (concat (ap_blobs rq))" using accept_blobs_prefix[of "over_limit cfg (rs_session s)" "file_size (rs_file s)" "ap_blobs rq"] d by simp
  then have pk: "prefix (take k data) (concat (ap_blobs rq))" for k using take_is_prefix prefix_order.trans by blast
  let ?n = "file_size (rs_file s)" and ?old = "file_bytes (rs_file s)"
  consider "s' = s" | exc where "ap_offset rq = ?n" "interrupted fl cfg now exc ?n (Some ?n) s = (r, s')"
    | k exc where "ap_offset rq = ?n" "interrupted fl cfg now exc ?n (Some ?n) (s\<lparr>rs_file := Some (?old @ take k data)\<rparr>) = (r, s')"
    | "ap_offset rq = ?n" "appended fl cfg now (?n + int (length data)) (s\<lparr>rs_file := Some (?old @ data)\<rparr>) = (r, s')"
    using assms unfolding append_stream_locked_def Let_def d by (simp split: if_split_asm option.split_asm prod.split_asm)
  then show ?thesis
  proof cases
    case (2 exc)
    then have "interrupted fl cfg now exc ?n (Some ?n) (s\<lparr>rs_file := rs_file s\<rparr>) = (r, s')" by simp
    from growsI[OF 2(1) Nil_prefix _ disjI1[OF this]] show ?thesis by simp
  next
    case (3 k exc)
    from growsI[OF 3(1) pk[of k] _ disjI1[OF 3(2)]] show ?thesis by (simp add: file_bytes_def)
  next
    case 4
    from growsI[OF 4(1) p _ disjI2[OF 4(2)]] show ?thesis by (simp add: file_bytes_def)
  qed simp
qed

lemma append_grows:
  assumes "append_resumable_upload_chunk fl cfg now rq s = (r, s')"
  shows "s' = s \<or> grows rq s s'"
proof -
  obtain data ex where d: "accept_blobs (over_limit cfg (rs_session s)) (file_size (rs_file s)) (ap_blobs rq) = (data, ex)" by fastforce
  have p: "prefix data (concat (ap_blobs rq))" using accept_blobs_prefix[of "over_limit cfg (rs_session s)" "file_size (rs_file s)" "ap_blobs rq"] d by simp
  define f where "f = Some (file_bytes (rs_file s) @ data)"
  let ?n = "file_size (rs_file s)"
  have f: "file_bytes f = file_bytes (rs_file s) @ data" by (simp add: f_def file_bytes_def)
  let ?guard = "session_status (rs_session s) \<in> UPLOADABLE \<and> ap_offset rq = ?n \<and> ap_offset rq = bytes_received (rs_session s)"
  have eq: "(r, s') = (if session_status (rs_session s) \<notin> UPLOADABLE then (Inl (SessionError ''session_not_uploading''), s)
     else if ap_offset rq \<noteq> ?n \<or> ap_offset rq \<noteq> bytes_received (rs_session s) then (Inl (SessionError ''offset_mismatch''), s)
     else if ex then (Inl (SessionError ''upload_size_limit''), s\<lparr>rs_file := f\<rparr>)
     else case ap_broken rq of
       Some exc \<Rightarrow> interrupted fl cfg now exc (file_size (rs_file (s\<lparr>rs_file := f\<rparr>))) None (s\<lparr>rs_file := f\<rparr>)
     | None \<Rightarrow> appended fl cfg now (?n + int (length data)) (s\<lparr>rs_file := f\<rparr>))"
    unfolding assms[symmetric] append_resumable_upload_chunk_def Let_def d prod.case f_def by (rule refl)
  show ?thesis
  proof (cases ?guard)
    case True
    then have off: "ap_offset rq = ?n" by blast
    show ?thesis
    proof (cases ex)
      case True
      then have "s' = s\<lparr>rs_file := f\<rparr>" using eq \<open>?guard\<close> by simp
      then show ?thesis using p f off \<open>?guard\<close> by (auto simp: grows_def)
    next
      case False
      then have "(r, s') = (case ap_broken rq of Some exc \<Rightarrow> interrupted fl cfg now exc (file_size f) None (s\<lparr>rs_file := f\<rparr>)
          | None \<Rightarrow> appended fl cfg now (?n + int (length data)) (s\<lparr>rs_file := f\<rparr>))" using eq \<open>?guard\<close> by (cases "ap_broken rq") simp_all
      then show ?thesis using growsI[OF off p f disjI1[OF sym]] growsI[OF off p f disjI2[OF sym]] by (cases "ap_broken rq") auto
    qed
  qed (use eq in \<open>auto split: if_split_asm\<close>)
qed

subsection \<open>The staged file\<close>

text \<open>
  The row expects the size of the file; the staged file is a prefix of it; once verification
  began it is the file, and its digest is in the row.
\<close>

definition resumable_inv :: "(bytes \<Rightarrow> string) \<Rightarrow> bytes \<Rightarrow> resumable \<Rightarrow> bool" where
  "resumable_inv sha F s \<longleftrightarrow> expected_size (rs_session s) = Some (int (length F)) \<and> prefix (file_bytes (rs_file s)) F
     \<and> (session_status (rs_session s) \<in> {''staged'', ''preflight_running''} \<longrightarrow> rs_file s = Some F \<and> sha256 (rs_session s) = Some (sha F))"

definition honest_append :: "bytes \<Rightarrow> append_request \<Rightarrow> bool" where
  "honest_append F rq \<longleftrightarrow> prefix (concat (ap_blobs rq)) (drop (nat (ap_offset rq)) F)"

inductive resumable_step :: "(rat \<Rightarrow> rat) \<Rightarrow> (bytes \<Rightarrow> string) \<Rightarrow> resumable_settings \<Rightarrow> bytes \<Rightarrow> resumable \<Rightarrow> resumable \<Rightarrow> bool"
  for fl sha cfg F where
  stream: "honest_append F rq \<Longrightarrow> append_resumable_upload_chunk_stream fl cfg now lock rq s = (r, s') \<Longrightarrow> resumable_step fl sha cfg F s s'"
| direct: "honest_append F rq \<Longrightarrow> append_resumable_upload_chunk fl cfg now rq s = (r, s') \<Longrightarrow> resumable_step fl sha cfg F s s'"
| finalize: "finalize_resumable_locked fl sha cfg now pf s = (f, s') \<Longrightarrow> resumable_step fl sha cfg F s s'"
| cancel: "cancel_upload_session fl now s = (r, s') \<Longrightarrow> resumable_step fl sha cfg F s s'"

lemma grows_inv:
  assumes "grows rq s s'" "resumable_inv sha F s" "honest_append F rq"
  shows "resumable_inv sha F s'"
proof -
  obtain added where a: "file_bytes (rs_file s') = file_bytes (rs_file s) @ added" "prefix added (concat (ap_blobs rq))" using assms(1) by (auto simp: grows_def)
  have n: "nat (ap_offset rq) = length (file_bytes (rs_file s))" using assms(1) by (auto simp: grows_def file_size_def file_bytes_def split: option.splits)
  obtain rest where rest: "F = file_bytes (rs_file s) @ rest" using assms(2) by (auto simp: resumable_inv_def prefix_def)
  then have "prefix added rest" using a(2) assms(3) n prefix_order.trans unfolding honest_append_def by (metis append_eq_conv_conj)
  then have "prefix (file_bytes (rs_file s')) F" using a(1) rest by simp
  then show ?thesis using assms(1,2) by (auto simp: resumable_inv_def grows_def UPLOADABLE_def)
qed

lemma with_metadata_frame [simp]:
  "session_status (with_metadata k v session) = session_status session" "expected_size (with_metadata k v session) = expected_size session"
  "sha256 (with_metadata k v session) = sha256 session"
  by (simp_all add: with_metadata_def)

lemma touch_upload_session_frame [simp]:
  "session_status (touch_upload_session cfg now session) = session_status session" "expected_size (touch_upload_session cfg now session) = expected_size session"
  "sha256 (touch_upload_session cfg now session) = sha256 session" "bytes_received (touch_upload_session cfg now session) = bytes_received session"
  by (simp_all add: touch_upload_session_def)

lemma run_stages_frame [simp]: "rs_session (run_stages now op pf s) = rs_session s" "rs_file (run_stages now op pf s) = rs_file s"
  by (simp_all add: run_stages_def)

lemma preflight_done_inv:
  assumes "preflight_done fl cfg now op category s = (r, s')"
  shows "rs_file s' = rs_file s" "session_status (rs_session s') = session_status (rs_session s)" "expected_size (rs_session s') = expected_size (rs_session s)"
    "sha256 (rs_session s') = sha256 (rs_session s)"
proof -
  obtain session r0 t where c: "commit_session fl now session s = (r0, t)" and s': "rs_session s' = rs_session t" "rs_file s' = rs_file t"
    and "session_status session = session_status (rs_session s)" "expected_size session = expected_size (rs_session s)" "sha256 session = sha256 (rs_session s)"
    using assms by (auto simp: preflight_done_def Let_def split: prod.splits sum.splits)
  then show "rs_file s' = rs_file s" "session_status (rs_session s') = session_status (rs_session s)" "expected_size (rs_session s') = expected_size (rs_session s)"
    "sha256 (rs_session s') = sha256 (rs_session s)"
    using commit_session_effect[OF c] by simp_all
qed

lemma complete_file: "file_size f = int (length F) \<Longrightarrow> prefix (file_bytes f) F \<Longrightarrow> F \<noteq> [] \<Longrightarrow> f = Some F"
  by (auto simp: file_size_def file_bytes_def prefix_def split: option.splits)

lemma verify_and_stage_inv:
  assumes "verify_and_stage fl sha cfg now op pf s = (r, s')" "rs_file s = Some F" "expected_size (rs_session s) = Some (int (length F))"
  shows "resumable_inv sha F s'"
proof -
  let ?ok = "\<lambda>u. rs_file u = Some F \<and> sha256 (rs_session u) = Some (sha F) \<and> expected_size (rs_session u) = Some (int (length F))"
  have inv: "resumable_inv sha F u" if "?ok u" for u using that by (simp add: resumable_inv_def file_bytes_def)
  show ?thesis
  proof (cases "pf_result pf")
    case (Inl exc)
    then show ?thesis using assms by (intro inv) (auto simp: verify_and_stage_def Let_def hash_existing_file_def)
  next
    case (Inr category)
    then obtain u where u: "preflight_done fl cfg now op category u = (r, s')" "?ok u"
      using assms by (auto simp: verify_and_stage_def Let_def hash_existing_file_def split: if_splits)
    then show ?thesis using preflight_done_inv[OF u(1)] by (intro inv) simp
  qed
qed

lemma rerun_staged_inv:
  assumes "rerun_staged fl cfg now op pf s = (r, s')" "resumable_inv sha F s"
  shows "resumable_inv sha F s'"
proof (cases "pf_result pf")
  case (Inr category)
  then have "preflight_done fl cfg now op category (run_stages now op pf s) = (r, s')" using assms(1) by (simp add: rerun_staged_def)
  from preflight_done_inv[OF this] show ?thesis using assms(2) by (simp add: resumable_inv_def)
qed (use assms in \<open>auto simp: rerun_staged_def resumable_inv_def\<close>)

lemma upload_incomplete_effect:
  assumes "upload_incomplete fl cfg now s = (r, s')"
  shows "isl r" "rs_file s' = rs_file s" "session_status (rs_session s') = ''interrupted''" "expected_size (rs_session s') = expected_size (rs_session s)"
    "bytes_received (rs_session s') = file_size (rs_file s)" "session_metadata (rs_session s') = session_metadata (rs_session s)"
proof -
  let ?ses = "touch_upload_session cfg now (rs_session s\<lparr>session_status := ''interrupted'', bytes_received := file_size (rs_file s), size_bytes := file_size (rs_file s),
         failure_message := Some ''Upload is incomplete. Resume from the confirmed offset before finalizing.''\<rparr>)"
  obtain r0 t where c: "commit_session fl now ?ses s = (r0, t)" by fastforce
  have t: "s' = t \<and> isl r" using assms c by (cases r0) (auto simp: upload_incomplete_def Let_def)
  then show "isl r" "rs_file s' = rs_file s" "session_status (rs_session s') = ''interrupted''" "expected_size (rs_session s') = expected_size (rs_session s)"
    "bytes_received (rs_session s') = file_size (rs_file s)" "session_metadata (rs_session s') = session_metadata (rs_session s)"
    using commit_session_effect[OF c] by (simp_all add: touch_upload_session_def)
qed

lemma finalize_resumable_inv:
  assumes inv: "resumable_inv sha F s" and ne: "F \<noteq> []" and f: "finalize_resumable_locked fl sha cfg now pf s = (r, s')"
  shows "resumable_inv sha F s'"
proof (cases "get_operation_for_session (rs_db s) (rs_session s)")
  case (Inr op)
  have exp: "expected_size (rs_session s) = Some (int (length F))" and pre: "prefix (file_bytes (rs_file s)) F" using inv by (simp_all add: resumable_inv_def)
  consider "s' = s" | "rerun_staged fl cfg now op pf s = (r, s')" | "upload_incomplete fl cfg now s = (r, s')"
    | "file_size (rs_file s) = int (length F)" "verify_and_stage fl sha cfg now op pf s = (r, s')"
    using f exp Inr by (auto simp: finalize_resumable_locked_def Let_def split: if_split_asm)
  then show ?thesis
  proof cases
    case 2
    then show ?thesis using inv by (rule rerun_staged_inv)
  next
    case 3
    from upload_incomplete_effect[OF this] show ?thesis using exp pre by (simp add: resumable_inv_def)
  next
    case 4
    show ?thesis by (rule verify_and_stage_inv[OF 4(2) complete_file[OF 4(1) pre ne] exp])
  qed (use inv in simp)
qed (use f inv in \<open>auto simp: finalize_resumable_locked_def Let_def split: if_split_asm\<close>)

lemma cancel_resumable_inv:
  assumes "cancel_upload_session fl now s = (r, s')" "resumable_inv sha F s"
  shows "resumable_inv sha F s'"
  using commit_session_effect[OF assms(1)[unfolded cancel_upload_session_def Let_def]] assms(2) by (auto simp: resumable_inv_def file_bytes_def)

lemma resumable_step_inv:
  assumes "resumable_step fl sha cfg F s s'" "resumable_inv sha F s" "F \<noteq> []"
  shows "resumable_inv sha F s'"
  using assms(1)
proof (cases rule: resumable_step.cases)
  case (stream rq now lock r)
  have "s' = s \<or> append_stream_locked fl cfg now rq s = (r, s')"
    using stream(2) by (auto simp: append_resumable_upload_chunk_stream_def split: option.splits bool.splits)
  then show ?thesis using append_stream_grows grows_inv assms(2) stream(1) by blast
next
  case (direct rq now r)
  then show ?thesis using append_grows grows_inv assms(2) by blast
next
  case (finalize now pf f)
  then show ?thesis using finalize_resumable_inv assms(2,3) by blast
next
  case (cancel now r)
  then show ?thesis using cancel_resumable_inv assms(2) by blast
qed

text \<open>C20: a staged evidence is the client's file. In every state that appends with pieces of the
  file at their offsets, broken off or with a failing copy, finalizations and a cancellation
  lead to, the staged file is a prefix of the client's file; once the session is staged it is
  the file, and the recorded digest is its SHA-256.\<close>

theorem staged_evidence_exact:
  assumes "start_session fl cfg t0 available db rq = Inr s0" "cr_size rq = int (length F)" "F \<noteq> []" "(resumable_step fl sha cfg F)\<^sup>*\<^sup>* s0 s"
  shows "prefix (file_bytes (rs_file s)) F
    \<and> (session_status (rs_session s) = ''staged'' \<longrightarrow> rs_file s = Some F \<and> sha256 (rs_session s) = Some (sha F))"
proof -
  obtain r where c: "commit_session fl t0 (new_session cfg t0 rq) \<lparr>rs_session = new_session cfg t0 rq, rs_file = None, rs_client_sha256 = cr_client_sha256 rq, rs_db = db\<rparr> = (r, s0)"
    using assms(1) by (auto simp: start_session_def Let_def res_simps split: prod.splits sum.splits)
  have "resumable_inv sha F s0" using commit_session_effect[OF c] assms(2) by (simp add: resumable_inv_def new_session_def file_bytes_def)
  with assms(4) have "resumable_inv sha F s" by (induction rule: rtranclp_induct) (use resumable_step_inv assms(3) in blast)+
  then show ?thesis by (simp add: resumable_inv_def)
qed

subsection \<open>Continuing at the confirmed offset\<close>

lemma commit_session_ok:
  assumes "db_wf (rs_db s)"
  shows "\<exists>s'. commit_session fl now session s = (Inr (), s') \<and> db_wf (rs_db s')"
proof -
  obtain op db' where "sync_upload_operation fl now (rs_db s) session = Inr (op, db')" "db_wf db'" using sync_upload_operation_wf[OF assms] by metis
  then show ?thesis by (simp add: commit_session_def Let_def)
qed

lemma advance_operation_stage_wf:
  assumes "db_wf db"
  shows "db_wf (advance_operation_stage now op stage db)"
proof (cases op)
  case (Some o1)
  show ?thesis
  proof (cases "find (\<lambda>o'. op_id o' = op_id o1) (operations db)")
    case (Some row)
    then have row: "row \<in> set (operations db)" by (metis (mono_tags, lifting) find_Some_iff nth_mem)
    then have "kind row = ''upload''" using assms ops_wfD(3)[of "next_id db" "operations db" row] by (simp add: db_wf_def op_wf_def)
    moreover have "(op_id row, upload_session_id row) \<in> set (op_keys (operations db))" using row by (auto simp: op_keys_def)
    moreover obtain row' where "transition_operation now row (case op_status row of Some st \<Rightarrow> st | None \<Rightarrow> ''created'') (Some stage) (op_owner row) (op_last_error row) True = Inr row'"
      using transition_forced by blast
    ultimately show ?thesis using forced_save_wf[OF assms] Some \<open>op = Some o1\<close> by (simp add: advance_operation_stage_def)
  qed (use assms Some in \<open>simp add: advance_operation_stage_def\<close>)
qed (use assms in \<open>simp add: advance_operation_stage_def\<close>)

lemma run_stages_wf: "db_wf (rs_db s) \<Longrightarrow> db_wf (rs_db (run_stages now op pf s))"
proof -
  assume "db_wf (rs_db s)"
  then have "db_wf (fold (advance_operation_stage now op) stages (rs_db s))" for stages
    by (rule fold_invariant[where Q = "\<lambda>_. True", rotated 1]) (auto intro: advance_operation_stage_wf)
  then show ?thesis by (simp add: run_stages_def)
qed

lemma verify_and_stage_ok:
  assumes "db_wf (rs_db s)" "pf_result pf = Inr category"
  shows "\<exists>s'. verify_and_stage fl sha cfg now op pf s = (Inr category, s') \<and> session_status (rs_session s') = ''staged''"
proof -
  obtain u where u: "verify_and_stage fl sha cfg now op pf s = preflight_done fl cfg now op category u" "db_wf (rs_db u)" "session_status (rs_session u) = ''staged''"
    using assms advance_operation_stage_wf run_stages_wf by (simp add: verify_and_stage_def Let_def)
  obtain t where "commit_session fl now (touch_upload_session cfg now ((with_metadata ''preflight_report'' (Some category) (with_metadata ''current_stage'' (Some ''preflight_complete'')
         (with_metadata ''category'' (Some category) (rs_session u))))\<lparr>failure_message := None\<rparr>)) u = (Inr (), t)" using commit_session_ok[OF u(2)] by blast
  then have "\<exists>s'. preflight_done fl cfg now op category u = (Inr category, s')" by (simp add: preflight_done_def Let_def)
  then show ?thesis using u preflight_done_inv(2) by metis
qed

lemma append_rest:
  assumes inv: "resumable_inv sha F s" and st: "session_status (rs_session s) \<in> UPLOADABLE" "\<not> unified_session (rs_session s)"
    and off: "bytes_received (rs_session s) = file_size (rs_file s)" "ap_offset rq = bytes_received (rs_session s)"
    and rq: "concat (ap_blobs rq) = drop (nat (ap_offset rq)) F" "ap_broken rq = None" "ap_copy_fails rq = None"
    and lim: "int (length F) \<le> max_upload_size cfg" and wf: "db_wf (rs_db s)"
  shows "\<exists>s1. append_stream_locked fl cfg now rq s = (Inr (), s1) \<and> rs_file s1 = Some F \<and> resumable_inv sha F s1
    \<and> session_status (rs_session s1) = ''uploading'' \<and> \<not> unified_session (rs_session s1) \<and> db_wf (rs_db s1)"
proof -
  let ?old = "file_bytes (rs_file s)"
  have n: "nat (ap_offset rq) = length ?old" "file_size (rs_file s) = int (length ?old)" using off by (auto simp: file_size_def file_bytes_def split: option.splits)
  obtain rest where rest: "F = ?old @ rest" using inv by (auto simp: resumable_inv_def prefix_def)
  have data: "concat (ap_blobs rq) = rest" using rq(1) n(1) rest by (metis append_eq_conv_conj)
  have "\<forall>m. m \<le> file_size (rs_file s) + int (length rest) \<longrightarrow> \<not> over_limit cfg (rs_session s) m"
    using inv lim rest n(2) unfolding over_limit_def resumable_inv_def by (metis (no_types, lifting) length_append not_le of_nat_add option.simps(5) order_trans)
  then have acc: "accept_blobs (over_limit cfg (rs_session s)) (file_size (rs_file s)) (ap_blobs rq) = (rest, False)"
    using accept_blobs_ok[of "file_size (rs_file s)" "ap_blobs rq"] data by simp
  define f where "f = Some (?old @ rest)"
  have wf': "db_wf (rs_db (s\<lparr>rs_file := f\<rparr>))" using wf by simp
  obtain s1 where s1: "appended fl cfg now (file_size (rs_file s) + int (length rest)) (s\<lparr>rs_file := f\<rparr>) = (Inr (), s1)" "db_wf (rs_db s1)"
    unfolding appended_def using commit_session_ok[OF wf'] by blast
  have a: "append_stream_locked fl cfg now rq s = (Inr (), s1)"
    unfolding append_stream_locked_def Let_def acc prod.case using st off rq(2,3) s1(1) by (simp add: f_def)
  note eff = appended_effect[OF s1(1)]
  have "rs_file s1 = Some F" using eff(1) rest by (simp add: f_def)
  moreover have "resumable_inv sha F s1" using eff inv rest by (simp add: resumable_inv_def f_def file_bytes_def)
  ultimately show ?thesis using a eff st(2) s1(2) by (simp add: unified_session_def)
qed

text \<open>C21: a client that continues at the confirmed offset completes the upload. From every state of
  the session in which the confirmed offset is the size of the staged file, sending the rest of
  the file in whatever pieces is accepted, and a finalization whose preflight succeeds stages
  the client's file with its SHA-256.\<close>

theorem resumed_upload_completes:
  assumes "resumable_inv sha F s" "F \<noteq> []" "session_status (rs_session s) \<in> UPLOADABLE" "\<not> unified_session (rs_session s)"
    and "bytes_received (rs_session s) = file_size (rs_file s)" "ap_offset rq = bytes_received (rs_session s)"
    and "concat (ap_blobs rq) = drop (nat (ap_offset rq)) F" "ap_broken rq = None" "ap_copy_fails rq = None"
    and "int (length F) \<le> max_upload_size cfg" "db_wf (rs_db s)" "pf_result pf = Inr category"
  shows "\<exists>s1 s2. append_resumable_upload_chunk_stream fl cfg now (Some True) rq s = (Inr (), s1)
    \<and> finalize_resumable_locked fl sha cfg later pf s1 = (Inr category, s2)
    \<and> session_status (rs_session s2) = ''staged'' \<and> rs_file s2 = Some F \<and> sha256 (rs_session s2) = Some (sha F)"
proof -
  obtain s1 where a: "append_stream_locked fl cfg now rq s = (Inr (), s1)" "rs_file s1 = Some F" "resumable_inv sha F s1"
    "session_status (rs_session s1) = ''uploading''" "\<not> unified_session (rs_session s1)" "db_wf (rs_db s1)"
    using append_rest[OF assms(1,3-11)] by blast
  obtain op where op: "get_operation_for_session (rs_db s1) (rs_session s1) = Inr op"
    using ops_wf_find(1)[of "next_id (rs_db s1)" "operations (rs_db s1)"] a(6) by (simp add: get_operation_for_session_def db_wf_def)
  obtain s2 where v: "verify_and_stage fl sha cfg later op pf s1 = (Inr category, s2)" "session_status (rs_session s2) = ''staged''"
    using verify_and_stage_ok[OF a(6) assms(12)] by blast
  have "finalize_resumable_locked fl sha cfg later pf s1 = (Inr category, s2)"
    using a op v(1) by (simp add: finalize_resumable_locked_def Let_def UPLOADABLE_def resumable_inv_def file_size_def)
  moreover from finalize_resumable_inv[OF a(3) assms(2) this] have "rs_file s2 = Some F \<and> sha256 (rs_session s2) = Some (sha F)"
    using v(2) by (simp add: resumable_inv_def)
  ultimately show ?thesis using a(1) v(2) by (auto simp: append_resumable_upload_chunk_stream_def)
qed

subsection \<open>When the confirmed offset and the staged file part\<close>

text \<open>No append at any offset is accepted then, also not at the one the refusal names.\<close>

lemma diverged_refuses:
  assumes "bytes_received (rs_session s) \<noteq> file_size (rs_file s)" "session_status (rs_session s) \<in> UPLOADABLE" "\<not> unified_session (rs_session s)"
  shows "append_stream_locked fl cfg now rq s = (Inl (SessionError ''offset_mismatch''), s)"
    "append_resumable_upload_chunk fl cfg now rq s = (Inl (SessionError ''offset_mismatch''), s)"
  using assms by (auto simp: append_stream_locked_def append_resumable_upload_chunk_def Let_def split: prod.split)

text \<open>
  A copy to the staged file that fails after some bytes does that: the bytes stay, and the
  confirmed offset is set back. A finalization, which is refused, sets it right.
\<close>

lemma failed_copy_diverges:
  assumes "append_stream_locked fl cfg now rq s = (r, s')" "session_status (rs_session s) \<in> UPLOADABLE" "\<not> unified_session (rs_session s)"
    and "bytes_received (rs_session s) = file_size (rs_file s)" "ap_offset rq = bytes_received (rs_session s)"
    and "accept_blobs (over_limit cfg (rs_session s)) (file_size (rs_file s)) (ap_blobs rq) = (data, False)" "data \<noteq> []"
    and "ap_broken rq = None" "ap_copy_fails rq = Some (Suc k, exc)"
  shows "bytes_received (rs_session s') < file_size (rs_file s')" "session_status (rs_session s') = ''interrupted''"
proof -
  define f where "f = Some (file_bytes (rs_file s) @ take (Suc k) data)"
  have i: "interrupted fl cfg now exc (file_size (rs_file s)) (Some (file_size (rs_file s))) (s\<lparr>rs_file := f\<rparr>) = (r, s')"
    using assms unfolding append_stream_locked_def Let_def by (simp add: f_def)
  show "session_status (rs_session s') = ''interrupted''" using interrupted_effect(2)[OF i] .
  have "file_size f > file_size (rs_file s)" using assms(7) by (auto simp: f_def file_size_def file_bytes_def split: option.splits)
  then show "bytes_received (rs_session s') < file_size (rs_file s')" using interrupted_effect(1,4)[OF i] by simp
qed

text \<open>The append from a file object does it as well, when a later blob exceeds the limit: the earlier ones stay in the staged file.\<close>

lemma exceeded_limit_diverges:
  assumes "append_resumable_upload_chunk fl cfg now rq s = (r, s')" "session_status (rs_session s) \<in> UPLOADABLE"
    and "bytes_received (rs_session s) = file_size (rs_file s)" "ap_offset rq = bytes_received (rs_session s)"
    and "accept_blobs (over_limit cfg (rs_session s)) (file_size (rs_file s)) (ap_blobs rq) = (data, True)" "data \<noteq> []"
  shows "bytes_received (rs_session s') < file_size (rs_file s')" "rs_session s' = rs_session s"
proof -
  have "s' = s\<lparr>rs_file := Some (file_bytes (rs_file s) @ data)\<rparr>" using assms unfolding append_resumable_upload_chunk_def Let_def by simp
  then show "bytes_received (rs_session s') < file_size (rs_file s')" "rs_session s' = rs_session s"
    using assms(3,6) by (auto simp: file_size_def file_bytes_def split: option.splits)
qed

subsection \<open>Concrete uploads\<close>

definition example_resumable_config :: resumable_settings where
  "example_resumable_config = \<lparr>max_upload_size = 100, session_ttl = 600\<rparr>"

definition example_resumable_request :: create_resumable where
  "example_resumable_request = \<lparr>cr_id = ''s1'', cr_case_id = ''c1'', cr_filename = ''disk.raw'', cr_size = 3, cr_platform = None, cr_client_sha256 = None, cr_packaged = False\<rparr>"

definition example_resumable :: resumable where
  "example_resumable = projr (start_session id example_resumable_config 0 100 example_db example_resumable_request)"

definition example_append :: "int \<Rightarrow> bytes list \<Rightarrow> append_request" where
  "example_append off blobs = \<lparr>ap_offset = off, ap_blobs = blobs, ap_broken = None, ap_copy_fails = None\<rparr>"

definition example_resumed :: resumable where
  "example_resumed = snd (append_stream_locked id example_resumable_config 5 (example_append 0 [[1]]) example_resumable)"

definition example_preflight :: preflight where
  "example_preflight = \<lparr>pf_stages = [''classifying''], pf_result = Inr ''disk_image''\<rparr>"

lemma example_started: "start_session id example_resumable_config 0 100 example_db example_resumable_request = Inr example_resumable"
proof -
  let ?ses = "new_session example_resumable_config 0 example_resumable_request"
  let ?s = "\<lparr>rs_session = ?ses, rs_file = None, rs_client_sha256 = None, rs_db = example_db\<rparr>"
  have "db_wf (rs_db ?s)" by (simp add: example_db_wf)
  from commit_session_ok[OF this] obtain s' where "commit_session id 0 ?ses ?s = (Inr (), s')" by blast
  then show ?thesis
    by (simp add: example_resumable_def start_session_def preupload_storage_check_def example_resumable_config_def example_resumable_request_def Let_def)
qed

text \<open>One byte is there; the other two follow.\<close>

lemma example_resumable_state:
  "rs_session example_resumable = new_session example_resumable_config 0 example_resumable_request" "rs_file example_resumable = None" "db_wf (rs_db example_resumable)"
proof -
  let ?ses = "new_session example_resumable_config 0 example_resumable_request"
  let ?s = "\<lparr>rs_session = ?ses, rs_file = None, rs_client_sha256 = None, rs_db = example_db\<rparr>"
  have "db_wf (rs_db ?s)" by (simp add: example_db_wf)
  from commit_session_ok[OF this] obtain s' where c: "commit_session id 0 ?ses ?s = (Inr (), s')" "db_wf (rs_db s')" by blast
  then have "s' = example_resumable" using example_started
    by (simp add: start_session_def preupload_storage_check_def example_resumable_config_def example_resumable_request_def Let_def)
  then show "rs_session example_resumable = ?ses" "rs_file example_resumable = None" "db_wf (rs_db example_resumable)"
    using c commit_session_effect[OF c(1)] by simp_all
qed

lemma example_resumed_state:
  "rs_file example_resumed = Some [1]" "bytes_received (rs_session example_resumed) = 1" "session_status (rs_session example_resumed) = ''uploading''"
  "session_metadata (rs_session example_resumed) = session_metadata (rs_session example_resumable)" "expected_size (rs_session example_resumed) = Some 3" "db_wf (rs_db example_resumed)"
proof -
  let ?t = "example_resumable\<lparr>rs_file := Some [1]\<rparr>"
  have "db_wf (rs_db ?t)" using example_resumable_state(3) by simp
  from commit_session_ok[OF this] obtain s' where c: "appended id example_resumable_config 5 1 ?t = (Inr (), s')" "db_wf (rs_db s')" unfolding appended_def by blast
  have "append_stream_locked id example_resumable_config 5 (example_append 0 [[1]]) example_resumable = (Inr (), s')"
    using c(1) by (simp add: append_stream_locked_def example_append_def example_resumable_state new_session_def unified_session_def meta_get_def UPLOADABLE_def
      file_size_def file_bytes_def over_limit_def example_resumable_request_def example_resumable_config_def)
  then have "example_resumed = s'" by (simp add: example_resumed_def)
  with c(2) appended_effect[OF c(1)] example_resumable_state(1)
  show "rs_file example_resumed = Some [1]" "bytes_received (rs_session example_resumed) = 1" "session_status (rs_session example_resumed) = ''uploading''"
    "session_metadata (rs_session example_resumed) = session_metadata (rs_session example_resumable)" "expected_size (rs_session example_resumed) = Some 3" "db_wf (rs_db example_resumed)"
    by (simp_all add: new_session_def example_resumable_request_def)
qed

theorem staged_evidence_exact_witness: "prefix (file_bytes (rs_file example_resumed)) [1, 2, 3]"
proof -
  have "resumable_step id (\<lambda>_. []) example_resumable_config [1, 2, 3] example_resumable example_resumed"
    by (rule resumable_step.stream[where rq = "example_append 0 [[1]]" and now = 5 and lock = "Some True" and
        r = "fst (append_stream_locked id example_resumable_config 5 (example_append 0 [[1]]) example_resumable)"])
      (simp_all add: honest_append_def example_append_def append_resumable_upload_chunk_stream_def example_resumed_def)
  then have "(resumable_step id (\<lambda>_. []) example_resumable_config [1, 2, 3])\<^sup>*\<^sup>* example_resumable example_resumed" by blast
  from staged_evidence_exact[OF example_started _ _ this] show ?thesis by (simp add: example_resumable_request_def)
qed

theorem resumed_upload_completes_witness:
  "\<exists>s1 s2. append_resumable_upload_chunk_stream id example_resumable_config 8 (Some True) (example_append 1 [[2], [3]]) example_resumed = (Inr (), s1)
    \<and> finalize_resumable_locked id (\<lambda>b. nat_digits (length b)) example_resumable_config 9 example_preflight s1 = (Inr ''disk_image'', s2)
    \<and> rs_file s2 = Some [1, 2, 3] \<and> sha256 (rs_session s2) = Some ''3''"
proof -
  have sz: "nat_digits (Suc (Suc (Suc 0))) = ''3''" by code_simp
  have "resumable_inv (\<lambda>b. nat_digits (length b)) [1, 2, 3] example_resumed" by (simp add: resumable_inv_def example_resumed_state file_bytes_def)
  from resumed_upload_completes[OF this, of "example_append 1 [[2], [3]]" example_resumable_config example_preflight "''disk_image''" id 8 9]
  show ?thesis using sz
    by (auto simp: example_resumed_state example_resumable_state UPLOADABLE_def unified_session_def meta_get_def new_session_def file_size_def example_append_def
      example_resumable_config_def example_preflight_def)
qed

end
