(* ===== verification/Spec2Isabelle.thy ===== *)
theory Spec2Isabelle
  imports Lvm_Properties Query_Properties Ext_Properties Journald_Properties Capacity_Properties Operations_Properties Memory_Properties Sigma_Candidates Upload_Cleanup Resumable_Properties
begin

text \<open>
  Kairon DFIR is a digital forensics platform: analysts upload disk images, memory images and
  collections of artifacts into a case, the backend stages and registers them, parses what is
  in them into event documents, indexes the documents, and offers search, detection rules and
  analyses over them. This is a verification development of the backend's own core logic, the
  Python code under \<^verbatim>\<open>src/backend/app\<close>. Paths below are relative to that directory.

  \<^bold>\<open>The parts and how they interact.\<close> Evidence comes in through two kinds of upload: the
  chunk-indexed one of \<^verbatim>\<open>services/memory/upload_sessions.py\<close> over \<^verbatim>\<open>services/upload_shared\<close>, whose
  admission \<^verbatim>\<open>services/memory/upload_capacity.py\<close> decides, and the byte-offset one of
  \<^verbatim>\<open>services/evidence_upload_session.py\<close>. Every evidence session has an operation in
  \<^verbatim>\<open>services/evidence_operations.py\<close>, which mirrors its progress and is reconciled with it. A disk
  image is read through the readers of \<^verbatim>\<open>disk_images/volume_access.py\<close>, which open logical volumes
  with \<^verbatim>\<open>disk_images/lvm\<close>; deleted files come back through \<^verbatim>\<open>disk_images/ext_journal.py\<close>, systemd
  journals are read by \<^verbatim>\<open>ingest/linux/journal_binary.py\<close>. A memory image is classified by
  \<^verbatim>\<open>services/memory/platform\<close>, and \<^verbatim>\<open>services/memory/analysis_plan.py\<close> selects the plugins to run
  from the table of \<^verbatim>\<open>services/memory/capability_registry.py\<close>. Indexed events are searched with
  the language of \<^verbatim>\<open>search/query_syntax.py\<close> and matched by the Sigma rules of
  \<^verbatim>\<open>rules_engine/sigma.py\<close>, whose scans \<^verbatim>\<open>workers/tasks.py\<close> runs.

  \<^bold>\<open>How the code is modelled.\<close> Exceptions are the left side of a sum (\<open>res_bind\<close> of the theory
  Prelude sequences them); a handler that changes state takes the state and returns it with the
  result; tables are lists of rows; dictionaries are association lists in insertion order,
  whose laws the locale \<open>ordered_dict\<close> states and \<open>pydict\<close> discharges. Python integers are
  \<open>int\<close>, bytes are \<open>8 word\<close>, fixed-width fields are decoded as the code decodes them, with the
  wrap-around of the CRC on \<open>32 word\<close>. The clock, fresh identifiers, SHA-256, regular
  expression search, the text of floats, free space and the answers of libraries and other
  services are arguments.

  \<^bold>\<open>Theories, in the order of the data.\<close>

  \<^item> Prelude: errors as values, byte strings, slices, Python dictionaries and strings; Python_Values:
    JSON values, numerals, substring tests.
  \<^item> Lvm_Models, Lvm_Binary, Lvm_Text, Lvm_Parser and Lvm_Reader follow \<^verbatim>\<open>exceptions.py\<close> and
    \<^verbatim>\<open>models.py\<close>, \<^verbatim>\<open>binary.py\<close>, \<^verbatim>\<open>text_format.py\<close>, \<^verbatim>\<open>parser.py\<close> and \<^verbatim>\<open>reader.py\<close> of \<^verbatim>\<open>disk_images/lvm\<close>.
    Lvm_Print and Lvm_Image are the specification: what LVM2 writes. Lvm_Properties: a logical
    volume reads as the bytes its segments map, an image written for a group is parsed back to
    it, the metadata text round trips, a damaged header is detected, and parsed groups are well
    formed.
  \<^item> Byte_Source and Volume_Access: the contract of a reader (the locale \<open>exact_reader\<close>, which the
    image file interprets) and the stack of readers over it; this theory proves the end-to-end
    property that spans them and the LVM2 reader.
  \<^item> Ext_Journal and Ext_Recovery: the index of a JBD2 journal, the blocks and inodes of the past
    and the recovery of a deleted file; Ext_Directory: directory blocks as a format with an
    encoder; Ext_Properties.
  \<^item> Journald and Journald_Properties: the scan of a journal file against a reference without
    caches and caps.
  \<^item> Query_Fields, Query_Syntax, Query_Eval, Query_Properties: the field table, tokenizer and
    parser, the OpenSearch query of a tree and its evaluation on a document; the parser round
    trips and ends, and the query and the evaluation agree.
  \<^item> Sigma_Tables, Sigma_Condition, Sigma_Match, Sigma_Engine: the tables, the condition language
    with its shunting yard, matching of fields and keywords, evaluation, compilation and
    candidate queries. Sigma_Semantics, Sigma_Written and Sigma_Quantified give the meaning of
    conditions, Sigma_Compiled the agreement of the compiled rule; Sigma_Properties and
    Sigma_Candidates hold the properties.
  \<^item> Upload_Capacity and Capacity_Properties: the capacity decision, the recommended size, and the
    Redis slot with its step relation and mutual exclusion.
  \<^item> Chunk_Staging: the classification of a staging directory, the assembly of chunks and the
    finalization core, which relies on its hooks through the locale \<open>finalize_backend\<close>; Chunk_Upload:
    the handlers of a session and the interpretation \<open>memory_backend\<close> of that locale on its hooks.
    Chunk_Properties and Chunk_Sessions: the invariant, a step relation of an honest client's
    requests with finalizations, cancellations and expiry, and triples for the hooks.
    Chunk_Outcomes: the evidence file is the client's file, an honest upload succeeds, and a
    finalization stores what was declared, whoever the client is.
  \<^item> Upload_Storage and Upload_Cleanup: the table of sessions with the staging area; reservations,
    import of staged files, reconciliation and cleanup.
  \<^item> Evidence_Upload and Resumable_Properties: the byte-offset upload with the synchronisation of
    its operation; the staged file is a prefix of the client's file, and the file once staged.
  \<^item> Evidence_Operations and Operations_Properties: transitions, synchronisation, jobs and
    reconciliation over explicit tables, with their invariant by rule induction.
  \<^item> Memory_Platform, Memory_Plan, Memory_Properties: the probe of a memory image, the vote of
    kernel signatures, the registry and the plan.

  \<^bold>\<open>Bounds and fuel.\<close> The query parser takes \<open>4 * n + 5\<close> steps of fuel for \<open>n\<close> tokens, and
  Query_Properties shows that it never runs out; the text parser of LVM2 and the
  bisection of the recommended size recurse with measures; the read loop of a logical volume is
  a partial function, and Lvm_Properties shows that it returns. The expansion of Sigma
  conditions has the eight rounds of the code. \<open>chunk_count\<close> is the exact quotient, which the
  division of floats in the code gives for sizes below \<open>2^53\<close>. Chunk file names are padded to eight
  digits and unbounded beyond.

  \<^bold>\<open>What some hypotheses say.\<close> \<open>honest\<close> and \<open>honest_append\<close>: the body of a request is a prefix of
  the piece of the file it is for. \<open>proper_env\<close>: registration does not touch what was received,
  and when it returns, the session is completed. \<open>accepting\<close>: there is room, no duplicate and
  no failure of the file system. \<open>db_wf\<close> is the invariant of the tables of operations, which
  every operation keeps.

  \<^bold>\<open>Not modelled, and why.\<close> The HTTP routes and the workers but for the query of a Sigma scan
  (glue over the services); disk image formats and the walk of file systems (calls of qemu-img,
  pyewf and pytsk3); the artifact parsers and normalizers (tables of column names); correlation,
  timelines, reports and the assistant (aggregations over the index and rendering); running
  Volatility and MemProcFS, and fetching symbols (subprocesses and network); the registration of
  an uploaded image, Redis locks and the promotion of evidence sessions (database transactions);
  reading YAML, and the case profile that chooses the Sigma rules to run; models and migrations
  beyond the rows the services use. Two requests that interleave between their commits are
  considered for the metadata of an upload only (the end of Chunk_Outcomes); elsewhere a request
  runs as one step, as its lock provides.
\<close>

section \<open>Properties that span components\<close>

text \<open>C3: End to end: on an image file that holds a physical volume at some offset, every logical volume whose metadata parses and whose extents lie on the image is opened by the first volume with its name and read back byte for byte.\<close>

theorem volume_reader_end_to_end:
  assumes "0 \<le> c" and "c \<le> int (length img)" and "vol_lvm volume = Some (c, name)"
    and "parse_physical_volume_metadata (\<lambda>off n. file_read img (c + off) n) = Inr m"
    and "find (\<lambda>lv. lv_name lv = name) (logical_volumes (pvm_volume_group m)) = Some lv"
    and "lv_on_disk (pvm_volume_group m) lv (drop (nat c) img)"
    and "content = lv_content (pvm_volume_group m) lv (drop (nat c) img)"
  shows "\<exists>rd. volume_byte_reader (file_read img) volume = Inr rd \<and> (\<forall>off n. rd off n =
    Some (if off < 0 \<or> n < 0 \<or> off + n > int (length content) then Inl InvalidReadRequestError
          else Inr (slice content (nat off) (nat (off + n)))))"
proof -
  let ?rd = "\<lambda>off n. file_read img (c + off) n" and ?vg = "pvm_volume_group m"
  have ex: "exact_reader ?rd (drop (nat c) img)" using image_file.window assms(1,2) .
  obtain r where r: "LogicalVolumeReader lv ?vg ?rd = Inr r" "r_size_bytes r = int (length content)"
    using LogicalVolumeReader_wf assms(6,7) length_lv_content [OF assms(6)] unfolding lv_on_disk_def by metis
  have "volume_byte_reader (file_read img) volume = Inr (lv_read r)"
    using assms(3-5) r(1) by (simp add: volume_byte_reader_def open_logical_volume_def)
  with exact_reader.lv_read_content [OF ex assms(6) r(1)] r(2) assms(7) show ?thesis by auto
qed

theorem volume_reader_end_to_end_witness:
  "\<exists>rd. volume_byte_reader (file_read example_image) \<lparr>vol_offset_bytes = 0, vol_partition_index = 0,
      vol_warnings = [], vol_lvm = Some (0, ''root'')\<rparr> = Inr rd
    \<and> rd 1024 1 = Some (Inl InvalidReadRequestError)
    \<and> rd 0 512 = Some (Inr (slice example_image 1024 1536))"
proof -
  let ?lv = "hd (logical_volumes example_vg)"
  have len: "int (length example_image) \<ge> 1536"
    by (simp add: example_image_def pv_image_def length_encode_mda_header)
  have disk: "lv_on_disk example_vg ?lv (drop (nat 0) example_image)"
    using len by (simp add: lv_on_disk_def example_vg_def lv_wf_def segment_wf_def segment_physical_offset_def pvs_by_name_def)
  have c: "lv_content example_vg ?lv (drop (nat 0) example_image)
      = slice example_image 1024 1536 @ slice example_image 512 1024"
    by (simp add: lv_content_def segment_bytes_def example_vg_def segment_physical_offset_def pvs_by_name_def)
  let ?vol = "\<lparr>vol_offset_bytes = 0, vol_partition_index = 0, vol_warnings = [], vol_lvm = Some (0, ''root'')\<rparr>"
  let ?m = "\<lparr>pvm_physical_volume = hd (physical_volumes example_vg), pvm_volume_group = example_vg\<rparr>"
  have "find (\<lambda>lv. lv_name lv = ''root'') (logical_volumes (pvm_volume_group ?m)) = Some ?lv"
    by (simp add: example_vg_def)
  with example_image_parses disk len
  obtain rd where rd: "volume_byte_reader (file_read example_image) ?vol = Inr rd"
    "\<And>off n. rd off n = Some (if off < 0 \<or> n < 0
         \<or> off + n > int (length (slice example_image 1024 1536 @ slice example_image 512 1024))
       then Inl InvalidReadRequestError
       else Inr (slice (slice example_image 1024 1536 @ slice example_image 512 1024) (nat off) (nat (off + n))))"
    using volume_reader_end_to_end [of 0 example_image ?vol "''root''" ?m ?lv
        "slice example_image 1024 1536 @ slice example_image 512 1024"] c
    by auto
  have "slice (slice example_image 1024 1536 @ slice example_image 512 1024) 0 512 = slice example_image 1024 1536"
    using len by (simp add: slice_append_left slice_slice length_slice)
  with rd len show ?thesis by (auto simp: length_slice)
qed

end
